theory Spec2Isabelle
  imports Main "HOL-Library.Sublist" "HOL-Library.Char_ord" "HOL-Library.List_Lexorder"
begin

section \<open>Strings, bytes and paths\<close>

text \<open>
  Python \<open>str\<close> and \<open>bytes\<close> are both modelled as \<open>string\<close> (a list of 8-bit characters);
  Python's \<open>v in data\<close> on strings is the contiguous-substring test \<open>sublist v data\<close>, and
  Python's string order is the lexicographic order on characters.
\<close>

type_synonym bytes = string
type_synonym path = string

datatype py_error =
    IndexError
  | AssertionError
  | KeyError
  | BadGzipFile
  | ReadError
  | IsADirectoryError
  | NotADirectoryError
  | FileExistsError
  | FileNotFoundError
  | UnicodeDecodeError
  | EOFError
  | OSError
  | PathTraversal
  | TimeoutExpired

text \<open>\<open>raised r e\<close>: the result \<open>r\<close> is the exception \<open>e\<close>.\<close>

definition raised :: "py_error + 'a \<Rightarrow> py_error \<Rightarrow> bool" where
  "raised r e = (case r of Inl e' \<Rightarrow> e' = e | Inr _ \<Rightarrow> False)"

definition backslash :: char where
  "backslash = CHR 0x5C"

definition dquote :: char where
  "dquote = CHR 0x22"

text \<open>\<open>str.rfind(c)\<close>: the last index of \<open>c\<close>, \<open>None\<close> for Python's \<open>-1\<close>.\<close>

fun rfind :: "char \<Rightarrow> string \<Rightarrow> nat option" where
  "rfind c [] = None"
| "rfind c (x # xs) =
     (case rfind c xs of
        Some i \<Rightarrow> Some (Suc i)
      | None \<Rightarrow> if x = c then Some 0 else None)"

text \<open>\<open>PurePath.name\<close>: the final path component.\<close>

definition basename :: "path \<Rightarrow> string" where
  "basename p =
     (case rfind (CHR ''/'') p of
        None \<Rightarrow> p
      | Some i \<Rightarrow> drop (Suc i) p)"

text \<open>
  \<open>PurePath.suffix\<close> and \<open>PurePath.stem\<close>: with \<open>i = name.rfind('.')\<close>, the suffix is
  \<open>name[i:]\<close> and the stem \<open>name[:i]\<close> when \<open>0 < i < len(name) - 1\<close>; otherwise the suffix is
  empty and the stem is the whole name.
\<close>

definition suffix_of :: "path \<Rightarrow> string" where
  "suffix_of p =
     (let name = basename p in
      case rfind (CHR ''.'') name of
        None \<Rightarrow> []
      | Some i \<Rightarrow> if 0 < i \<and> Suc i < length name then drop i name else [])"

definition stem :: "path \<Rightarrow> string" where
  "stem p =
     (let name = basename p in
      case rfind (CHR ''.'') name of
        None \<Rightarrow> name
      | Some i \<Rightarrow> if 0 < i \<and> Suc i < length name then take i name else name)"

text \<open>\<open>PurePath.with_suffix\<close>, for a path whose name is not empty.\<close>

definition with_suffix :: "path \<Rightarrow> string \<Rightarrow> path" where
  "with_suffix p s = take (length p - length (suffix_of p)) p @ s"

text \<open>\<open>d / name\<close> and \<open>os.path.join\<close> (posixpath) for two arguments.\<close>

definition join :: "path \<Rightarrow> path \<Rightarrow> path" where
  "join a b =
     (if b \<noteq> [] \<and> hd b = CHR ''/'' then b
      else if a = [] \<or> last a = CHR ''/'' then a @ b
      else a @ ''/'' @ b)"

text \<open>\<open>str.split('/')\<close>.\<close>

fun split_slash :: "string \<Rightarrow> string list" where
  "split_slash [] = [[]]"
| "split_slash (c # cs) =
     (if c = CHR ''/'' then [] # split_slash cs
      else (case split_slash cs of
              [] \<Rightarrow> [[c]]
            | w # ws \<Rightarrow> (c # w) # ws))"

text \<open>\<open>'/'.join(comps)\<close>.\<close>

fun join_slash :: "string list \<Rightarrow> string" where
  "join_slash [] = []"
| "join_slash [w] = w"
| "join_slash (w # ws) = w @ ''/'' @ join_slash ws"

text \<open>
  The component loop of \<open>posixpath.normpath\<close>; \<open>new_comps\<close> is kept reversed, so that its
  head is Python's \<open>new_comps[-1]\<close>.
\<close>

fun norm_comps :: "bool \<Rightarrow> string list \<Rightarrow> string list \<Rightarrow> string list" where
  "norm_comps initial_slashes new_comps [] = rev new_comps"
| "norm_comps initial_slashes new_comps (name # comps) =
     (if name = [] \<or> name = ''.'' then norm_comps initial_slashes new_comps comps
      else if name \<noteq> ''..'' \<or> (\<not> initial_slashes \<and> new_comps = [])
                \<or> (new_comps \<noteq> [] \<and> hd new_comps = ''..'')
        then norm_comps initial_slashes (name # new_comps) comps
      else if new_comps \<noteq> [] then norm_comps initial_slashes (tl new_comps) comps
      else norm_comps initial_slashes new_comps comps)"

definition normpath :: "path \<Rightarrow> path" where
  "normpath p =
     (if p = [] then ''.''
      else
        let initial_slashes =
              (if take 1 p = ''/'' then
                 (if take 2 p = ''//'' \<and> take 3 p \<noteq> ''///'' then 2 else 1)
               else (0::nat));
            comps = norm_comps (initial_slashes \<noteq> 0) [] (split_slash p);
            q = replicate initial_slashes (CHR ''/'') @ join_slash comps
        in if q = [] then ''.'' else q)"

text \<open>\<open>os.path.abspath\<close>, with the process's working directory as a parameter.\<close>

definition abspath :: "path \<Rightarrow> path \<Rightarrow> path" where
  "abspath cwd p = normpath (if take 1 p = ''/'' then p else join cwd p)"

text \<open>
  \<open>os.path.commonprefix\<close> of a two-element list: the character-wise common prefix of the
  smaller and the larger string. The scan stops at the end of \<open>s1\<close>, the minimum.
\<close>

fun commonprefix_scan :: "string \<Rightarrow> string \<Rightarrow> string" where
  "commonprefix_scan [] s2 = []"
| "commonprefix_scan (c # s1) [] = []"
| "commonprefix_scan (c # s1) (d # s2) = (if c \<noteq> d then [] else c # commonprefix_scan s1 s2)"

definition commonprefix :: "string \<Rightarrow> string \<Rightarrow> string" where
  "commonprefix a b = commonprefix_scan (min a b) (max a b)"

section \<open>Log tag classifier (report.py)\<close>

text \<open>The dictionary \<open>TAGS\<close>, in insertion order.\<close>

definition TAGS :: "(string \<times> string) list" where
  "TAGS =
     [(''no-font-for-pdf'',
         ''Cannot proceed without .vf or '' @ [dquote] @ ''physical'' @ [dquote]
           @ '' font for PDF output...''),
      (''latex-file-not-found'', ''LaTeX Error: File''),
      (''undefined-control-sequence'', ''! Undefined control sequence.''),
      (''not-latex'', ''LaTeX Error: Missing '' @ [backslash] @ ''begin{document}''),
      (''uses-inputenc'',
         ''Package inputenc Error: inputenc is not designed for xetex or luatex.''),
      (''latex-error'', ''LaTeX Error''),
      (''bib-failed'', [backslash] @ ''end{thebibliography}'')]"

text \<open>
  \<open>IMPLIED_TAGS\<close>, the dictionary comprehension over a tag table: each key is mapped to the
  set of the other keys whose signature occurs inside its own signature.
\<close>

definition implied_tags :: "(string \<times> string) list \<Rightarrow> (string \<times> string set) list" where
  "implied_tags tags =
     map (\<lambda>(k, v). (k, set (map fst (filter (\<lambda>(k', v'). sublist v' v \<and> k' \<noteq> k) tags)))) tags"

definition IMPLIED_TAGS :: "(string \<times> string set) list" where
  "IMPLIED_TAGS = implied_tags TAGS"

text \<open>A failed dictionary lookup \<open>IMPLIED_TAGS[tag]\<close> is the error \<open>KeyError\<close>.\<close>

fun lookup_all :: "(string \<times> 'v) list \<Rightarrow> string list \<Rightarrow> py_error + 'v list" where
  "lookup_all tbl [] = Inr []"
| "lookup_all tbl (k # ks) =
     (case map_of tbl k of
        None \<Rightarrow> Inl KeyError
      | Some v \<Rightarrow> (case lookup_all tbl ks of Inl e \<Rightarrow> Inl e | Inr vs \<Rightarrow> Inr (v # vs)))"

text \<open>
  \<open>get_tags\<close> over a tag table and its implication table. The file system is the partial map
  from a path to what \<open>p.exists()\<close> and \<open>open(p)\<close> find there: nothing (\<open>None\<close>), a
  directory, or a regular file with its bytes. \<open>open(p)\<close> is in text mode, so \<open>f.read()\<close>
  gives the text the bytes stand for in the locale's codec, with line ends translated (the
  parameter \<open>decode\<close>, \<open>None\<close> when the bytes are not valid in that codec, which is
  \<open>UnicodeDecodeError\<close>); opening a directory is \<open>IsADirectoryError\<close>.
\<close>

datatype fsnode = RegularFile bytes | Directory

definition get_tags_with ::
  "(string \<times> string) list \<Rightarrow> (string \<times> string set) list \<Rightarrow> (bytes \<Rightarrow> string option)
     \<Rightarrow> (path \<rightharpoonup> fsnode) \<Rightarrow> path \<Rightarrow> py_error + string list" where
  "get_tags_with tags implied decode fs p =
     (case fs p of
        None \<Rightarrow> Inr [''no-log-file'']
      | Some Directory \<Rightarrow> Inl IsADirectoryError
      | Some (RegularFile raw) \<Rightarrow>
          (case decode raw of
             None \<Rightarrow> Inl UnicodeDecodeError
           | Some data \<Rightarrow>
               let res = map fst (filter (\<lambda>(k, v). sublist v data) tags) in
               (case lookup_all implied res of
                  Inl e \<Rightarrow> Inl e
                | Inr sets \<Rightarrow>
                    let redundant = foldl (\<union>) {} sets
                    in Inr (sorted_list_of_set (set res - redundant)))))"

definition get_tags ::
  "(bytes \<Rightarrow> string option) \<Rightarrow> (path \<rightharpoonup> fsnode) \<Rightarrow> path \<Rightarrow> py_error + string list" where
  "get_tags = get_tags_with TAGS IMPLIED_TAGS"

section \<open>Files, external libraries and the world\<close>

text \<open>
  An entry of a directory listing (\<open>Path.iterdir\<close>): its full path, whether it is a regular
  file, and the bytes of the file (empty for a directory).
\<close>

record dirent =
  d_path :: path
  is_file :: bool
  d_data :: bytes

text \<open>A member of a tar archive: its name as stored in the archive and its contents.\<close>

record tarinfo =
  t_name :: string
  t_data :: bytes

text \<open>A sample of the corpus: the path of the archive and its raw bytes.\<close>

record sample =
  s_path :: path
  s_bytes :: bytes

definition st_size :: "sample \<Rightarrow> nat" where
  "st_size s = length (s_bytes s)"

text \<open>
  The state the scripts act on: the directories made by \<open>tempfile.mkdtemp\<close>, the regular files
  by absolute normalised path, the object store \<open>objects/\<close> (by relative path), the working
  directory of the process, the number of temporary directories made so far, and the global
  \<open>_CAPTURE_EXCLUDE\<close> of report.py. Symbolic links are not modelled. A directory exists when
  it was made (\<open>dirs\<close>) or when something lies below it; the root always exists.
\<close>

record world =
  dirs :: "path list"
  files :: "(path \<times> bytes) list"
  objects :: "path \<rightharpoonup> bytes"
  cwd :: path
  tmp_counter :: nat
  capture_exclude :: "string set"

datatype proc_result = Returncode int | TimedOut | NotLaunched

text \<open>
  The libraries and programs outside the repository, as parameters: libmagic's MIME type of
  a file's bytes; gzip decompression, which gives the whole data or raises after some of
  the data has been produced (\<open>BadGzipFile\<close> with nothing produced when the bytes are not a
  gzip stream, \<open>EOFError\<close> after the bytes decompressed so far when the stream is truncated);
  the members \<open>tarfile\<close> reads (\<open>None\<close> when the bytes are not a tar archive); the
  hexadecimal SHA-256 digest; the name \<open>tempfile.mkdtemp('ttrac')\<close> returns on its n-th call;
  \<open>subprocess.run\<close> of an argument vector in a working directory under a timeout in seconds;
  and the text that a text-mode \<open>open(p).read()\<close> gives for the bytes of a file (\<open>None\<close>
  when the bytes cannot be decoded).
\<close>

record extern =
  mime_type :: "bytes \<Rightarrow> string"
  gunzip :: "bytes \<Rightarrow> (py_error \<times> bytes) + bytes"
  tar_members :: "bytes \<Rightarrow> tarinfo list option"
  sha256_hex :: "bytes \<Rightarrow> string"
  tmpname :: "nat \<Rightarrow> path"
  run_proc :: "string list \<Rightarrow> path \<Rightarrow> nat \<Rightarrow> world \<Rightarrow> proc_result \<times> world"
  decode :: "bytes \<Rightarrow> string option"

definition mkdtemp :: "extern \<Rightarrow> world \<Rightarrow> path \<times> world" where
  "mkdtemp L w =
     (let d = tmpname L (tmp_counter w)
      in (d, w\<lparr>dirs := d # dirs w, tmp_counter := Suc (tmp_counter w)\<rparr>))"

definition write_file :: "world \<Rightarrow> path \<Rightarrow> bytes \<Rightarrow> world" where
  "write_file w p data = w\<lparr>files := (p, data) # filter (\<lambda>(q, _). q \<noteq> p) (files w)\<rparr>"

definition unlink :: "world \<Rightarrow> path \<Rightarrow> world" where
  "unlink w p = w\<lparr>files := filter (\<lambda>(q, _). q \<noteq> p) (files w)\<rparr>"

text \<open>\<open>is_below d q\<close>: the path \<open>q\<close> lies below the directory \<open>d\<close>.\<close>

definition is_below :: "path \<Rightarrow> path \<Rightarrow> bool" where
  "is_below d q = (prefix (d @ ''/'') q \<and> Suc (length d) < length q)"

text \<open>
  \<open>is_dir w q\<close> and \<open>is_regular w q\<close>: what the absolute, resolved path \<open>q\<close> names.
\<close>

definition is_dir :: "world \<Rightarrow> path \<Rightarrow> bool" where
  "is_dir w q =
     (q = ''/'' \<or> q \<in> set (dirs w) \<or> list_ex (is_below q) (dirs w @ map fst (files w)))"

definition is_regular :: "world \<Rightarrow> path \<Rightarrow> bool" where
  "is_regular w q = (case map_of (files w) q of None \<Rightarrow> False | Some b \<Rightarrow> True)"

text \<open>The error of a path component that is looked up in something that is no directory.\<close>

definition not_a_dir :: "world \<Rightarrow> path \<Rightarrow> py_error" where
  "not_a_dir w q = (if is_regular w q then NotADirectoryError else FileNotFoundError)"

text \<open>
  Path resolution as the kernel does it, from the root, one component at a time: every
  component, also \<open>.\<close> and \<open>..\<close>, is looked up in a directory that has to exist, so
  \<open>a/../b\<close> is \<open>b\<close> only when \<open>a\<close> is a directory. \<open>walk\<close> gives the resolved path whether
  or not its last component exists.
\<close>

definition parent_dir :: "path \<Rightarrow> path" where
  "parent_dir q =
     (case rfind (CHR ''/'') q of
        None \<Rightarrow> q
      | Some i \<Rightarrow> if i = 0 then ''/'' else take i q)"

definition child_of :: "path \<Rightarrow> string \<Rightarrow> path" where
  "child_of q c = (if q = ''/'' then q @ c else q @ ''/'' @ c)"

fun walk :: "world \<Rightarrow> path \<Rightarrow> string list \<Rightarrow> py_error + path" where
  "walk w cur [] = Inr cur"
| "walk w cur (c # cs) =
     (if c = [] then walk w cur cs
      else if \<not> is_dir w cur then Inl (not_a_dir w cur)
      else if c = ''.'' then walk w cur cs
      else if c = ''..'' then walk w (parent_dir cur) cs
      else walk w (child_of cur c) cs)"

definition components :: "path \<Rightarrow> path \<Rightarrow> string list" where
  "components wd p =
     filter (\<lambda>c. c \<noteq> []) (split_slash (if take 1 p = ''/'' then p else join wd p))"

text \<open>\<open>os.path.exists\<close>: \<open>os.stat\<close> succeeds.\<close>

definition path_exists :: "world \<Rightarrow> path \<Rightarrow> bool" where
  "path_exists w p =
     (if p = [] then False
      else (case walk w ''/'' (components (cwd w) p) of
              Inl e \<Rightarrow> False
            | Inr q \<Rightarrow> is_dir w q \<or> is_regular w q))"

text \<open>\<open>posixpath.split\<close> and \<open>posixpath.dirname\<close>.\<close>

definition rstrip_slash :: "string \<Rightarrow> string" where
  "rstrip_slash s = rev (dropWhile (\<lambda>c. c = CHR ''/'') (rev s))"

definition psplit :: "path \<Rightarrow> path \<times> string" where
  "psplit p =
     (let i = (case rfind (CHR ''/'') p of None \<Rightarrow> 0 | Some j \<Rightarrow> Suc j);
          head = take i p;
          tail = drop i p
      in (if head \<noteq> [] \<and> head \<noteq> replicate (length head) (CHR ''/'')
            then rstrip_slash head else head, tail))"

definition dirname :: "path \<Rightarrow> path" where
  "dirname p = fst (psplit p)"

text \<open>
  The place a system call creates its last component at: the directory the other
  components lead to has to exist, and the error is the one the kernel reports.
\<close>

definition create_at :: "world \<Rightarrow> path \<Rightarrow> py_error + path \<times> string" where
  "create_at w p =
     (let comps = components (cwd w) p in
      if p = [] then Inl FileNotFoundError
      else if comps = [] then Inr (''/'', ''.'')
      else (case walk w ''/'' (butlast comps) of
              Inl e \<Rightarrow> Inl e
            | Inr par \<Rightarrow> if is_dir w par then Inr (par, last comps) else Inl (not_a_dir w par)))"

text \<open>\<open>os.mkdir\<close>.\<close>

definition mkdir :: "world \<Rightarrow> path \<Rightarrow> py_error option \<times> world" where
  "mkdir w name =
     (case create_at w name of
        Inl e \<Rightarrow> (Some e, w)
      | Inr (par, c) \<Rightarrow>
          if c = ''.'' \<or> c = ''..'' then (Some FileExistsError, w)
          else if is_dir w (child_of par c) \<or> is_regular w (child_of par c)
            then (Some FileExistsError, w)
          else (None, w\<lparr>dirs := child_of par c # dirs w\<rparr>))"

text \<open>
  \<open>os.makedirs(name)\<close> with \<open>exist_ok=False\<close>: the head is made first when it does not
  exist, a \<open>FileExistsError\<close> of that recursive call is passed over, and a name that ends in
  \<open>.\<close> is then complete; any error of the final \<open>mkdir\<close> is raised.
\<close>

definition split_head :: "path \<Rightarrow> path" where
  "split_head name =
     (if snd (psplit name) = [] then fst (psplit (fst (psplit name))) else fst (psplit name))"

definition split_tail :: "path \<Rightarrow> string" where
  "split_tail name =
     (if snd (psplit name) = [] then snd (psplit (fst (psplit name))) else snd (psplit name))"

function makedirs :: "world \<Rightarrow> path \<Rightarrow> py_error option \<times> world" where
  "makedirs w name =
     (if split_head name \<noteq> [] \<and> split_tail name \<noteq> [] \<and> \<not> path_exists w (split_head name)
      then
        (case makedirs w (split_head name) of
           (None, w1) \<Rightarrow> if split_tail name = ''.'' then (None, w1) else mkdir w1 name
         | (Some e, w1) \<Rightarrow>
             if e = FileExistsError
               then (if split_tail name = ''.'' then (None, w1) else mkdir w1 name)
             else (Some e, w1))
      else mkdir w name)"
  by pat_completeness auto

termination makedirs
proof (relation "measure (\<lambda>(w, name). length name)")
  show "wf (measure (\<lambda>(w :: world, name :: path). length name))"
    by simp
next
  fix w :: world and name :: path
  assume a: "split_head name \<noteq> [] \<and> split_tail name \<noteq> [] \<and> \<not> path_exists w (split_head name)"
  have rs: "length (rstrip_slash h) \<le> length h" for h
  proof -
    have "length (dropWhile (\<lambda>c. c = CHR ''/'') (rev h)) \<le> length (rev h)"
      by (rule length_dropWhile_le)
    then show ?thesis
      by (simp add: rstrip_slash_def)
  qed
  have le: "length (fst (psplit p)) + length (snd (psplit p)) \<le> length p" for p
  proof -
    define i where "i = (case rfind (CHR ''/'') p of None \<Rightarrow> 0 | Some j \<Rightarrow> Suc j)"
    have a: "length (take i p) + length (drop i p) = length p"
      by simp
    have b: "length (rstrip_slash (take i p)) \<le> length (take i p)"
      by (rule rs)
    have c: "snd (psplit p) = drop i p"
      by (simp add: psplit_def Let_def i_def)
    have d: "length (fst (psplit p)) \<le> length (take i p)"
      using b by (simp add: psplit_def Let_def i_def del: length_take)
    from a c d show ?thesis
      by (simp add: min_def split: if_splits)
  qed
  have "length (split_head name) < length name"
  proof (cases "snd (psplit name) = []")
    case True
    with a have "snd (psplit (fst (psplit name))) \<noteq> []"
      by (simp add: split_tail_def)
    with le [of "fst (psplit name)"] le [of name] True show ?thesis
      by (auto simp: split_head_def neq_Nil_conv)
  next
    case False
    with le [of name] show ?thesis
      by (auto simp: split_head_def neq_Nil_conv)
  qed
  then show "((w, split_head name), (w, name)) \<in> measure (\<lambda>(w, name). length name)"
    by simp
qed

declare makedirs.simps [simp del]

text \<open>
  The built-in \<open>open(p, "wb")\<close> followed by writing \<open>data\<close>: the file is created or
  truncated.
\<close>

definition open_write :: "world \<Rightarrow> path \<Rightarrow> bytes \<Rightarrow> py_error option \<times> world" where
  "open_write w p data =
     (case create_at w p of
        Inl e \<Rightarrow> (Some e, w)
      | Inr (par, c) \<Rightarrow>
          if c = ''.'' \<or> c = ''..'' then (Some IsADirectoryError, w)
          else if is_dir w (child_of par c) then (Some IsADirectoryError, w)
          else (None, write_file w (child_of par c) data))"

text \<open>What \<open>p.exists()\<close> and \<open>open(p)\<close> find at an absolute, resolved path.\<close>

definition node_at :: "world \<Rightarrow> path \<Rightarrow> fsnode option" where
  "node_at w p =
     (case map_of (files w) p of
        Some b \<Rightarrow> Some (RegularFile b)
      | None \<Rightarrow> if is_dir w p then Some Directory else None)"

text \<open>\<open>shutil.rmtree\<close>: the directory and everything below it.\<close>

definition rmtree :: "world \<Rightarrow> path \<Rightarrow> world" where
  "rmtree w d =
     w\<lparr>dirs := filter (\<lambda>q. q \<noteq> d \<and> \<not> is_below d q) (dirs w),
       files := filter (\<lambda>(q, _). \<not> is_below d q) (files w)\<rparr>"

text \<open>\<open>Path.iterdir\<close>: one entry for each name directly below \<open>d\<close>.\<close>

definition iterdir :: "world \<Rightarrow> path \<Rightarrow> dirent list" where
  "iterdir w d =
     (let below = filter (is_below d) (map fst (files w) @ dirs w);
          names = remdups (map (\<lambda>q. takeWhile (\<lambda>c. c \<noteq> CHR ''/'') (drop (Suc (length d)) q)) below)
      in map (\<lambda>n. let p = d @ ''/'' @ n in
                   (case map_of (files w) p of
                      Some b \<Rightarrow> \<lparr>d_path = p, is_file = True, d_data = b\<rparr>
                    | None \<Rightarrow> \<lparr>d_path = p, is_file = False, d_data = []\<rparr>)) names)"

text \<open>What libmagic reports for a directory entry.\<close>

definition detect_mime :: "extern \<Rightarrow> dirent \<Rightarrow> string" where
  "detect_mime L x = (if is_file x then mime_type L (d_data x) else ''inode/directory'')"

section \<open>Entry-document resolver (report.py)\<close>

definition documentclass :: bytes where
  "documentclass = backslash # ''documentclass''"

text \<open>The test for the marker in the bytes read from an entry.\<close>

definition has_marker :: "dirent \<Rightarrow> bool" where
  "has_marker x = sublist documentclass (d_data x)"

text \<open>
  What \<open>get_maindoc\<close> does to the entries of the directory, in order: \<open>Sniffed x\<close> when
  libmagic is asked for the type of \<open>x\<close> (it opens \<open>x\<close> and looks at its first bytes), and
  \<open>Scanned x\<close> when \<open>x\<close> is opened, read to its end and searched for the marker.
\<close>

datatype io_event = Sniffed path | Scanned path

text \<open>The test of the filter, \<open>x.suffix == '.tex' or ...mime_type == 'text/x-tex'\<close>.\<close>

definition texlike :: "extern \<Rightarrow> dirent \<Rightarrow> bool" where
  "texlike L x = (suffix_of (d_path x) = ''.tex'' \<or> detect_mime L x = ''text/x-tex'')"

text \<open>
  \<open>list(filter(..., p.iterdir()))\<close>: the candidates and the events of the filter. Python's
  \<open>or\<close> asks libmagic only for an entry whose suffix is not \<open>.tex\<close>.
\<close>

fun filter_texfiles :: "extern \<Rightarrow> dirent list \<Rightarrow> dirent list \<times> io_event list" where
  "filter_texfiles L [] = ([], [])"
| "filter_texfiles L (x # xs) =
     (case filter_texfiles L xs of
        (keep, evs) \<Rightarrow>
          if suffix_of (d_path x) = ''.tex'' then (x # keep, evs)
          else if detect_mime L x = ''text/x-tex'' then (x # keep, Sniffed (d_path x) # evs)
          else (keep, Sniffed (d_path x) # evs))"

text \<open>
  The loop of \<open>get_maindoc\<close> over the candidates, with the events so far. Opening a
  directory raises before anything is read; falling out of the loop is \<open>assert False\<close>.
\<close>

fun scan_texfiles ::
  "dirent list \<Rightarrow> io_event list \<Rightarrow> (py_error + dirent) \<times> io_event list" where
  "scan_texfiles [] evs = (Inl AssertionError, evs)"
| "scan_texfiles (x # xs) evs =
     (if \<not> is_file x then (Inl IsADirectoryError, evs)
      else if has_marker x then (Inr x, evs @ [Scanned (d_path x)])
      else scan_texfiles xs (evs @ [Scanned (d_path x)]))"

text \<open>
  \<open>get_maindoc\<close> on the listing of the directory: the result and the events.
  \<open>texfiles[0]\<close> on the empty list is \<open>IndexError\<close>.
\<close>

definition get_maindoc :: "extern \<Rightarrow> dirent list \<Rightarrow> (py_error + dirent) \<times> io_event list" where
  "get_maindoc L p =
     (case filter_texfiles L p of
        (texfiles, sniffed) \<Rightarrow>
          if length texfiles < 2 then
            (case texfiles of [] \<Rightarrow> (Inl IndexError, sniffed) | x # _ \<Rightarrow> (Inr x, sniffed))
          else scan_texfiles texfiles sniffed)"

section \<open>Content-addressed capture store\<close>

subsection \<open>report\_ci.py\<close>

text \<open>
  \<open>capture_files(d, excluded, as_set)\<close> returns a set of digests or a dictionary, depending
  on \<open>as_set\<close>.
\<close>

datatype capture_result = Digests "string set" | Captured "string \<rightharpoonup> string"

fun the_digests :: "capture_result \<Rightarrow> string set" where
  "the_digests (Digests s) = s"
| "the_digests (Captured m) = {}"

fun the_captured :: "capture_result \<Rightarrow> (string \<rightharpoonup> string)" where
  "the_captured (Captured m) = m"
| "the_captured (Digests s) = Map.empty"

text \<open>\<open>shutil.copy(f, target)\<close> guarded by \<open>if not target.exists()\<close>.\<close>

definition copy_if_absent :: "(path \<rightharpoonup> bytes) \<Rightarrow> path \<Rightarrow> bytes \<Rightarrow> (path \<rightharpoonup> bytes)" where
  "copy_if_absent store target data = (if store target = None then store(target \<mapsto> data) else store)"

text \<open>
  \<open>sha256sum(f)[:16]\<close>, \<open>f.suffix or ".bin"\<close>, the path of the stored object, and the test
  \<open>excluded is not None and digest in excluded\<close>.
\<close>

definition digest16 :: "extern \<Rightarrow> dirent \<Rightarrow> string" where
  "digest16 L f = take 16 (sha256_hex L (d_data f))"

definition ext_ci :: "dirent \<Rightarrow> string" where
  "ext_ci f = (if suffix_of (d_path f) = [] then ''.bin'' else suffix_of (d_path f))"

definition target_ci :: "extern \<Rightarrow> dirent \<Rightarrow> path" where
  "target_ci L f = join ''objects'' (digest16 L f @ ext_ci f)"

definition is_excluded :: "string set option \<Rightarrow> string \<Rightarrow> bool" where
  "is_excluded excluded digest = (case excluded of None \<Rightarrow> False | Some ex \<Rightarrow> digest \<in> ex)"

text \<open>The entries capture mode stores: regular files whose digest is not excluded.\<close>

definition selected :: "extern \<Rightarrow> string set option \<Rightarrow> dirent \<Rightarrow> bool" where
  "selected L excluded f = (is_file f \<and> \<not> is_excluded excluded (digest16 L f))"

text \<open>
  The loop over \<open>d.iterdir()\<close>; the state is \<open>captured\<close>, \<open>_set\<close> and the object store.
\<close>

fun capture_loop ::
  "extern \<Rightarrow> string set option \<Rightarrow> bool \<Rightarrow> dirent list
     \<Rightarrow> (string \<rightharpoonup> string) \<times> string set \<times> (path \<rightharpoonup> bytes)
     \<Rightarrow> (string \<rightharpoonup> string) \<times> string set \<times> (path \<rightharpoonup> bytes)" where
  "capture_loop L excluded as_set [] st = st"
| "capture_loop L excluded as_set (f # fs) (captured, dset, store) =
     (if \<not> is_file f then capture_loop L excluded as_set fs (captured, dset, store)
      else if as_set
        then capture_loop L excluded as_set fs (captured, insert (digest16 L f) dset, store)
      else if is_excluded excluded (digest16 L f)
        then capture_loop L excluded as_set fs (captured, dset, store)
      else capture_loop L excluded as_set fs
             (captured(basename (d_path f) \<mapsto> digest16 L f @ ext_ci f), dset,
              copy_if_absent store (target_ci L f) (d_data f)))"

definition capture_files ::
  "extern \<Rightarrow> dirent list \<Rightarrow> string set option \<Rightarrow> bool \<Rightarrow> (path \<rightharpoonup> bytes)
     \<Rightarrow> capture_result \<times> (path \<rightharpoonup> bytes)" where
  "capture_files L d excluded as_set store =
     (case capture_loop L excluded as_set d (Map.empty, {}, store) of
        (captured, dset, store') \<Rightarrow>
          (if as_set then Digests dset else Captured captured, store'))"

subsection \<open>report.py\<close>

definition EXTS :: "(string \<times> string) list" where
  "EXTS = [(''application/pdf'', ''.pdf''), (''text/plain'', ''.txt'')]"

text \<open>\<open>_EXTS.get(mt, ".bin")\<close> on the sniffed type, and the path of the stored object.\<close>

definition ext_rp :: "extern \<Rightarrow> dirent \<Rightarrow> string" where
  "ext_rp L f = (case map_of EXTS (mime_type L (d_data f)) of None \<Rightarrow> ''.bin'' | Some e \<Rightarrow> e)"

definition target_rp :: "extern \<Rightarrow> dirent \<Rightarrow> path" where
  "target_rp L f = join ''objects'' (digest16 L f @ ext_rp L f)"

text \<open>The state is \<open>captured\<close>, the global \<open>_CAPTURE_EXCLUDE\<close> and the object store.\<close>

fun rp_capture_loop ::
  "extern \<Rightarrow> bool \<Rightarrow> dirent list
     \<Rightarrow> (string \<rightharpoonup> string) \<times> string set \<times> (path \<rightharpoonup> bytes)
     \<Rightarrow> (string \<rightharpoonup> string) \<times> string set \<times> (path \<rightharpoonup> bytes)" where
  "rp_capture_loop L exclude_all [] st = st"
| "rp_capture_loop L exclude_all (f # fs) (captured, excl, store) =
     (if \<not> is_file f then rp_capture_loop L exclude_all fs (captured, excl, store)
      else if exclude_all
        then rp_capture_loop L exclude_all fs (captured, insert (digest16 L f) excl, store)
      else if digest16 L f \<in> excl
        then rp_capture_loop L exclude_all fs (captured, excl, store)
      else rp_capture_loop L exclude_all fs
             (captured(basename (d_path f) \<mapsto> digest16 L f @ ext_rp L f), excl,
              copy_if_absent store (target_rp L f) (d_data f)))"

definition rp_capture_files ::
  "extern \<Rightarrow> path \<Rightarrow> bool \<Rightarrow> world \<Rightarrow> (string \<rightharpoonup> string) \<times> world" where
  "rp_capture_files L d exclude_all w =
     (case rp_capture_loop L exclude_all (iterdir w d)
             (Map.empty, capture_exclude w, objects w) of
        (captured, excl, store') \<Rightarrow>
          (captured, w\<lparr>objects := store', capture_exclude := excl\<rparr>))"

section \<open>Sandbox extractor\<close>

text \<open>
  \<open>is_within_directory\<close> and \<open>safe_extract\<close>, as nested in \<open>TestEnv.__init__\<close> of
  report\_ci.py and prepare\_dataset.py. The exception raised is Python's plain \<open>Exception\<close>
  with the message "Attempted Path Traversal in Tar File", here \<open>PathTraversal\<close>.
\<close>

definition is_within_directory :: "path \<Rightarrow> path \<Rightarrow> path \<Rightarrow> bool" where
  "is_within_directory wd directory target =
     (let abs_directory = abspath wd directory;
          abs_target = abspath wd target;
          pre = commonprefix abs_directory abs_target
      in pre = abs_directory)"

fun check_members :: "path \<Rightarrow> path \<Rightarrow> tarinfo list \<Rightarrow> py_error option" where
  "check_members wd p [] = None"
| "check_members wd p (member # ms) =
     (let member_path = join p (t_name member) in
      if \<not> is_within_directory wd p member_path then Some PathTraversal
      else check_members wd p ms)"

text \<open>
  \<open>TarFile._extract_member\<close> for a regular file (the members modelled are regular files):
  the target is \<open>os.path.join(path, name)\<close> without trailing slashes, its upper directories
  are made with \<open>os.makedirs\<close> when \<open>os.path.exists\<close> does not find them, and the file is
  opened for writing, wherever that path leads.
\<close>

definition extract_member :: "world \<Rightarrow> path \<Rightarrow> tarinfo \<Rightarrow> py_error option \<times> world" where
  "extract_member w p member =
     (let targetpath = rstrip_slash (join p (t_name member));
          upperdirs = dirname targetpath
      in if upperdirs \<noteq> [] \<and> \<not> path_exists w upperdirs then
           (case makedirs w upperdirs of
              (Some e, w1) \<Rightarrow> (Some e, w1)
            | (None, w1) \<Rightarrow> open_write w1 targetpath (t_data member))
         else open_write w targetpath (t_data member))"

text \<open>
  \<open>TarFile.extractall\<close> without an extraction filter, with the default \<open>errorlevel\<close>: the
  members in the order of the archive, up to the first one that raises; what was written
  before stays.
\<close>

fun extractall :: "world \<Rightarrow> path \<Rightarrow> tarinfo list \<Rightarrow> py_error option \<times> world" where
  "extractall w p [] = (None, w)"
| "extractall w p (member # ms) =
     (case extract_member w p member of
        (Some e, w1) \<Rightarrow> (Some e, w1)
      | (None, w1) \<Rightarrow> extractall w1 p ms)"

text \<open>
  Where a member lands when its extraction succeeds: the path its components lead to when
  every directory on the way exists (\<open>walk\<close> without the lookups).
\<close>

fun resolved :: "path \<Rightarrow> string list \<Rightarrow> path" where
  "resolved cur [] = cur"
| "resolved cur (c # cs) =
     (if c = [] \<or> c = ''.'' then resolved cur cs
      else if c = ''..'' then resolved (parent_dir cur) cs
      else resolved (child_of cur c) cs)"

definition member_target :: "path \<Rightarrow> path \<Rightarrow> tarinfo \<Rightarrow> path" where
  "member_target wd p member =
     (let comps = components wd (rstrip_slash (join p (t_name member)))
      in child_of (resolved ''/'' (butlast comps)) (last comps))"

definition safe_extract :: "world \<Rightarrow> path \<Rightarrow> tarinfo list \<Rightarrow> py_error option \<times> world" where
  "safe_extract w p members =
     (case check_members (cwd w) p members of
        Some e \<Rightarrow> (Some e, w)
      | None \<Rightarrow> extractall w p members)"

text \<open>
  \<open>TestEnv.__init__\<close> of report\_ci.py. The result is the error raised or the workspace
  \<open>self.tmpdir\<close>, with the world as the constructor leaves it. The data file
  \<open>tmpdir / stem\<close> is opened in the directory that was just made, which fails only when
  the stem is \<open>.\<close> or \<open>..\<close> (the stems of the names \<open>..gz\<close> and \<open>...gz\<close>): the path
  then names a directory. When gzip fails, the data file has already been opened for writing
  and holds what was decompressed before the failure; when the extraction fails, the members
  written before the failure stay.
\<close>

definition TestEnv_init :: "extern \<Rightarrow> sample \<Rightarrow> bool \<Rightarrow> world \<Rightarrow> (py_error + path) \<times> world" where
  "TestEnv_init L smp is_tar w =
     (case mkdtemp L w of (tmpdir, w1) \<Rightarrow>
        let submission_data_path = join tmpdir (stem (s_path smp)) in
        if stem (s_path smp) = ''.'' \<or> stem (s_path smp) = ''..'' then (Inl IsADirectoryError, w1)
        else
          (case gunzip L (s_bytes smp) of
             Inl (e, part) \<Rightarrow> (Inl e, write_file w1 submission_data_path part)
           | Inr data \<Rightarrow>
               let w2 = write_file w1 submission_data_path data in
               if is_tar then
                 (case tar_members L data of
                    None \<Rightarrow> (Inl ReadError, w2)
                  | Some members \<Rightarrow>
                      (case safe_extract w2 tmpdir members of
                         (Some e, w3) \<Rightarrow> (Inl e, w3)
                       | (None, w3) \<Rightarrow> (Inr tmpdir, unlink w3 submission_data_path)))
               else (Inr tmpdir, w2)))"

text \<open>\<open>TestEnv.__init__\<close> of report.py: the archive is extracted with no check.\<close>

definition rp_TestEnv_init :: "extern \<Rightarrow> sample \<Rightarrow> world \<Rightarrow> (py_error + path) \<times> world" where
  "rp_TestEnv_init L smp w =
     (case mkdtemp L w of (tmpdir, w1) \<Rightarrow>
        if mime_type L (s_bytes smp) \<noteq> ''application/x-gzip'' then (Inl AssertionError, w1)
        else
          let submission_data_path = join tmpdir (stem (s_path smp)) in
          if stem (s_path smp) = ''.'' \<or> stem (s_path smp) = ''..'' then (Inl IsADirectoryError, w1)
          else
          (case gunzip L (s_bytes smp) of
             Inl (e, part) \<Rightarrow> (Inl e, write_file w1 submission_data_path part)
           | Inr data \<Rightarrow>
               let w2 = write_file w1 submission_data_path data in
               if mime_type L data = ''application/x-tar'' then
                 (case tar_members L data of
                    None \<Rightarrow> (Inl ReadError, w2)
                  | Some members \<Rightarrow>
                      (case extractall w2 tmpdir members of
                         (Some e, w3) \<Rightarrow> (Inl e, w3)
                       | (None, w3) \<Rightarrow> (Inr tmpdir, unlink w3 submission_data_path)))
               else (Inr tmpdir, w2)))"

text \<open>\<open>TestEnv.__init__\<close> of prepare\_dataset.py.\<close>

definition pd_TestEnv_init :: "extern \<Rightarrow> sample \<Rightarrow> world \<Rightarrow> (py_error + path) \<times> world" where
  "pd_TestEnv_init L smp w =
     (case mkdtemp L w of (tmpdir, w1) \<Rightarrow>
        if mime_type L (s_bytes smp) \<noteq> ''application/gzip'' then (Inl AssertionError, w1)
        else
          let submission_data_path = join tmpdir (stem (s_path smp)) in
          if stem (s_path smp) = ''.'' \<or> stem (s_path smp) = ''..'' then (Inl IsADirectoryError, w1)
          else
          (case gunzip L (s_bytes smp) of
             Inl (e, part) \<Rightarrow> (Inl e, write_file w1 submission_data_path part)
           | Inr data \<Rightarrow>
               let w2 = write_file w1 submission_data_path data in
               if mime_type L data = ''application/x-tar'' then
                 (case tar_members L data of
                    None \<Rightarrow> (Inl ReadError, w2)
                  | Some members \<Rightarrow>
                      (case safe_extract w2 tmpdir members of
                         (Some e, w3) \<Rightarrow> (Inl e, w3)
                       | (None, w3) \<Rightarrow> (Inr tmpdir, unlink w3 submission_data_path)))
               else (Inr tmpdir, w2)))"

text \<open>
  \<open>with TestEnv(...) as d: body\<close>. The constructor runs before the context is entered: when
  it raises, \<open>__exit__\<close> is not called. Once entered, \<open>__exit__\<close> removes the workspace
  whether the body returns or raises.
\<close>

definition with_TestEnv ::
  "(py_error + path) \<times> world \<Rightarrow> (path \<Rightarrow> world \<Rightarrow> (py_error + 'a) \<times> world)
     \<Rightarrow> (py_error + 'a) \<times> world" where
  "with_TestEnv init body =
     (case init of
        (Inl e, w) \<Rightarrow> (Inl e, w)
      | (Inr d, w) \<Rightarrow> (case body d w of (r, w') \<Rightarrow> (r, rmtree w' d)))"

section \<open>Evaluation pipeline (report\_ci.py)\<close>

definition BUNDLE_URL :: string where
  "BUNDLE_URL = ''https://data1.fullyjustified.net/tlextras-2021.3r1.tar''"

definition ARGUMENTS :: "string list" where
  "ARGUMENTS = [''-w'', BUNDLE_URL, ''--keep-logs'', ''--keep-intermediates'']"

text \<open>The dictionary \<open>do_work\<close> returns; the elapsed wall time is left out.\<close>

record report_record =
  r_sample :: string
  r_statuscode :: int
  r_results :: "string \<rightharpoonup> string"

text \<open>
  The \<open>try\<close> block around \<open>subprocess.run\<close>: only \<open>TimeoutExpired\<close> is caught; a binary that
  cannot be started raises.
\<close>

fun statuscode_of :: "proc_result \<Rightarrow> py_error + int" where
  "statuscode_of (Returncode c) = Inr c"
| "statuscode_of TimedOut = Inr (- 99999)"
| "statuscode_of NotLaunched = Inl OSError"

text \<open>The body of the \<open>with\<close> block of \<open>do_work\<close>, in the workspace \<open>d\<close>.\<close>

definition compile_in ::
  "extern \<Rightarrow> sample \<Rightarrow> string \<Rightarrow> path \<Rightarrow> path \<Rightarrow> world
     \<Rightarrow> (py_error + report_record) \<times> world" where
  "compile_in L smp maindoc tectonic d w1 =
     (case capture_files L (iterdir w1 d) None True (objects w1) of
        (excluded, store1) \<Rightarrow>
          (case run_proc L ([tectonic] @ ARGUMENTS @ [join d maindoc]) d 600
                  (w1\<lparr>objects := store1\<rparr>) of
             (test, w2) \<Rightarrow>
               (case statuscode_of test of
                  Inl e \<Rightarrow> (Inl e, w2)
                | Inr statuscode \<Rightarrow>
                    (case capture_files L (iterdir w2 d) (Some (the_digests excluded)) False
                            (objects w2) of
                       (results, store2) \<Rightarrow>
                         (Inr \<lparr>r_sample = stem (s_path smp), r_statuscode = statuscode,
                               r_results = the_captured results\<rparr>,
                          w2\<lparr>objects := store2\<rparr>)))))"

definition do_work ::
  "extern \<Rightarrow> sample \<Rightarrow> string \<Rightarrow> path \<Rightarrow> world \<Rightarrow> (py_error + report_record) \<times> world" where
  "do_work L smp maindoc tectonic w =
     with_TestEnv (TestEnv_init L smp (maindoc \<noteq> stem (s_path smp)) w)
       (compile_in L smp maindoc tectonic)"

text \<open>
  The report log, one value per line: the run's metadata (taken from git, here a parameter)
  or the record of a sample.
\<close>

record run_meta =
  m_name :: string
  m_branch :: string
  m_commit :: string
  m_timestamp :: string
  m_dataset :: string

datatype 'r line = MetaLine run_meta | RecordLine 'r

text \<open>
  The threads of \<open>report\<close> as a transition system. A worker is waiting in \<open>work.get()\<close>,
  holds an item, holds a finished report it has yet to write, has left its loop, or has died
  from an exception. The main thread visits the samples still \<open>pending\<close> in its loop over the
  corpus, then waits in \<open>work.join()\<close> until no task is \<open>unfinished\<close>, then puts one \<open>None\<close>
  per worker.
\<close>

datatype wstate = Idle | Working sample | Writing report_record | Stopped | Crashed py_error

record pipeline =
  reportlog :: "report_record line list"
  pending :: "sample list"
  work :: "sample option list"
  unfinished :: nat
  sentinels :: nat
  workers :: "wstate list"
  pworld :: world

definition num_worker_threads :: nat where
  "num_worker_threads = 5"

text \<open>
  The state when the worker threads have been started: the log was opened with mode \<open>"w"\<close>
  and the metadata line written and flushed.
\<close>

definition ci_init :: "run_meta \<Rightarrow> sample list \<Rightarrow> world \<Rightarrow> pipeline" where
  "ci_init meta corpus w =
     \<lparr>reportlog = [] @ [MetaLine meta], pending = corpus, work = [], unfinished = 0,
      sentinels = num_worker_threads, workers = replicate num_worker_threads Idle,
      pworld = w\<rparr>"

datatype action = MainThread | Worker nat

text \<open>One step of the main thread; \<open>None\<close> when it is blocked or has finished.\<close>

definition main_step :: "(string \<rightharpoonup> string) \<Rightarrow> pipeline \<Rightarrow> pipeline option" where
  "main_step sample_maindoc st =
     (case pending st of
        smp # rest \<Rightarrow>
          if sample_maindoc (stem (s_path smp)) = None then Some (st\<lparr>pending := rest\<rparr>)
          else Some (st\<lparr>pending := rest, work := work st @ [Some smp],
                         unfinished := Suc (unfinished st)\<rparr>)
      | [] \<Rightarrow>
          if unfinished st = 0 \<and> 0 < sentinels st
            then Some (st\<lparr>work := work st @ [None], sentinels := sentinels st - 1\<rparr>)
          else None)"

text \<open>
  One step of worker \<open>i\<close>: take an item, run \<open>do_work\<close> on it and mark the task done, or
  write the report under \<open>outlock\<close>. \<open>None\<close> when the worker is blocked or no longer runs.
\<close>

definition worker_step ::
  "extern \<Rightarrow> (string \<rightharpoonup> string) \<Rightarrow> path \<Rightarrow> nat \<Rightarrow> pipeline \<Rightarrow> pipeline option" where
  "worker_step L sample_maindoc tectonic i st =
     (if length (workers st) \<le> i then None
      else
        (case workers st ! i of
           Idle \<Rightarrow>
             (case work st of
                [] \<Rightarrow> None
              | None # q \<Rightarrow> Some (st\<lparr>work := q, workers := (workers st)[i := Stopped]\<rparr>)
              | Some item # q \<Rightarrow> Some (st\<lparr>work := q, workers := (workers st)[i := Working item]\<rparr>))
         | Working item \<Rightarrow>
             (case sample_maindoc (stem (s_path item)) of
                None \<Rightarrow> Some (st\<lparr>workers := (workers st)[i := Crashed KeyError]\<rparr>)
              | Some maindoc \<Rightarrow>
                  (case do_work L item maindoc tectonic (pworld st) of
                     (Inl e, w') \<Rightarrow>
                       Some (st\<lparr>workers := (workers st)[i := Crashed e], pworld := w'\<rparr>)
                   | (Inr report, w') \<Rightarrow>
                       Some (st\<lparr>workers := (workers st)[i := Writing report],
                                 unfinished := unfinished st - 1, pworld := w'\<rparr>)))
         | Writing report \<Rightarrow>
             Some (st\<lparr>reportlog := reportlog st @ [RecordLine report],
                       workers := (workers st)[i := Idle]\<rparr>)
         | Stopped \<Rightarrow> None
         | Crashed e \<Rightarrow> None))"

definition ci_step ::
  "extern \<Rightarrow> (string \<rightharpoonup> string) \<Rightarrow> path \<Rightarrow> action \<Rightarrow> pipeline \<Rightarrow> pipeline option" where
  "ci_step L sample_maindoc tectonic a st =
     (case a of
        MainThread \<Rightarrow> main_step sample_maindoc st
      | Worker i \<Rightarrow> worker_step L sample_maindoc tectonic i st)"

text \<open>A schedule is the order in which the threads take their steps.\<close>

fun ci_run ::
  "extern \<Rightarrow> (string \<rightharpoonup> string) \<Rightarrow> path \<Rightarrow> action list \<Rightarrow> pipeline \<Rightarrow> pipeline option" where
  "ci_run L sample_maindoc tectonic [] st = Some st"
| "ci_run L sample_maindoc tectonic (a # as) st =
     (case ci_step L sample_maindoc tectonic a st of
        None \<Rightarrow> None
      | Some st' \<Rightarrow> ci_run L sample_maindoc tectonic as st')"

section \<open>The sequential report (report.py)\<close>

text \<open>Statements that may raise, run one after the other.\<close>

type_synonym 'a io = "world \<Rightarrow> (py_error + 'a) \<times> world"

definition returnE :: "'a \<Rightarrow> 'a io" where
  "returnE a w = (Inr a, w)"

definition bindE :: "'a io \<Rightarrow> ('a \<Rightarrow> 'b io) \<Rightarrow> 'b io" where
  "bindE m f w = (case m w of (Inl e, w') \<Rightarrow> (Inl e, w') | (Inr a, w') \<Rightarrow> f a w')"

text \<open>\<open>subprocess.run\<close> outside any \<open>try\<close>: the timeout is raised to the caller.\<close>

definition run_checked :: "extern \<Rightarrow> string list \<Rightarrow> path \<Rightarrow> nat \<Rightarrow> int io" where
  "run_checked L argv d timeout w =
     (case run_proc L argv d timeout w of
        (Returncode c, w') \<Rightarrow> (Inr c, w')
      | (TimedOut, w') \<Rightarrow> (Inl TimeoutExpired, w')
      | (NotLaunched, w') \<Rightarrow> (Inl OSError, w'))"

definition maindoc_in :: "extern \<Rightarrow> path \<Rightarrow> dirent io" where
  "maindoc_in L d w = (fst (get_maindoc L (iterdir w d)), w)"

definition capture_in :: "extern \<Rightarrow> path \<Rightarrow> bool \<Rightarrow> (string \<rightharpoonup> string) io" where
  "capture_in L d exclude_all w =
     (case rp_capture_files L d exclude_all w of (captured, w') \<Rightarrow> (Inr captured, w'))"

definition tags_in :: "extern \<Rightarrow> path \<Rightarrow> string list io" where
  "tags_in L logfile w = (get_tags (decode L) (node_at w) logfile, w)"

record engine_result =
  e_statuscode :: int
  e_results :: "(string \<rightharpoonup> string) option"
  e_tags :: "string list option"

record rp_record =
  rp_sample :: string
  rp_xelatex :: engine_result
  rp_tectonic :: engine_result

definition xelatex_argv :: "string \<Rightarrow> string list" where
  "xelatex_argv maindoc = [''xelatex'', ''-interaction=batchmode'', ''-no-shell-escape'', maindoc]"

text \<open>The body of the first \<open>with\<close> block of the loop.\<close>

definition xelatex_body :: "extern \<Rightarrow> path \<Rightarrow> engine_result io" where
  "xelatex_body L d =
     bindE (capture_in L d True) (\<lambda>_.
     bindE (maindoc_in L d) (\<lambda>x.
       let maindoc = basename (d_path x) in
       bindE (run_checked L (xelatex_argv maindoc) d 30) (\<lambda>_.
       bindE (run_checked L (xelatex_argv maindoc) d 30) (\<lambda>returncode.
         returnE \<lparr>e_statuscode = returncode, e_results = None, e_tags = None\<rparr>))))"

text \<open>The body of the second \<open>with\<close> block.\<close>

definition tectonic_body :: "extern \<Rightarrow> path \<Rightarrow> path \<Rightarrow> engine_result io" where
  "tectonic_body L repo d =
     bindE (capture_in L d True) (\<lambda>_.
       let tectonic = join (join (join repo ''target'') ''release'') ''tectonic'' in
       bindE (maindoc_in L d) (\<lambda>m1.
       bindE (run_checked L
                [tectonic, ''--print'',
                 ''-w=https://tectonic.newton.cx/bundles/tlextras-2018.1r0/bundle.tar'',
                 d_path m1] d (60 * 5)) (\<lambda>_.
       bindE (maindoc_in L d) (\<lambda>m2.
       bindE (run_checked L [tectonic, ''--outfmt=xdv'', d_path m2] d 60) (\<lambda>_.
       bindE (maindoc_in L d) (\<lambda>m3.
       bindE (run_checked L [tectonic, ''--keep-logs'', d_path m3] d 30) (\<lambda>returncode.
       bindE (maindoc_in L d) (\<lambda>m4.
         let logfile = with_suffix (d_path m4) ''.log'' in
         bindE (tags_in L logfile) (\<lambda>tags.
         bindE (capture_in L d False) (\<lambda>results.
           returnE \<lparr>e_statuscode = returncode, e_results = Some results,
                    e_tags = Some tags\<rparr>))))))))))"

text \<open>One sample that is not skipped: both blocks, then the record.\<close>

definition rp_evaluate :: "extern \<Rightarrow> path \<Rightarrow> sample \<Rightarrow> rp_record io" where
  "rp_evaluate L repo smp =
     bindE (\<lambda>w. with_TestEnv (rp_TestEnv_init L smp w) (xelatex_body L)) (\<lambda>x.
     bindE (\<lambda>w. with_TestEnv (rp_TestEnv_init L smp w) (tectonic_body L repo)) (\<lambda>t.
       returnE \<lparr>rp_sample = stem (s_path smp), rp_xelatex = x, rp_tectonic = t\<rparr>))"

text \<open>
  The loop over the corpus: the error that ended it (if any), the lines of the log, and the
  world.
\<close>

fun rp_loop ::
  "extern \<Rightarrow> path \<Rightarrow> sample list \<Rightarrow> rp_record line list \<Rightarrow> world
     \<Rightarrow> py_error option \<times> rp_record line list \<times> world" where
  "rp_loop L repo [] rlog w = (None, rlog, w)"
| "rp_loop L repo (smp # rest) rlog w =
     (if st_size smp < 100 then rp_loop L repo rest rlog w
      else
        (case rp_evaluate L repo smp w of
           (Inl e, w') \<Rightarrow> (Some e, rlog, w')
         | (Inr report, w') \<Rightarrow> rp_loop L repo rest (rlog @ [RecordLine report]) w'))"

text \<open>
  \<open>report\<close>: \<open>old_log\<close> is the file at the report path before the run (\<open>None\<close> when there is
  none), \<open>overwrite\<close> the user's answer to the prompt. The result carries the file after the
  run. The build of the compiler between the metadata line and the loop is left out.
\<close>

definition rp_report ::
  "extern \<Rightarrow> sample list \<Rightarrow> path \<Rightarrow> run_meta \<Rightarrow> rp_record line list option \<Rightarrow> bool \<Rightarrow> world
     \<Rightarrow> py_error option \<times> rp_record line list option \<times> world" where
  "rp_report L corpus repo meta old_log overwrite w =
     (if old_log \<noteq> None \<and> \<not> overwrite then (None, old_log, w)
      else
        (case rp_loop L repo corpus ([] @ [MetaLine meta]) w of
           (e, rlog, w') \<Rightarrow> (e, Some rlog, w')))"

section \<open>The preparation pass (prepare\_dataset.py)\<close>

text \<open>
  \<open>heuristics.get_maindoc\<close> and \<open>heuristics.EXCLUDED_SAMPLES\<close> are imported from a module
  that is not part of the sources at hand; they are parameters here (\<open>heur\<close>, \<open>excluded\<close>).
\<close>

definition prepare ::
  "extern \<Rightarrow> string set \<Rightarrow> (world \<Rightarrow> path \<Rightarrow> sample \<Rightarrow> py_error + path option) \<Rightarrow> sample
     \<Rightarrow> string option io" where
  "prepare L excluded heur smp w =
     (if st_size smp < 100 then (Inr None, w)
      else if stem (s_path smp) \<in> excluded then (Inr None, w)
      else
        with_TestEnv (pd_TestEnv_init L smp w)
          (\<lambda>d w1.
             case heur w1 d smp of
               Inl e \<Rightarrow> (Inl e, w1)
             | Inr None \<Rightarrow> (Inr None, w1)
             | Inr (Some maindoc) \<Rightarrow> (Inr (Some (basename maindoc)), w1)))"

text \<open>The loop of \<open>prepare_dataset\<close>; \<open>if res\<close> holds for a string that is not empty.\<close>

fun pd_loop ::
  "extern \<Rightarrow> string set \<Rightarrow> (world \<Rightarrow> path \<Rightarrow> sample \<Rightarrow> py_error + path option) \<Rightarrow> sample list
     \<Rightarrow> (string \<rightharpoonup> string) \<Rightarrow> (string \<rightharpoonup> string) io" where
  "pd_loop L excluded heur [] output w = (Inr output, w)"
| "pd_loop L excluded heur (smp # rest) output w =
     (case prepare L excluded heur smp w of
        (Inl e, w') \<Rightarrow> (Inl e, w')
      | (Inr res, w') \<Rightarrow>
          (case res of
             None \<Rightarrow> pd_loop L excluded heur rest output w'
           | Some r \<Rightarrow>
               if r = [] then pd_loop L excluded heur rest output w'
               else pd_loop L excluded heur rest (output(stem (s_path smp) \<mapsto> r)) w'))"

definition prepare_dataset ::
  "extern \<Rightarrow> string set \<Rightarrow> (world \<Rightarrow> path \<Rightarrow> sample \<Rightarrow> py_error + path option) \<Rightarrow> sample list
     \<Rightarrow> (string \<rightharpoonup> string) io" where
  "prepare_dataset L excluded heur corpus w = pd_loop L excluded heur corpus Map.empty w"

section \<open>The classifier as the specification words it\<close>

text \<open>
  The matched tags, the implication between tags, and the classification, stated as sets
  over the signature table.
\<close>

definition spec_matched :: "(string \<times> string) list \<Rightarrow> string \<Rightarrow> string set" where
  "spec_matched tags data = {k. \<exists>v. (k, v) \<in> set tags \<and> sublist v data}"

definition spec_implies :: "(string \<times> string) list \<Rightarrow> string \<Rightarrow> string \<Rightarrow> bool" where
  "spec_implies tags x y =
     (\<exists>vx vy. (x, vx) \<in> set tags \<and> (y, vy) \<in> set tags \<and> sublist vy vx \<and> x \<noteq> y)"

definition spec_classify :: "(string \<times> string) list \<Rightarrow> string \<Rightarrow> string set" where
  "spec_classify tags data =
     spec_matched tags data - {y. \<exists>x \<in> spec_matched tags data. spec_implies tags x y}"

section \<open>A small instance of the external libraries\<close>

text \<open>
  A stand-in for libmagic, gzip, tarfile, hashlib, tempfile and the compiler, on which the
  model can be evaluated. A gzip stream is \<open>GZ\<close> followed by its payload; two payloads are
  tar archives, listed with their members; the digest of a file is its bytes padded to 64
  characters; the n-th temporary directory is \<open>/tmp/tmp\<close>, n times \<open>x\<close>, \<open>ttrac\<close>. The
  compiler reads the file named by its last argument: it runs out of time when the file
  contains \<open>forever\<close>, and otherwise writes a PDF next to it and exits with 0.
\<close>

definition toy_mime :: "bytes \<Rightarrow> string" where
  "toy_mime b =
     (if take 2 b = ''GZ'' then ''application/gzip''
      else if take 3 b = ''TAR'' then ''application/x-tar''
      else if take 4 b = ''%PDF'' then ''application/pdf''
      else ''text/plain'')"

definition toy_gunzip :: "bytes \<Rightarrow> (py_error \<times> bytes) + bytes" where
  "toy_gunzip b =
     (if take 2 b = ''GZ'' then Inr (drop 2 b)
      else if take 2 b = ''gz'' then Inl (EOFError, drop 2 b)
      else Inl (BadGzipFile, []))"

definition toy_decode :: "bytes \<Rightarrow> string option" where
  "toy_decode b = (if list_ex (\<lambda>c. CHR 0x80 \<le> c) b then None else Some b)"

definition toy_tar :: "bytes \<Rightarrow> tarinfo list option" where
  "toy_tar b =
     map_of
       [(''TAR-paper'',
           [\<lparr>t_name = ''main.tex'', t_data = backslash # ''documentclass{article}''\<rparr>,
            \<lparr>t_name = ''fig/plot.eps'', t_data = ''%!PS''\<rparr>]),
        (''TAR-sibling'', [\<lparr>t_name = ''../tmpttrac2/evil'', t_data = ''pwned''\<rparr>]),
        (''TAR-dotdot'', [\<lparr>t_name = ''../evil'', t_data = ''pwned''\<rparr>]),
        (''TAR-updir'',
           [\<lparr>t_name = ''main.tex'', t_data = backslash # ''documentclass{article}''\<rparr>,
            \<lparr>t_name = ''a/../b.tex'', t_data = ''Appendix''\<rparr>])] b"

definition toy_sha :: "bytes \<Rightarrow> string" where
  "toy_sha b = take 64 (b @ replicate 64 (CHR ''0''))"

definition toy_tmpname :: "nat \<Rightarrow> path" where
  "toy_tmpname n = ''/tmp/tmp'' @ replicate n (CHR ''x'') @ ''ttrac''"

definition toy_run :: "string list \<Rightarrow> path \<Rightarrow> nat \<Rightarrow> world \<Rightarrow> proc_result \<times> world" where
  "toy_run argv d timeout w =
     (if argv = [] then (NotLaunched, w)
      else
        let doc = join d (last argv) in
        (case map_of (files w) doc of
           None \<Rightarrow> (Returncode 1, w)
         | Some src \<Rightarrow>
             if sublist ''forever'' src then (TimedOut, w)
             else (Returncode 0, write_file w (with_suffix doc ''.pdf'') (''%PDF'' @ src))))"

definition toy :: extern where
  "toy = \<lparr>mime_type = toy_mime, gunzip = toy_gunzip, tar_members = toy_tar,
          sha256_hex = toy_sha, tmpname = toy_tmpname, run_proc = toy_run,
          decode = toy_decode\<rparr>"

text \<open>The same with the MIME name for gzip that report.py expects.\<close>

definition toy_rp :: extern where
  "toy_rp = toy\<lparr>mime_type :=
               (\<lambda>b. if toy_mime b = ''application/gzip'' then ''application/x-gzip''
                    else toy_mime b)\<rparr>"

definition empty_world :: world where
  "empty_world = \<lparr>dirs = [], files = [], objects = Map.empty, cwd = ''/home/ci'',
                  tmp_counter = 0, capture_exclude = {}\<rparr>"

section \<open>Sample inputs\<close>

text \<open>Two TeX files that both hold the marker.\<close>

definition doc_a :: dirent where
  "doc_a = \<lparr>d_path = ''/tmp/tmpttrac/a.tex'', is_file = True,
             d_data = backslash # ''documentclass{article}''\<rparr>"

definition doc_b :: dirent where
  "doc_b = \<lparr>d_path = ''/tmp/tmpttrac/b.tex'', is_file = True,
             d_data = backslash # ''documentclass{book}''\<rparr>"

text \<open>A listing with a text file, a TeX file without the marker, and a TeX file with it.\<close>

definition main_tex :: dirent where
  "main_tex = \<lparr>d_path = ''/tmp/tmpttrac/main.tex'', is_file = True,
                d_data = backslash # ''documentclass{article}''\<rparr>"

definition paper_dir :: "dirent list" where
  "paper_dir =
     [\<lparr>d_path = ''/tmp/tmpttrac/notes.txt'', is_file = True, d_data = ''todo''\<rparr>,
      \<lparr>d_path = ''/tmp/tmpttrac/intro.tex'', is_file = True, d_data = ''Introduction''\<rparr>,
      main_tex]"

text \<open>A listing with a text file and one TeX file.\<close>

definition lone_dir :: "dirent list" where
  "lone_dir =
     [\<lparr>d_path = ''/tmp/tmpttrac/notes.txt'', is_file = True, d_data = ''todo''\<rparr>, main_tex]"

text \<open>Two files of one workspace with the same bytes and different suffixes.\<close>

definition out_pdf :: dirent where
  "out_pdf = \<lparr>d_path = ''/tmp/tmpttrac/out.pdf'', is_file = True, d_data = ''%PDF-1.5''\<rparr>"

definition out_bak :: dirent where
  "out_bak = \<lparr>d_path = ''/tmp/tmpttrac/out.bak'', is_file = True, d_data = ''%PDF-1.5''\<rparr>"

text \<open>A file of another workspace with the same bytes and the suffix of \<open>out_pdf\<close>.\<close>

definition copy_pdf :: dirent where
  "copy_pdf = \<lparr>d_path = ''/tmp/tmpxttrac/copy.pdf'', is_file = True, d_data = ''%PDF-1.5''\<rparr>"

text \<open>
  Archives whose single member is named to leave the workspace: by way of a sibling
  directory whose name starts with the name of the workspace, and by way of its parent.
\<close>

definition sibling_archive :: sample where
  "sibling_archive = \<lparr>s_path = ''/corpus/0704.0001.gz'', s_bytes = ''GZTAR-sibling''\<rparr>"

definition dotdot_archive :: sample where
  "dotdot_archive = \<lparr>s_path = ''/corpus/0704.0002.gz'', s_bytes = ''GZTAR-dotdot''\<rparr>"

text \<open>
  An archive whose second member goes through a directory that does not exist yet and back
  out of it, a sample whose stem is \<open>.\<close>, and a sample whose gzip stream is cut short.
\<close>

definition updir_archive :: sample where
  "updir_archive = \<lparr>s_path = ''/corpus/0704.0008.gz'', s_bytes = ''GZTAR-updir''\<rparr>"

definition dot_sample :: sample where
  "dot_sample = \<lparr>s_path = ''/corpus/..gz'', s_bytes = ''GZHello, world''\<rparr>"

definition truncated_sample :: sample where
  "truncated_sample = \<lparr>s_path = ''/corpus/0704.0009.gz'', s_bytes = ''gzHello, wo''\<rparr>"

text \<open>A flat submission, one whose compilation does not end, and a tar submission.\<close>

definition flat_sample :: sample where
  "flat_sample = \<lparr>s_path = ''/corpus/0704.0003.gz'', s_bytes = ''GZHello, world''\<rparr>"

definition slow_sample :: sample where
  "slow_sample = \<lparr>s_path = ''/corpus/0704.0004.gz'', s_bytes = ''GZloop forever''\<rparr>"

definition paper_sample :: sample where
  "paper_sample = \<lparr>s_path = ''/corpus/0704.0005.gz'', s_bytes = ''GZTAR-paper''\<rparr>"

text \<open>A sample that is not a gzip stream.\<close>

definition broken_sample :: sample where
  "broken_sample = \<lparr>s_path = ''/corpus/0704.0006.gz'', s_bytes = ''not gzip''\<rparr>"

text \<open>
  A run's metadata, an entry-document map, and a pipeline state in which the first worker
  holds the sample whose compilation does not end.
\<close>

definition demo_meta :: run_meta where
  "demo_meta = \<lparr>m_name = ''ci'', m_branch = ''master'', m_commit = ''0123abcd'',
                 m_timestamp = ''2021-03-01 12:00:00 +0000'', m_dataset = ''corpus''\<rparr>"

definition demo_maindoc :: "string \<rightharpoonup> string" where
  "demo_maindoc = [''0704.0003'' \<mapsto> ''0704.0003'', ''0704.0004'' \<mapsto> ''0704.0004'',
                   ''0704.0005'' \<mapsto> ''main.tex'']"

definition busy_state :: pipeline where
  "busy_state =
     \<lparr>reportlog = [MetaLine demo_meta], pending = [], work = [], unfinished = 1,
      sentinels = 5, workers = [Working slow_sample, Idle, Idle, Idle, Idle],
      pworld = empty_world\<rparr>"

section \<open>Samples in the queue and in the log\<close>

text \<open>The sample identifiers of the records in a log, in the order of the lines.\<close>

fun record_samples :: "report_record line list \<Rightarrow> string list" where
  "record_samples [] = []"
| "record_samples (MetaLine m # ls) = record_samples ls"
| "record_samples (RecordLine r # ls) = r_sample r # record_samples ls"

fun rp_samples :: "rp_record line list \<Rightarrow> string list" where
  "rp_samples [] = []"
| "rp_samples (MetaLine m # ls) = rp_samples ls"
| "rp_samples (RecordLine r # ls) = rp_sample r # rp_samples ls"

text \<open>The samples of a corpus whose stem is a key of the entry-document map.\<close>

definition mapped :: "(string \<rightharpoonup> string) \<Rightarrow> sample list \<Rightarrow> sample list" where
  "mapped sample_maindoc corpus =
     filter (\<lambda>s. sample_maindoc (stem (s_path s)) \<noteq> None) corpus"

text \<open>
  What holds of a worker and of the pipeline at every moment: items and reports come from
  mapped samples of the corpus.
\<close>

fun wstate_ok :: "sample set \<Rightarrow> wstate \<Rightarrow> bool" where
  "wstate_ok G (Working s) = (s \<in> G)"
| "wstate_ok G (Writing r) = (r_sample r \<in> (\<lambda>s. stem (s_path s)) ` G)"
| "wstate_ok G _ = True"

definition ci_inv :: "(string \<rightharpoonup> string) \<Rightarrow> sample list \<Rightarrow> pipeline \<Rightarrow> bool" where
  "ci_inv sample_maindoc corpus st =
     (set (pending st) \<subseteq> set corpus
      \<and> (\<forall>s. Some s \<in> set (work st) \<longrightarrow> s \<in> set (mapped sample_maindoc corpus))
      \<and> (\<forall>x \<in> set (workers st). wstate_ok (set (mapped sample_maindoc corpus)) x)
      \<and> set (record_samples (reportlog st))
           \<subseteq> (\<lambda>s. stem (s_path s)) ` set (mapped sample_maindoc corpus))"

text \<open>
  A sample above the withdrawal threshold, and a stand-in for \<open>heuristics.get_maindoc\<close>:
  the flat file named by the stem of the sample, when the workspace has one.
\<close>

definition big_sample :: sample where
  "big_sample = \<lparr>s_path = ''/corpus/0704.0007.gz'',
                  s_bytes = ''GZ'' @ replicate 120 (CHR ''x'')\<rparr>"

definition toy_heur :: "world \<Rightarrow> path \<Rightarrow> sample \<Rightarrow> py_error + path option" where
  "toy_heur w d smp =
     (case map_of (files w) (join d (stem (s_path smp))) of
        None \<Rightarrow> Inr None
      | Some b \<Rightarrow> Inr (Some (join d (stem (s_path smp)))))"

definition demo_corpus :: "sample list" where
  "demo_corpus = [big_sample, flat_sample]"

section \<open>Properties of the tag classifier\<close>

lemma map_of_keyed_map:
  "map_of (map (\<lambda>(k, v). (k, g k v)) xs) k = map_option (g k) (map_of xs k)"
  by (induction xs) auto

lemma implied_set:
  "set (map fst (filter (\<lambda>(k', v'). sublist v' v \<and> k' \<noteq> k) tags)) =
     {k'. \<exists>v'. (k', v') \<in> set tags \<and> sublist v' v \<and> k' \<noteq> k}"
  by force

lemma map_of_implied_tags:
  "map_of (implied_tags tags) k =
     map_option (\<lambda>v. {k'. \<exists>v'. (k', v') \<in> set tags \<and> sublist v' v \<and> k' \<noteq> k}) (map_of tags k)"
  unfolding implied_tags_def map_of_keyed_map implied_set ..

lemma implied_member:
  assumes "distinct (map fst tags)" and "(x, vx) \<in> set tags"
  shows "y \<in> the (map_of (implied_tags tags) x) \<longleftrightarrow> spec_implies tags x y"
proof -
  have m: "map_of tags x = Some vx" using assms by simp
  have uniq: "v = vx" if "(x, v) \<in> set tags" for v
    using assms that by (meson eq_key_imp_eq_value)
  have "y \<in> the (map_of (implied_tags tags) x) \<longleftrightarrow> (\<exists>vy. (y, vy) \<in> set tags \<and> sublist vy vx \<and> y \<noteq> x)"
    by (simp add: map_of_implied_tags m)
  also have "\<dots> \<longleftrightarrow> spec_implies tags x y"
    unfolding spec_implies_def using assms(2) uniq by blast
  finally show ?thesis .
qed


lemma lookup_all_total:
  "\<forall>k \<in> set ks. map_of tbl k \<noteq> None \<Longrightarrow>
     lookup_all tbl ks = Inr (map (\<lambda>k. the (map_of tbl k)) ks)"
  by (induction ks) auto

lemma foldl_union_Union: "foldl (\<union>) A sets = A \<union> \<Union> (set sets)"
  by (induction sets arbitrary: A) auto

lemma matched_keys:
  "set (map fst (filter (\<lambda>(k, v). sublist v data) tags)) = spec_matched tags data"
  unfolding spec_matched_def by force

lemma redundant_set:
  assumes dist: "distinct (map fst tags)"
  shows "(\<Union>k \<in> spec_matched tags data. the (map_of (implied_tags tags) k)) =
           {y. \<exists>x \<in> spec_matched tags data. spec_implies tags x y}"
proof (rule set_eqI)
  fix y
  have "(\<exists>x \<in> spec_matched tags data. y \<in> the (map_of (implied_tags tags) x))
          \<longleftrightarrow> (\<exists>x \<in> spec_matched tags data. spec_implies tags x y)"
  proof (rule bex_cong[OF refl])
    fix x assume "x \<in> spec_matched tags data"
    then obtain vx where "(x, vx) \<in> set tags" unfolding spec_matched_def by blast
    then show "y \<in> the (map_of (implied_tags tags) x) \<longleftrightarrow> spec_implies tags x y"
      by (rule implied_member[OF dist])
  qed
  then show "y \<in> (\<Union>k \<in> spec_matched tags data. the (map_of (implied_tags tags) k))
          \<longleftrightarrow> y \<in> {y. \<exists>x \<in> spec_matched tags data. spec_implies tags x y}"
    by simp
qed

lemma get_tags_with_classify:
  assumes dist: "distinct (map fst tags)" and ex: "fs p = Some (RegularFile raw)"
    and dec: "codec raw = Some data"
  shows "get_tags_with tags (implied_tags tags) codec fs p =
           Inr (sorted_list_of_set (spec_classify tags data))"
proof -
  define res where "res = map fst (filter (\<lambda>(k, v). sublist v data) tags)"
  have sres: "set res = spec_matched tags data"
    unfolding res_def by (rule matched_keys)
  have keys: "\<forall>k \<in> set res. map_of (implied_tags tags) k \<noteq> None"
  proof
    fix k assume "k \<in> set res"
    then obtain v where "(k, v) \<in> set tags" unfolding sres spec_matched_def by blast
    then have "map_of tags k = Some v" using dist by simp
    then show "map_of (implied_tags tags) k \<noteq> None" by (simp add: map_of_implied_tags)
  qed
  have lk: "lookup_all (implied_tags tags) res
              = Inr (map (\<lambda>k. the (map_of (implied_tags tags) k)) res)"
    by (rule lookup_all_total[OF keys])
  have red: "foldl (\<union>) {} (map (\<lambda>k. the (map_of (implied_tags tags) k)) res)
               = {y. \<exists>x \<in> spec_matched tags data. spec_implies tags x y}"
    unfolding foldl_union_Union using redundant_set[OF dist, of data] sres by simp
  have "get_tags_with tags (implied_tags tags) codec fs p =
          Inr (sorted_list_of_set (set res
                 - foldl (\<union>) {} (map (\<lambda>k. the (map_of (implied_tags tags) k)) res)))"
    unfolding get_tags_with_def ex dec option.simps fsnode.simps Let_def lk[unfolded res_def]
      res_def sum.simps
    by (rule refl)
  then show ?thesis unfolding red sres spec_classify_def .
qed


lemma implied_table_iff:
  assumes dist: "distinct (map fst tags)"
  shows "(\<exists>S. map_of (implied_tags tags) x = Some S \<and> y \<in> S) \<longleftrightarrow> spec_implies tags x y"
proof (cases "map_of tags x")
  case None
  then have "map_of (implied_tags tags) x = None" by (simp add: map_of_implied_tags)
  moreover have "\<not> spec_implies tags x y"
  proof
    assume "spec_implies tags x y"
    then obtain vx where "(x, vx) \<in> set tags" unfolding spec_implies_def by blast
    then have "map_of tags x = Some vx" using dist by simp
    with None show False by simp
  qed
  ultimately show ?thesis by simp
next
  case (Some vx)
  then have mem: "(x, vx) \<in> set tags" by (rule map_of_SomeD)
  have "map_of (implied_tags tags) x \<noteq> None" using Some by (simp add: map_of_implied_tags)
  then have "(\<exists>S. map_of (implied_tags tags) x = Some S \<and> y \<in> S)
               \<longleftrightarrow> y \<in> the (map_of (implied_tags tags) x)"
    by auto
  then show ?thesis using implied_member[OF dist mem] by simp
qed

lemma distinct_TAGS: "distinct (map fst TAGS)"
  by (simp add: TAGS_def)

lemma finite_spec_classify: "finite (spec_classify tags data)"
proof -
  have "spec_classify tags data \<subseteq> fst ` set tags"
    unfolding spec_classify_def spec_matched_def by force
  then show ?thesis by (rule finite_subset) simp
qed

text \<open>
  The two ways \<open>get_tags\<close> raises on a path that exists: the bytes of the log are not valid
  text in the codec of \<open>open(p)\<close>, or the path names a directory.
\<close>

lemma get_tags_undecodable:
  assumes "fs p = Some (RegularFile raw)" and "codec raw = None"
  shows "get_tags codec fs p = Inl UnicodeDecodeError"
  using assms by (simp add: get_tags_def get_tags_with_def)

lemma get_tags_directory:
  assumes "fs p = Some Directory"
  shows "get_tags codec fs p = Inl IsADirectoryError"
  using assms by (simp add: get_tags_def get_tags_with_def)

lemma get_tags_undecodable_example:
  "get_tags toy_decode [''main.log'' \<mapsto> RegularFile (''LaTeX Error '' @ [CHR 0xE9])] ''main.log''
     = Inl UnicodeDecodeError"
  by code_simp

text \<open>
  In the world of the scripts: a directory at the path of the log makes \<open>get_tags\<close> raise,
  and a path with nothing there gives the tag \<open>no-log-file\<close>.
\<close>

lemma tags_in_examples:
  "fst (tags_in toy ''/tmp/tmpttrac/main.log''
          (empty_world\<lparr>dirs := [''/tmp/tmpttrac/main.log'']\<rparr>)) = Inl IsADirectoryError"
  "fst (tags_in toy ''/tmp/tmpttrac/main.log''
          (empty_world\<lparr>dirs := [''/tmp/tmpttrac'']\<rparr>)) = Inr [''no-log-file'']"
  "fst (tags_in toy ''/tmp/tmpttrac/main.log''
          (empty_world\<lparr>files := [(''/tmp/tmpttrac/main.log'', ''! Undefined control sequence.'')]\<rparr>))
     = Inr [''undefined-control-sequence'']"
  by code_simp+

text \<open>
  Claim C6. When the log is a regular file whose bytes the codec of \<open>open(p)\<close> decodes to the
  text \<open>data\<close>, \<open>get_tags\<close> returns the tags matched in \<open>data\<close> minus every tag implied by a
  matched tag, as a list sorted by name without repetition; and the table \<open>IMPLIED_TAGS\<close>
  relates a tag \<open>x\<close> to a tag \<open>y\<close> exactly when the signature of \<open>y\<close> occurs inside the
  signature of \<open>x\<close> and \<open>x\<close> is not \<open>y\<close>.
\<close>

theorem get_tags_classification:
  assumes "fs p = Some (RegularFile raw)" and "codec raw = Some data"
  shows "\<exists>ts. get_tags codec fs p = Inr ts \<and> sorted ts \<and> distinct ts
           \<and> set ts = spec_matched TAGS data
                        - {y. \<exists>x \<in> spec_matched TAGS data. spec_implies TAGS x y}
           \<and> (\<forall>x y. (\<exists>S. map_of IMPLIED_TAGS x = Some S \<and> y \<in> S) \<longleftrightarrow> spec_implies TAGS x y)"
proof -
  let ?ts = "sorted_list_of_set (spec_classify TAGS data)"
  have g: "get_tags codec fs p = Inr ?ts"
    unfolding get_tags_def IMPLIED_TAGS_def
    using distinct_TAGS assms by (rule get_tags_with_classify)
  have s: "sorted ?ts" by simp
  have d: "distinct ?ts" by simp
  have e: "set ?ts = spec_matched TAGS data
                        - {y. \<exists>x \<in> spec_matched TAGS data. spec_implies TAGS x y}"
    using finite_spec_classify[of TAGS data] by (simp add: spec_classify_def)
  have i: "\<forall>x y. (\<exists>S. map_of IMPLIED_TAGS x = Some S \<and> y \<in> S) \<longleftrightarrow> spec_implies TAGS x y"
    unfolding IMPLIED_TAGS_def using implied_table_iff[OF distinct_TAGS] by blast
  from g s d e i show ?thesis by blast
qed

theorem get_tags_classification_witness:
  "[''main.log'' \<mapsto> RegularFile ''LaTeX Error: File''] ''main.log''
     = Some (RegularFile ''LaTeX Error: File'')
   \<and> toy_decode ''LaTeX Error: File'' = Some ''LaTeX Error: File''
   \<and> (\<exists>ts. get_tags toy_decode [''main.log'' \<mapsto> RegularFile ''LaTeX Error: File''] ''main.log''
            = Inr ts
          \<and> sorted ts \<and> distinct ts
          \<and> set ts = spec_matched TAGS ''LaTeX Error: File''
                - {y. \<exists>x \<in> spec_matched TAGS ''LaTeX Error: File''. spec_implies TAGS x y}
          \<and> (\<forall>x y. (\<exists>S. map_of IMPLIED_TAGS x = Some S \<and> y \<in> S) \<longleftrightarrow> spec_implies TAGS x y))"
proof (intro conjI)
  show h: "[''main.log'' \<mapsto> RegularFile ''LaTeX Error: File''] ''main.log''
             = Some (RegularFile ''LaTeX Error: File'')"
    by simp
  show d: "toy_decode ''LaTeX Error: File'' = Some ''LaTeX Error: File''"
    by code_simp
  show "\<exists>ts. get_tags toy_decode [''main.log'' \<mapsto> RegularFile ''LaTeX Error: File''] ''main.log''
            = Inr ts
          \<and> sorted ts \<and> distinct ts
          \<and> set ts = spec_matched TAGS ''LaTeX Error: File''
                - {y. \<exists>x \<in> spec_matched TAGS ''LaTeX Error: File''. spec_implies TAGS x y}
          \<and> (\<forall>x y. (\<exists>S. map_of IMPLIED_TAGS x = Some S \<and> y \<in> S) \<longleftrightarrow> spec_implies TAGS x y)"
    by (rule get_tags_classification
               [of "[''main.log'' \<mapsto> RegularFile ''LaTeX Error: File'']" "''main.log''"
                   "''LaTeX Error: File''" toy_decode "''LaTeX Error: File''", OF h d])
qed

text \<open>A log with a missing-file error: the generic \<open>latex-error\<close> tag is suppressed.\<close>

lemma get_tags_example:
  "get_tags toy_decode
     [''main.log'' \<mapsto> RegularFile ''! LaTeX Error: File `a.sty' not found.''] ''main.log''
     = Inr [''latex-file-not-found'']"
  by code_simp

text \<open>
  Claim C9. When nothing exists at the path of the log, \<open>get_tags\<close> returns the single tag
  \<open>no-log-file\<close>; the result is the same for every signature table, implication table and
  codec, so no signature is matched on the way.
\<close>

theorem get_tags_no_log_file:
  assumes "fs p = None"
  shows "get_tags codec fs p = Inr [''no-log-file'']
         \<and> (\<forall>tags implied dec. get_tags_with tags implied dec fs p = Inr [''no-log-file''])"
  using assms by (simp add: get_tags_def get_tags_with_def)

theorem get_tags_no_log_file_witness:
  "[''other.log'' \<mapsto> RegularFile ''LaTeX Error''] ''main.log'' = None
   \<and> (get_tags toy_decode [''other.log'' \<mapsto> RegularFile ''LaTeX Error''] ''main.log''
         = Inr [''no-log-file'']
       \<and> (\<forall>tags implied dec.
              get_tags_with tags implied dec [''other.log'' \<mapsto> RegularFile ''LaTeX Error''] ''main.log''
              = Inr [''no-log-file'']))"
proof (rule conjI)
  show h: "[''other.log'' \<mapsto> RegularFile ''LaTeX Error''] ''main.log'' = None" by simp
  show "get_tags toy_decode [''other.log'' \<mapsto> RegularFile ''LaTeX Error''] ''main.log''
         = Inr [''no-log-file'']
       \<and> (\<forall>tags implied dec.
              get_tags_with tags implied dec [''other.log'' \<mapsto> RegularFile ''LaTeX Error''] ''main.log''
              = Inr [''no-log-file''])"
    by (rule get_tags_no_log_file
               [of "[''other.log'' \<mapsto> RegularFile ''LaTeX Error'']" "''main.log''" toy_decode, OF h])
qed
section \<open>Properties of the entry-document resolver\<close>

lemma fst_filter_texfiles: "fst (filter_texfiles L p) = filter (texlike L) p"
  by (induction p) (auto simp: texlike_def split: prod.splits)

lemma snd_filter_texfiles:
  "snd (filter_texfiles L p) =
     map (\<lambda>x. Sniffed (d_path x)) (filter (\<lambda>x. suffix_of (d_path x) \<noteq> ''.tex'') p)"
  by (induction p) (auto split: prod.splits)

lemma get_maindoc_unfold:
  "get_maindoc L p =
     (if length (filter (texlike L) p) < 2 then
        (case filter (texlike L) p of
           [] \<Rightarrow> (Inl IndexError, snd (filter_texfiles L p))
         | x # _ \<Rightarrow> (Inr x, snd (filter_texfiles L p)))
      else scan_texfiles (filter (texlike L) p) (snd (filter_texfiles L p)))"
  unfolding get_maindoc_def case_prod_beta fst_filter_texfiles ..

lemma scan_texfiles_find:
  "\<forall>x \<in> set xs. is_file x \<Longrightarrow>
     fst (scan_texfiles xs evs) =
       (case find has_marker xs of
          None \<Rightarrow> Inl AssertionError
        | Some x \<Rightarrow> Inr x)"
  by (induction xs arbitrary: evs) auto

lemma find_of_filter_singleton:
  "filter P xs = [x] \<Longrightarrow> find P xs = Some x"
  by (induction xs) (auto split: if_splits)

lemma sniffed_not_scanned:
  "Scanned q \<notin> set (map (\<lambda>x. Sniffed (d_path x)) xs)"
  by (induction xs) auto

text \<open>
  Claim C3, as amended. With no TeX-like candidate \<open>get_maindoc\<close> fails (\<open>IndexError\<close>) and
  with exactly one it returns that candidate; in both cases no file is scanned for the
  marker: all that has happened is that libmagic was asked for the type of each entry
  whose suffix is not \<open>.tex\<close>. With two or more candidates, all regular files, it returns the
  first candidate in listing order whose bytes contain the marker, and fails
  (\<open>AssertionError\<close>) when none does; so when exactly one candidate contains the marker,
  that one is returned.
\<close>

theorem get_maindoc_resolution:
  "(filter (texlike L) p = [] \<longrightarrow>
        fst (get_maindoc L p) = Inl IndexError
        \<and> snd (get_maindoc L p) =
            map (\<lambda>x. Sniffed (d_path x)) (filter (\<lambda>x. suffix_of (d_path x) \<noteq> ''.tex'') p)
        \<and> (\<forall>q. Scanned q \<notin> set (snd (get_maindoc L p))))
   \<and> (\<forall>x. filter (texlike L) p = [x] \<longrightarrow>
        fst (get_maindoc L p) = Inr x
        \<and> snd (get_maindoc L p) =
            map (\<lambda>x. Sniffed (d_path x)) (filter (\<lambda>x. suffix_of (d_path x) \<noteq> ''.tex'') p)
        \<and> (\<forall>q. Scanned q \<notin> set (snd (get_maindoc L p))))
   \<and> (2 \<le> length (filter (texlike L) p) \<and> (\<forall>x \<in> set (filter (texlike L) p). is_file x) \<longrightarrow>
        fst (get_maindoc L p) =
          (case find has_marker (filter (texlike L) p) of
             None \<Rightarrow> Inl AssertionError
           | Some x \<Rightarrow> Inr x))
   \<and> (\<forall>x. 2 \<le> length (filter (texlike L) p) \<and> (\<forall>y \<in> set (filter (texlike L) p). is_file y)
            \<and> filter has_marker (filter (texlike L) p) = [x]
          \<longrightarrow> fst (get_maindoc L p) = Inr x)"
proof (intro conjI allI impI)
  assume a: "filter (texlike L) p = []"
  show "fst (get_maindoc L p) = Inl IndexError"
    by (simp add: get_maindoc_unfold a)
  show e: "snd (get_maindoc L p) =
            map (\<lambda>x. Sniffed (d_path x)) (filter (\<lambda>x. suffix_of (d_path x) \<noteq> ''.tex'') p)"
    by (simp add: get_maindoc_unfold a snd_filter_texfiles)
  fix q
  show "Scanned q \<notin> set (snd (get_maindoc L p))"
    unfolding e by (rule sniffed_not_scanned)
next
  fix x assume a: "filter (texlike L) p = [x]"
  show "fst (get_maindoc L p) = Inr x"
    by (simp add: get_maindoc_unfold a)
  show e: "snd (get_maindoc L p) =
            map (\<lambda>x. Sniffed (d_path x)) (filter (\<lambda>x. suffix_of (d_path x) \<noteq> ''.tex'') p)"
    by (simp add: get_maindoc_unfold a snd_filter_texfiles)
  fix q
  show "Scanned q \<notin> set (snd (get_maindoc L p))"
    unfolding e by (rule sniffed_not_scanned)
next
  assume a: "2 \<le> length (filter (texlike L) p) \<and> (\<forall>x \<in> set (filter (texlike L) p). is_file x)"
  then have "get_maindoc L p = scan_texfiles (filter (texlike L) p) (snd (filter_texfiles L p))"
    by (simp add: get_maindoc_unfold)
  then show "fst (get_maindoc L p) =
          (case find has_marker (filter (texlike L) p) of
             None \<Rightarrow> Inl AssertionError
           | Some x \<Rightarrow> Inr x)"
    using a scan_texfiles_find[of "filter (texlike L) p" "snd (filter_texfiles L p)"] by simp
next
  fix x
  assume a: "2 \<le> length (filter (texlike L) p) \<and> (\<forall>y \<in> set (filter (texlike L) p). is_file y)
            \<and> filter has_marker (filter (texlike L) p) = [x]"
  then have g: "get_maindoc L p = scan_texfiles (filter (texlike L) p) (snd (filter_texfiles L p))"
    by (simp add: get_maindoc_unfold)
  from a have "filter has_marker (filter (texlike L) p) = [x]"
    by simp
  then have f: "find has_marker (filter (texlike L) p) = Some x"
    by (rule find_of_filter_singleton)
  from a have fl: "\<forall>y \<in> set (filter (texlike L) p). is_file y" by simp
  show "fst (get_maindoc L p) = Inr x"
    unfolding g scan_texfiles_find[OF fl] f by simp
qed

lemma paper_dir_texfiles:
  "filter (texlike toy) paper_dir =
     [\<lparr>d_path = ''/tmp/tmpttrac/intro.tex'', is_file = True, d_data = ''Introduction''\<rparr>, main_tex]"
  by (simp add: paper_dir_def main_tex_def texlike_def suffix_of_def basename_def detect_mime_def
        toy_def toy_mime_def)

lemma paper_dir_marked:
  "filter has_marker (filter (texlike toy) paper_dir) = [main_tex]"
  by code_simp

lemma lone_dir_texfiles: "filter (texlike toy) lone_dir = [main_tex]"
  by (simp add: lone_dir_def main_tex_def texlike_def suffix_of_def basename_def detect_mime_def
        toy_def toy_mime_def)

lemma lone_dir_sniffed:
  "map (\<lambda>x. Sniffed (d_path x)) (filter (\<lambda>x. suffix_of (d_path x) \<noteq> ''.tex'') lone_dir)
     = [Sniffed ''/tmp/tmpttrac/notes.txt'']"
  by (simp add: lone_dir_def main_tex_def suffix_of_def basename_def)

theorem get_maindoc_resolution_witness:
  "filter (texlike toy) [] = []
   \<and> fst (get_maindoc toy []) = Inl IndexError
   \<and> filter (texlike toy) lone_dir = [main_tex]
   \<and> get_maindoc toy lone_dir = (Inr main_tex, [Sniffed ''/tmp/tmpttrac/notes.txt''])
   \<and> 2 \<le> length (filter (texlike toy) paper_dir)
   \<and> list_all is_file (filter (texlike toy) paper_dir)
   \<and> filter has_marker (filter (texlike toy) paper_dir) = [main_tex]
   \<and> fst (get_maindoc toy paper_dir) = Inr main_tex"
proof -
  have e: "fst (get_maindoc toy []) = Inl IndexError"
    using get_maindoc_resolution[of toy "[]"] by simp
  have "fst (get_maindoc toy lone_dir) = Inr main_tex
        \<and> snd (get_maindoc toy lone_dir) =
            map (\<lambda>x. Sniffed (d_path x)) (filter (\<lambda>x. suffix_of (d_path x) \<noteq> ''.tex'') lone_dir)"
    using get_maindoc_resolution[of toy lone_dir] lone_dir_texfiles by blast
  then have l: "get_maindoc toy lone_dir = (Inr main_tex, [Sniffed ''/tmp/tmpttrac/notes.txt''])"
    unfolding lone_dir_sniffed by (simp add: prod_eq_iff)
  have h: "2 \<le> length (filter (texlike toy) paper_dir)
           \<and> (\<forall>y \<in> set (filter (texlike toy) paper_dir). is_file y)
           \<and> filter has_marker (filter (texlike toy) paper_dir) = [main_tex]"
    unfolding paper_dir_marked unfolding paper_dir_texfiles by (simp add: main_tex_def)
  have "\<forall>x. 2 \<le> length (filter (texlike toy) paper_dir)
            \<and> (\<forall>y \<in> set (filter (texlike toy) paper_dir). is_file y)
            \<and> filter has_marker (filter (texlike toy) paper_dir) = [x]
          \<longrightarrow> fst (get_maindoc toy paper_dir) = Inr x"
    using get_maindoc_resolution[of toy paper_dir] by (elim conjE)
  then have "fst (get_maindoc toy paper_dir) = Inr main_tex" using h by blast
  with h e l lone_dir_texfiles show ?thesis by (simp add: list_all_iff)
qed

text \<open>
  The claim as first stated fails: with two candidates that both contain the marker,
  resolution does not fail but returns the first.
\<close>

theorem get_maindoc_two_markers_counterexample:
  "texlike toy doc_a \<and> texlike toy doc_b \<and> has_marker doc_a \<and> has_marker doc_b
   \<and> doc_a \<noteq> doc_b
   \<and> fst (get_maindoc toy [doc_a, doc_b]) = Inr doc_a"
  by (simp add: doc_a_def doc_b_def get_maindoc_def texlike_def suffix_of_def basename_def has_marker_def
        documentclass_def backslash_def)
section \<open>Properties of the capture store\<close>

lemma capture_loop_as_set:
  "capture_loop L excluded True d (c, s, st) =
     (c, s \<union> digest16 L ` {f \<in> set d. is_file f}, st)"
  by (induction d arbitrary: s) auto

lemma capture_loop_dset:
  "fst (snd (capture_loop L excluded False d (c, s, st))) = s"
  by (induction d arbitrary: c st) auto

lemma capture_loop_dom:
  "dom (snd (snd (capture_loop L excluded False d (c, s, st)))) =
     dom st \<union> target_ci L ` {f \<in> set d. selected L excluded f}"
  by (induction d arbitrary: c st) (auto simp: selected_def copy_if_absent_def)

lemma copy_if_absent_preserves:
  "st t = Some b \<Longrightarrow> copy_if_absent st tg dat t = Some b"
  by (auto simp: copy_if_absent_def)

lemma capture_loop_preserves:
  "st t = Some b \<Longrightarrow> snd (snd (capture_loop L excluded False d (c, s, st))) t = Some b"
  by (induction d arbitrary: c st) (simp_all add: copy_if_absent_preserves)

lemma capture_loop_noop:
  "\<forall>f \<in> set d. selected L excluded f \<longrightarrow> target_ci L f \<in> dom st \<Longrightarrow>
     snd (snd (capture_loop L excluded False d (c, s, st))) = st"
  by (induction d arbitrary: c st) (auto simp: selected_def copy_if_absent_def)

lemma capture_loop_captured_indep:
  "fst (capture_loop L excluded False d (c, s, st)) = fst (capture_loop L excluded False d (c, s, st'))"
  by (induction d arbitrary: c st st') auto

lemma capture_loop_none_selected:
  "\<forall>f \<in> set d. \<not> selected L excluded f \<Longrightarrow> capture_loop L excluded False d (c, s, st) = (c, s, st)"
  by (induction d arbitrary: c st) (auto simp: selected_def)

lemma capture_files_store:
  "snd (capture_files L d excluded False store) =
     snd (snd (capture_loop L excluded False d (Map.empty, {}, store)))"
  by (simp add: capture_files_def split: prod.splits)

lemma capture_files_result:
  "fst (capture_files L d excluded False store) =
     Captured (fst (capture_loop L excluded False d (Map.empty, {}, store)))"
  by (simp add: capture_files_def split: prod.splits)

lemma capture_files_dom:
  "dom (snd (capture_files L d excluded False store)) =
     dom store \<union> target_ci L ` {f \<in> set d. selected L excluded f}"
  unfolding capture_files_store by (rule capture_loop_dom)

lemma capture_files_preserves:
  "store t = Some b \<Longrightarrow> snd (capture_files L d excluded False store) t = Some b"
  unfolding capture_files_store by (rule capture_loop_preserves)

lemma capture_files_idem:
  "capture_files L d excluded False (snd (capture_files L d excluded False store)) =
     capture_files L d excluded False store"
proof -
  let ?st' = "snd (capture_files L d excluded False store)"
  have "\<forall>f \<in> set d. selected L excluded f \<longrightarrow> target_ci L f \<in> dom ?st'"
    unfolding capture_files_dom by blast
  then have "snd (snd (capture_loop L excluded False d (Map.empty, {}, ?st'))) = ?st'"
    by (rule capture_loop_noop)
  then have s: "snd (capture_files L d excluded False ?st') = ?st'"
    unfolding capture_files_store[of L d excluded ?st'] .
  have f: "fst (capture_files L d excluded False ?st') = fst (capture_files L d excluded False store)"
    unfolding capture_files_result using capture_loop_captured_indep by simp
  from s f show ?thesis by (simp add: prod_eq_iff)
qed

lemma capture_files_as_set:
  "capture_files L d excluded True store = (Digests (digest16 L ` {f \<in> set d. is_file f}), store)"
  by (simp add: capture_files_def capture_loop_as_set)

lemma capture_files_baseline:
  "capture_files L d (Some (digest16 L ` {f \<in> set d. is_file f})) False store
     = (Captured Map.empty, store)"
proof -
  have "\<forall>f \<in> set d. \<not> selected L (Some (digest16 L ` {f \<in> set d. is_file f})) f"
    by (auto simp: selected_def is_excluded_def)
  then have "capture_loop L (Some (digest16 L ` {f \<in> set d. is_file f})) False d
               (Map.empty, {}, store) = (Map.empty, {}, store)"
    by (rule capture_loop_none_selected)
  then show ?thesis by (simp add: capture_files_def)
qed

lemma target_ci_cong:
  "d_data (f :: dirent) = d_data (g :: dirent) \<Longrightarrow> suffix_of (d_path f) = suffix_of (d_path g) \<Longrightarrow>
     target_ci L f = target_ci L g"
  by (simp add: target_ci_def digest16_def ext_ci_def)

lemma capture_twice_one_object:
  assumes "is_file (f :: dirent)" "is_file (g :: dirent)" "d_data f = d_data g"
    "suffix_of (d_path f) = suffix_of (d_path g)"
  shows "dom (snd (capture_files L [g] None False (snd (capture_files L [f] None False store))))
           = insert (target_ci L f) (dom store)"
proof -
  have "target_ci L g = target_ci L f"
    using assms by (simp add: target_ci_def digest16_def ext_ci_def)
  then show ?thesis
    unfolding capture_files_dom using assms by (auto simp: selected_def is_excluded_def)
qed

lemma capture_loop_store:
  "snd (snd (capture_loop L excluded False d (c, s, st))) t =
     (case st t of
        Some b \<Rightarrow> Some b
      | None \<Rightarrow> map_option d_data (find (\<lambda>f. selected L excluded f \<and> target_ci L f = t) d))"
  by (induction d arbitrary: c st) (auto simp: selected_def copy_if_absent_def split: option.splits)

lemma capture_files_content:
  "snd (capture_files L d excluded False store) t =
     (case store t of
        Some b \<Rightarrow> Some b
      | None \<Rightarrow> map_option d_data (find (\<lambda>f. selected L excluded f \<and> target_ci L f = t) d))"
  unfolding capture_files_store by (rule capture_loop_store)

subsection \<open>The loop of report.py\<close>

lemma rp_capture_loop_excl:
  "fst (snd (rp_capture_loop L False d (c, e, st))) = e"
  by (induction d arbitrary: c st) auto

lemma rp_capture_loop_store:
  "snd (snd (rp_capture_loop L False d (c, e, st))) t =
     (case st t of
        Some b \<Rightarrow> Some b
      | None \<Rightarrow>
          map_option d_data (find (\<lambda>f. is_file f \<and> digest16 L f \<notin> e \<and> target_rp L f = t) d))"
  by (induction d arbitrary: c st) (auto simp: copy_if_absent_def split: option.splits)

lemma rp_capture_loop_dom:
  "dom (snd (snd (rp_capture_loop L False d (c, e, st)))) =
     dom st \<union> target_rp L ` {f \<in> set d. is_file f \<and> digest16 L f \<notin> e}"
  by (induction d arbitrary: c st) (auto simp: copy_if_absent_def)

lemma rp_capture_loop_noop:
  "\<forall>f \<in> set d. is_file f \<and> digest16 L f \<notin> e \<longrightarrow> target_rp L f \<in> dom st \<Longrightarrow>
     snd (snd (rp_capture_loop L False d (c, e, st))) = st"
  by (induction d arbitrary: c st) (auto simp: copy_if_absent_def)

lemma rp_capture_loop_captured_indep:
  "fst (rp_capture_loop L False d (c, e, st)) = fst (rp_capture_loop L False d (c, e, st'))"
  by (induction d arbitrary: c st st') auto

lemma rp_capture_loop_exclude_all:
  "rp_capture_loop L True d (c, e, st) = (c, e \<union> digest16 L ` {f \<in> set d. is_file f}, st)"
  by (induction d arbitrary: e) auto

lemma rp_capture_loop_all_excluded:
  "\<forall>f \<in> set d. is_file f \<longrightarrow> digest16 L f \<in> e \<Longrightarrow>
     rp_capture_loop L False d (c, e, st) = (c, e, st)"
  by (induction d arbitrary: c st) auto

lemma iterdir_objects:
  "iterdir (w\<lparr>objects := st, capture_exclude := e\<rparr>) dir = iterdir w dir"
  by (simp add: iterdir_def)

lemma rp_capture_files_capture:
  "rp_capture_files L dir False w =
     (fst (rp_capture_loop L False (iterdir w dir) (Map.empty, capture_exclude w, objects w)),
      w\<lparr>objects :=
           snd (snd (rp_capture_loop L False (iterdir w dir) (Map.empty, capture_exclude w, objects w)))\<rparr>)"
proof -
  obtain c e st where l:
    "rp_capture_loop L False (iterdir w dir) (Map.empty, capture_exclude w, objects w) = (c, e, st)"
    by (cases "rp_capture_loop L False (iterdir w dir) (Map.empty, capture_exclude w, objects w)")
  have "e = capture_exclude w"
    using rp_capture_loop_excl [of L "iterdir w dir" Map.empty "capture_exclude w" "objects w"] l
    by simp
  then show ?thesis
    by (simp add: rp_capture_files_def l)
qed

lemma rp_capture_files_baseline_world:
  "rp_capture_files L dir True w =
     (Map.empty,
      w\<lparr>capture_exclude := capture_exclude w \<union> digest16 L ` {f \<in> set (iterdir w dir). is_file f}\<rparr>)"
  by (simp add: rp_capture_files_def rp_capture_loop_exclude_all)

lemma rp_capture_files_objects:
  "objects (snd (rp_capture_files L dir False w)) =
     snd (snd (rp_capture_loop L False (iterdir w dir) (Map.empty, capture_exclude w, objects w)))"
  by (simp add: rp_capture_files_capture)

lemma rp_capture_files_content:
  "objects (snd (rp_capture_files L dir False w)) t =
     (case objects w t of
        Some b \<Rightarrow> Some b
      | None \<Rightarrow>
          map_option d_data
            (find (\<lambda>f. is_file f \<and> digest16 L f \<notin> capture_exclude w \<and> target_rp L f = t)
               (iterdir w dir)))"
  unfolding rp_capture_files_objects by (rule rp_capture_loop_store)

lemma rp_capture_files_dom:
  "dom (objects (snd (rp_capture_files L dir False w))) =
     dom (objects w)
       \<union> target_rp L ` {f \<in> set (iterdir w dir). is_file f \<and> digest16 L f \<notin> capture_exclude w}"
  unfolding rp_capture_files_objects by (rule rp_capture_loop_dom)

lemma rp_capture_files_idem:
  "rp_capture_files L dir False (snd (rp_capture_files L dir False w)) =
     rp_capture_files L dir False w"
proof -
  let ?d = "iterdir w dir"
  let ?e = "capture_exclude w"
  let ?st = "snd (snd (rp_capture_loop L False ?d (Map.empty, ?e, objects w)))"
  let ?w = "w\<lparr>objects := ?st\<rparr>"
  have w: "snd (rp_capture_files L dir False w) = ?w"
    by (simp add: rp_capture_files_capture)
  have it: "iterdir ?w dir = ?d"
    by (simp add: iterdir_def)
  have "\<forall>f \<in> set ?d. is_file f \<and> digest16 L f \<notin> ?e \<longrightarrow> target_rp L f \<in> dom ?st"
    unfolding rp_capture_loop_dom by blast
  then have noop: "snd (snd (rp_capture_loop L False ?d (Map.empty, ?e, ?st))) = ?st"
    by (rule rp_capture_loop_noop)
  have cap: "fst (rp_capture_loop L False ?d (Map.empty, ?e, ?st))
               = fst (rp_capture_loop L False ?d (Map.empty, ?e, objects w))"
    by (rule rp_capture_loop_captured_indep)
  have "rp_capture_files L dir False ?w =
          (fst (rp_capture_loop L False ?d (Map.empty, ?e, ?st)),
           ?w\<lparr>objects := snd (snd (rp_capture_loop L False ?d (Map.empty, ?e, ?st)))\<rparr>)"
    unfolding rp_capture_files_capture [of L dir ?w] it by simp
  also have "\<dots> = (fst (rp_capture_loop L False ?d (Map.empty, ?e, objects w)), ?w)"
    unfolding noop cap by simp
  also have "\<dots> = rp_capture_files L dir False w"
    by (simp add: rp_capture_files_capture)
  finally show ?thesis
    unfolding w .
qed

lemma rp_capture_files_after_baseline:
  "rp_capture_files L dir False (snd (rp_capture_files L dir True w)) =
     (Map.empty, snd (rp_capture_files L dir True w))"
proof -
  let ?e = "capture_exclude w \<union> digest16 L ` {f \<in> set (iterdir w dir). is_file f}"
  let ?w = "w\<lparr>capture_exclude := ?e\<rparr>"
  have w: "snd (rp_capture_files L dir True w) = ?w"
    by (simp add: rp_capture_files_baseline_world)
  have it: "iterdir ?w dir = iterdir w dir"
    by (simp add: iterdir_def)
  have "\<forall>f \<in> set (iterdir w dir). is_file f \<longrightarrow> digest16 L f \<in> ?e"
    by blast
  then have "rp_capture_loop L False (iterdir w dir) (Map.empty, ?e, objects w)
               = (Map.empty, ?e, objects w)"
    by (rule rp_capture_loop_all_excluded)
  then have "rp_capture_files L dir False ?w = (Map.empty, ?w)"
    by (simp add: rp_capture_files_def it)
  then show ?thesis
    unfolding w .
qed

text \<open>
  In report.py the extension comes from the sniffed content type, so there the stored name
  depends on the bytes alone.
\<close>

lemma target_rp_content:
  "d_data (f :: dirent) = d_data (g :: dirent) \<Longrightarrow> target_rp L f = target_rp L g"
  by (simp add: target_rp_def ext_rp_def digest16_def)

lemma rp_capture_pair_one_object:
  assumes "is_file (f :: dirent)" "is_file (g :: dirent)" "d_data f = d_data g" "digest16 L f \<notin> e"
  shows "dom (snd (snd (rp_capture_loop L False [f, g] (Map.empty, e, store))))
           = insert (target_rp L f) (dom store)"
proof -
  have "target_rp L g = target_rp L f"
    using assms(3) by (simp add: target_rp_def ext_rp_def digest16_def)
  moreover have "digest16 L g = digest16 L f"
    using assms(3) by (simp add: digest16_def)
  ultimately show ?thesis
    unfolding rp_capture_loop_dom using assms by auto
qed

lemma rp_capture_twice_one_object:
  assumes "is_file (f :: dirent)" "is_file (g :: dirent)" "d_data f = d_data g" "digest16 L f \<notin> e"
  shows "dom (snd (snd (rp_capture_loop L False [g]
                 (Map.empty, e, snd (snd (rp_capture_loop L False [f] (Map.empty, e, store)))))))
           = insert (target_rp L f) (dom store)"
proof -
  have "target_rp L g = target_rp L f"
    using assms(3) by (simp add: target_rp_def ext_rp_def digest16_def)
  moreover have "digest16 L g = digest16 L f"
    using assms(3) by (simp add: digest16_def)
  ultimately show ?thesis
    unfolding rp_capture_loop_dom using assms by auto
qed

text \<open>
  Claim C5, as amended. In both scripts the object store after a capture is the store
  before it, extended at each target \<open>objects/<digest><ext>\<close> that was absent by the bytes of
  the first captured file with that target: it grows by exactly the targets of the regular
  files whose digest is not excluded, an object already present is never written again,
  capturing a second time changes nothing and returns the same map, and a capture after the
  baseline of the same directory returns the empty map and stores nothing. In report.py the
  extension comes from the content type, so two files with the same bytes have one target
  whatever their names, and capturing both, in one listing or one after the other, adds one
  object. In report\_ci.py the extension
  is the file's own suffix, so this holds for two files with the same bytes and the same
  suffix.
\<close>

theorem capture_files_dedup:
  "(\<forall>t. snd (capture_files L d excluded False store) t =
          (case store t of
             Some b \<Rightarrow> Some b
           | None \<Rightarrow>
               map_option d_data (find (\<lambda>f. selected L excluded f \<and> target_ci L f = t) d)))
   \<and> (dom (snd (capture_files L d excluded False store)) =
      dom store \<union> target_ci L ` {f \<in> set d. selected L excluded f})
   \<and> (\<forall>t b. store t = Some b \<longrightarrow> snd (capture_files L d excluded False store) t = Some b)
   \<and> capture_files L d excluded False (snd (capture_files L d excluded False store)) =
       capture_files L d excluded False store
   \<and> capture_files L d None True store = (Digests (digest16 L ` {f \<in> set d. is_file f}), store)
   \<and> capture_files L d (Some (the_digests (fst (capture_files L d None True store)))) False store
       = (Captured Map.empty, store)
   \<and> (\<forall>(f :: dirent) (g :: dirent). is_file f \<and> is_file g \<and> d_data f = d_data g
              \<and> suffix_of (d_path f) = suffix_of (d_path g) \<longrightarrow>
          target_ci L f = target_ci L g
          \<and> dom (snd (capture_files L [g] None False (snd (capture_files L [f] None False store))))
              = insert (target_ci L f) (dom store))
   \<and> (\<forall>t. objects (snd (rp_capture_files L dir False w)) t =
          (case objects w t of
             Some b \<Rightarrow> Some b
           | None \<Rightarrow>
               map_option d_data
                 (find (\<lambda>f. is_file f \<and> digest16 L f \<notin> capture_exclude w \<and> target_rp L f = t)
                    (iterdir w dir))))
   \<and> (dom (objects (snd (rp_capture_files L dir False w))) =
        dom (objects w)
          \<union> target_rp L ` {f \<in> set (iterdir w dir). is_file f \<and> digest16 L f \<notin> capture_exclude w})
   \<and> rp_capture_files L dir False (snd (rp_capture_files L dir False w)) =
       rp_capture_files L dir False w
   \<and> rp_capture_files L dir False (snd (rp_capture_files L dir True w)) =
       (Map.empty, snd (rp_capture_files L dir True w))
   \<and> objects (snd (rp_capture_files L dir True w)) = objects w
   \<and> (\<forall>(f :: dirent) (g :: dirent). d_data f = d_data g \<longrightarrow> target_rp L f = target_rp L g)
   \<and> (\<forall>(f :: dirent) (g :: dirent) e st. is_file f \<and> is_file g \<and> d_data f = d_data g
              \<and> digest16 L f \<notin> e \<longrightarrow>
          dom (snd (snd (rp_capture_loop L False [f, g] (Map.empty, e, st))))
            = insert (target_rp L f) (dom st)
          \<and> dom (snd (snd (rp_capture_loop L False [g]
                   (Map.empty, e, snd (snd (rp_capture_loop L False [f] (Map.empty, e, st)))))))
              = insert (target_rp L f) (dom st))"
proof (intro conjI allI impI)
  fix t
  show "snd (capture_files L d excluded False store) t =
          (case store t of
             Some b \<Rightarrow> Some b
           | None \<Rightarrow>
               map_option d_data (find (\<lambda>f. selected L excluded f \<and> target_ci L f = t) d))"
    by (rule capture_files_content)
next
  show "dom (snd (capture_files L d excluded False store)) =
      dom store \<union> target_ci L ` {f \<in> set d. selected L excluded f}"
    by (rule capture_files_dom)
next
  fix t b assume "store t = Some b"
  then show "snd (capture_files L d excluded False store) t = Some b"
    by (rule capture_files_preserves)
next
  show "capture_files L d excluded False (snd (capture_files L d excluded False store)) =
       capture_files L d excluded False store"
    by (rule capture_files_idem)
next
  show "capture_files L d None True store = (Digests (digest16 L ` {f \<in> set d. is_file f}), store)"
    by (rule capture_files_as_set)
next
  show "capture_files L d (Some (the_digests (fst (capture_files L d None True store)))) False store
       = (Captured Map.empty, store)"
    unfolding capture_files_as_set by (simp add: capture_files_baseline)
next
  fix f g :: dirent
  assume "is_file f \<and> is_file g \<and> d_data f = d_data g
              \<and> suffix_of (d_path f) = suffix_of (d_path g)"
  then show "target_ci L f = target_ci L g" by (elim conjE) (rule target_ci_cong)
next
  fix f g :: dirent
  assume "is_file f \<and> is_file g \<and> d_data f = d_data g
              \<and> suffix_of (d_path f) = suffix_of (d_path g)"
  then show "dom (snd (capture_files L [g] None False (snd (capture_files L [f] None False store))))
              = insert (target_ci L f) (dom store)"
    by (elim conjE) (rule capture_twice_one_object)
next
  fix t
  show "objects (snd (rp_capture_files L dir False w)) t =
          (case objects w t of
             Some b \<Rightarrow> Some b
           | None \<Rightarrow>
               map_option d_data
                 (find (\<lambda>f. is_file f \<and> digest16 L f \<notin> capture_exclude w \<and> target_rp L f = t)
                    (iterdir w dir)))"
    by (rule rp_capture_files_content)
next
  show "dom (objects (snd (rp_capture_files L dir False w))) =
        dom (objects w)
          \<union> target_rp L ` {f \<in> set (iterdir w dir). is_file f \<and> digest16 L f \<notin> capture_exclude w}"
    by (rule rp_capture_files_dom)
next
  show "rp_capture_files L dir False (snd (rp_capture_files L dir False w)) =
       rp_capture_files L dir False w"
    by (rule rp_capture_files_idem)
next
  show "rp_capture_files L dir False (snd (rp_capture_files L dir True w)) =
       (Map.empty, snd (rp_capture_files L dir True w))"
    by (rule rp_capture_files_after_baseline)
next
  show "objects (snd (rp_capture_files L dir True w)) = objects w"
    by (simp add: rp_capture_files_baseline_world)
next
  fix f g :: dirent
  assume "d_data f = d_data g"
  then show "target_rp L f = target_rp L g"
    by (rule target_rp_content)
next
  fix f g :: dirent and e :: "string set" and st :: "path \<rightharpoonup> bytes"
  assume "is_file f \<and> is_file g \<and> d_data f = d_data g \<and> digest16 L f \<notin> e"
  then show "dom (snd (snd (rp_capture_loop L False [f, g] (Map.empty, e, st))))
            = insert (target_rp L f) (dom st)"
    by (elim conjE) (rule rp_capture_pair_one_object)
next
  fix f g :: dirent and e :: "string set" and st :: "path \<rightharpoonup> bytes"
  assume "is_file f \<and> is_file g \<and> d_data f = d_data g \<and> digest16 L f \<notin> e"
  then show "dom (snd (snd (rp_capture_loop L False [g]
                   (Map.empty, e, snd (snd (rp_capture_loop L False [f] (Map.empty, e, st)))))))
              = insert (target_rp L f) (dom st)"
    by (elim conjE) (rule rp_capture_twice_one_object)
qed

lemma same_bytes_same_suffix:
  "is_file out_pdf \<and> is_file copy_pdf \<and> d_data out_pdf = d_data copy_pdf
     \<and> suffix_of (d_path out_pdf) = suffix_of (d_path copy_pdf)"
  by (simp add: out_pdf_def copy_pdf_def suffix_of_def basename_def)

lemma same_bytes_other_suffix:
  "is_file out_pdf \<and> is_file out_bak \<and> d_data out_pdf = d_data out_bak
     \<and> digest16 toy out_pdf \<notin> {}"
  by (simp add: out_pdf_def out_bak_def)

theorem capture_files_dedup_witness:
  "is_file out_pdf \<and> is_file copy_pdf \<and> d_data out_pdf = d_data copy_pdf
   \<and> suffix_of (d_path out_pdf) = suffix_of (d_path copy_pdf)
   \<and> dom (snd (capture_files toy [copy_pdf] None False
                 (snd (capture_files toy [out_pdf] None False Map.empty))))
        = {target_ci toy out_pdf}
   \<and> snd (capture_files toy [out_pdf] None False Map.empty) (target_ci toy out_pdf)
        = Some ''%PDF-1.5''
   \<and> is_file out_bak \<and> d_data out_pdf = d_data out_bak
   \<and> suffix_of (d_path out_pdf) \<noteq> suffix_of (d_path out_bak)
   \<and> target_rp toy out_pdf = target_rp toy out_bak
   \<and> dom (snd (snd (rp_capture_loop toy False [out_pdf, out_bak] (Map.empty, {}, Map.empty))))
        = {target_rp toy out_pdf}"
proof -
  note t = capture_files_dedup [of toy "[out_pdf]" None Map.empty "[]" empty_world]
  have "\<forall>(f :: dirent) (g :: dirent). is_file f \<and> is_file g \<and> d_data f = d_data g
              \<and> suffix_of (d_path f) = suffix_of (d_path g) \<longrightarrow>
          target_ci toy f = target_ci toy g
          \<and> dom (snd (capture_files toy [g] None False
                        (snd (capture_files toy [f] None False Map.empty))))
              = insert (target_ci toy f) (dom (Map.empty :: path \<rightharpoonup> bytes))"
    using t by (elim conjE)
  from this [rule_format, of out_pdf copy_pdf, OF same_bytes_same_suffix]
  have a: "dom (snd (capture_files toy [copy_pdf] None False
                        (snd (capture_files toy [out_pdf] None False Map.empty))))
              = {target_ci toy out_pdf}"
    by simp
  have "\<forall>t. snd (capture_files toy [out_pdf] None False Map.empty) t =
          (case (Map.empty :: path \<rightharpoonup> bytes) t of
             Some b \<Rightarrow> Some b
           | None \<Rightarrow>
               map_option d_data
                 (find (\<lambda>f. selected toy None f \<and> target_ci toy f = t) [out_pdf]))"
    using t by (elim conjE)
  from this [rule_format, of "target_ci toy out_pdf"]
  have b: "snd (capture_files toy [out_pdf] None False Map.empty) (target_ci toy out_pdf)
        = Some ''%PDF-1.5''"
    by (simp add: selected_def is_excluded_def out_pdf_def)
  have "\<forall>(f :: dirent) (g :: dirent). d_data f = d_data g \<longrightarrow> target_rp toy f = target_rp toy g"
    using t by (elim conjE)
  from this [rule_format, of out_pdf out_bak]
  have c: "target_rp toy out_pdf = target_rp toy out_bak"
    by (simp add: out_pdf_def out_bak_def)
  have "\<forall>(f :: dirent) (g :: dirent) e st. is_file f \<and> is_file g \<and> d_data f = d_data g
              \<and> digest16 toy f \<notin> e \<longrightarrow>
          dom (snd (snd (rp_capture_loop toy False [f, g] (Map.empty, e, st))))
            = insert (target_rp toy f) (dom st)
          \<and> dom (snd (snd (rp_capture_loop toy False [g]
                   (Map.empty, e, snd (snd (rp_capture_loop toy False [f] (Map.empty, e, st)))))))
              = insert (target_rp toy f) (dom st)"
    using t by (elim conjE)
  from this [rule_format, of out_pdf out_bak "{}" Map.empty, OF same_bytes_other_suffix]
  have d: "dom (snd (snd (rp_capture_loop toy False [out_pdf, out_bak]
                                 (Map.empty, {}, Map.empty))))
            = {target_rp toy out_pdf}"
    by simp
  have e: "suffix_of (d_path out_pdf) \<noteq> suffix_of (d_path out_bak)"
    by code_simp
  have f: "is_file out_pdf \<and> is_file copy_pdf \<and> d_data out_pdf = d_data copy_pdf
     \<and> suffix_of (d_path out_pdf) = suffix_of (d_path copy_pdf)"
    by (rule same_bytes_same_suffix)
  have g: "is_file out_bak \<and> d_data out_pdf = d_data out_bak"
    using same_bytes_other_suffix by (elim conjE) (intro conjI)
  show ?thesis
    using f a b g e c d by (elim conjE) (intro conjI)
qed

text \<open>
  The claim as first stated fails in report\_ci.py for different filenames: two files with
  the same bytes and different suffixes are stored as two objects.
\<close>

theorem capture_files_suffix_counterexample:
  "is_file out_pdf \<and> is_file out_bak \<and> d_data out_pdf = d_data out_bak
   \<and> target_ci toy out_pdf \<noteq> target_ci toy out_bak
   \<and> dom (snd (capture_files toy [out_pdf, out_bak] None False Map.empty))
        = {target_ci toy out_pdf, target_ci toy out_bak}"
proof -
  have a: "is_file out_pdf \<and> is_file out_bak \<and> d_data out_pdf = d_data out_bak"
    by (simp add: out_pdf_def out_bak_def)
  have b: "target_ci toy out_pdf \<noteq> target_ci toy out_bak"
    by code_simp
  have c: "dom (snd (capture_files toy [out_pdf, out_bak] None False Map.empty))
        = {target_ci toy out_pdf, target_ci toy out_bak}"
    unfolding capture_files_dom using a by (auto simp: selected_def is_excluded_def)
  from a b c show ?thesis by simp
qed
section \<open>Properties of the sandbox extractor\<close>

lemma cwd_write_file [simp]: "cwd (write_file w p b) = cwd w"
  by (simp add: write_file_def)

lemma cwd_mkdtemp [simp]: "cwd (snd (mkdtemp L w)) = cwd w"
  by (simp add: mkdtemp_def Let_def)

lemma fst_mkdtemp [simp]: "fst (mkdtemp L w) = tmpname L (tmp_counter w)"
  by (simp add: mkdtemp_def Let_def)

text \<open>
  When the check of \<open>safe_extract\<close> rejects a member, the constructor of report\_ci.py
  raises before any member is written: the world holds the new directory and the data file
  only.
\<close>

lemma TestEnv_init_rejected:
  assumes "gunzip L (s_bytes smp) = Inr data" and "tar_members L data = Some members"
    and "check_members (cwd w) (tmpname L (tmp_counter w)) members = Some e"
    and "stem (s_path smp) \<noteq> ''.''" and "stem (s_path smp) \<noteq> ''..''"
  shows "TestEnv_init L smp True w =
           (Inl e, write_file (snd (mkdtemp L w))
                     (join (tmpname L (tmp_counter w)) (stem (s_path smp))) data)"
  using assms
  by (simp add: TestEnv_init_def safe_extract_def Let_def split: prod.splits)
     (simp add: mkdtemp_def Let_def)

text \<open>
  Claim C1, on the code. The check compares the normalised paths as strings. In
  report\_ci.py and prepare\_dataset.py a member named \<open>../tmpttrac2/evil\<close> in the workspace
  \<open>/tmp/tmpttrac\<close> passes the check and is written to \<open>/tmp/tmpttrac2/evil\<close>, outside the
  workspace; report.py extracts without any check and writes \<open>../evil\<close> to \<open>/tmp/evil\<close>.
\<close>

theorem traversal_not_rejected:
  "is_within_directory ''/home/ci'' ''/tmp/tmpttrac'' (join ''/tmp/tmpttrac'' ''../tmpttrac2/evil'')
   \<and> \<not> is_below ''/tmp/tmpttrac'' (normpath (join ''/tmp/tmpttrac'' ''../tmpttrac2/evil''))
   \<and> fst (TestEnv_init toy sibling_archive True empty_world) = Inr ''/tmp/tmpttrac''
   \<and> files (snd (TestEnv_init toy sibling_archive True empty_world))
        = [(''/tmp/tmpttrac2/evil'', ''pwned'')]
   \<and> fst (pd_TestEnv_init toy sibling_archive empty_world) = Inr ''/tmp/tmpttrac''
   \<and> files (snd (pd_TestEnv_init toy sibling_archive empty_world))
        = [(''/tmp/tmpttrac2/evil'', ''pwned'')]
   \<and> fst (rp_TestEnv_init toy_rp dotdot_archive empty_world) = Inr ''/tmp/tmpttrac''
   \<and> files (snd (rp_TestEnv_init toy_rp dotdot_archive empty_world))
        = [(''/tmp/evil'', ''pwned'')]
   \<and> \<not> is_below ''/tmp/tmpttrac'' ''/tmp/evil''"
proof (intro conjI)
  show "is_within_directory ''/home/ci'' ''/tmp/tmpttrac''
          (join ''/tmp/tmpttrac'' ''../tmpttrac2/evil'')"
    by code_simp
  show "\<not> is_below ''/tmp/tmpttrac'' (normpath (join ''/tmp/tmpttrac'' ''../tmpttrac2/evil''))"
    by code_simp
  show "fst (TestEnv_init toy sibling_archive True empty_world) = Inr ''/tmp/tmpttrac''"
    by code_simp
  show "files (snd (TestEnv_init toy sibling_archive True empty_world))
        = [(''/tmp/tmpttrac2/evil'', ''pwned'')]"
    by code_simp
  show "fst (pd_TestEnv_init toy sibling_archive empty_world) = Inr ''/tmp/tmpttrac''"
    by code_simp
  show "files (snd (pd_TestEnv_init toy sibling_archive empty_world))
        = [(''/tmp/tmpttrac2/evil'', ''pwned'')]"
    by code_simp
  show "fst (rp_TestEnv_init toy_rp dotdot_archive empty_world) = Inr ''/tmp/tmpttrac''"
    by code_simp
  show "files (snd (rp_TestEnv_init toy_rp dotdot_archive empty_world))
        = [(''/tmp/evil'', ''pwned'')]"
    by code_simp
  show "\<not> is_below ''/tmp/tmpttrac'' ''/tmp/evil''"
    by code_simp
qed

text \<open>
  Once the \<open>with\<close> block is entered, the workspace is removed whether the body returns a
  value or an error: the directory is gone and no file is left below it.
\<close>

lemma rmtree_removes:
  "d \<notin> set (dirs (rmtree w d)) \<and> (\<forall>q \<in> fst ` set (files (rmtree w d)). \<not> is_below d q)"
  by (auto simp: rmtree_def)

lemma with_TestEnv_entered:
  "d \<notin> set (dirs (snd (with_TestEnv (Inr d, w) body)))
   \<and> (\<forall>q \<in> fst ` set (files (snd (with_TestEnv (Inr d, w) body))). \<not> is_below d q)"
  using rmtree_removes by (simp add: with_TestEnv_def split: prod.splits)

text \<open>
  Claim C2, on the code. When the constructor raises, here on a member that the check
  rejects or on bytes that are not a gzip stream, the \<open>with\<close> block is never entered and
  nothing removes the workspace: after \<open>do_work\<close> the directory and the data file inside
  it are still there.
\<close>

theorem workspace_left_behind:
  "raised (fst (do_work toy dotdot_archive ''main.tex'' ''/bin/tectonic'' empty_world)) PathTraversal
   \<and> dirs (snd (do_work toy dotdot_archive ''main.tex'' ''/bin/tectonic'' empty_world))
        = [''/tmp/tmpttrac'']
   \<and> files (snd (do_work toy dotdot_archive ''main.tex'' ''/bin/tectonic'' empty_world))
        = [(''/tmp/tmpttrac/0704.0002'', ''TAR-dotdot'')]
   \<and> is_below ''/tmp/tmpttrac'' ''/tmp/tmpttrac/0704.0002''
   \<and> raised (fst (do_work toy broken_sample ''main.tex'' ''/bin/tectonic'' empty_world)) BadGzipFile
   \<and> dirs (snd (do_work toy broken_sample ''main.tex'' ''/bin/tectonic'' empty_world)) = [''/tmp/tmpttrac'']"
proof (intro conjI)
  show "raised (fst (do_work toy dotdot_archive ''main.tex'' ''/bin/tectonic'' empty_world)) PathTraversal"
    by code_simp
  show "dirs (snd (do_work toy dotdot_archive ''main.tex'' ''/bin/tectonic'' empty_world))
        = [''/tmp/tmpttrac'']"
    by code_simp
  show "files (snd (do_work toy dotdot_archive ''main.tex'' ''/bin/tectonic'' empty_world))
        = [(''/tmp/tmpttrac/0704.0002'', ''TAR-dotdot'')]"
    by code_simp
  show "is_below ''/tmp/tmpttrac'' ''/tmp/tmpttrac/0704.0002''"
    by code_simp
  show "raised (fst (do_work toy broken_sample ''main.tex'' ''/bin/tectonic'' empty_world)) BadGzipFile"
    by code_simp
  show "dirs (snd (do_work toy broken_sample ''main.tex'' ''/bin/tectonic'' empty_world)) = [''/tmp/tmpttrac'']"
    by code_simp
qed

section \<open>Archive mode in the pipeline\<close>

lemma files_write_file:
  "files (write_file w p b) = (p, b) # filter (\<lambda>(q, _). q \<noteq> p) (files w)"
  by (simp add: write_file_def)

lemma map_of_filter_neq:
  "map_of (filter (\<lambda>(q, _). q \<noteq> k) fs) q = (if q = k then None else map_of fs q)"
  by (induction fs) auto

lemma files_mkdir: "files (snd (mkdir w n)) = files w"
  by (simp add: mkdir_def split: sum.splits prod.splits)

lemma cwd_mkdir: "cwd (snd (mkdir w n)) = cwd w"
  by (simp add: mkdir_def split: sum.splits prod.splits)

lemma files_makedirs: "files (snd (makedirs w n)) = files w"
proof (induction w n rule: makedirs.induct)
  case (1 w name)
  show ?case
  proof (cases "split_head name \<noteq> [] \<and> split_tail name \<noteq> [] \<and> \<not> path_exists w (split_head name)")
    case True
    then have ih: "files (snd (makedirs w (split_head name))) = files w"
      by (rule 1)
    obtain r w1 where m: "makedirs w (split_head name) = (r, w1)"
      by (cases "makedirs w (split_head name)")
    with ih have w1: "files w1 = files w"
      by simp
    show ?thesis
      by (subst makedirs.simps) (simp add: True m w1 files_mkdir split: option.splits)
  next
    case False
    then have "makedirs w name = mkdir w name"
      by (subst makedirs.simps) auto
    then show ?thesis
      by (simp add: files_mkdir)
  qed
qed

lemma cwd_makedirs: "cwd (snd (makedirs w n)) = cwd w"
proof (induction w n rule: makedirs.induct)
  case (1 w name)
  show ?case
  proof (cases "split_head name \<noteq> [] \<and> split_tail name \<noteq> [] \<and> \<not> path_exists w (split_head name)")
    case True
    then have ih: "cwd (snd (makedirs w (split_head name))) = cwd w"
      by (rule 1)
    obtain r w1 where m: "makedirs w (split_head name) = (r, w1)"
      by (cases "makedirs w (split_head name)")
    with ih have w1: "cwd w1 = cwd w"
      by simp
    show ?thesis
      by (subst makedirs.simps) (simp add: True m w1 cwd_mkdir split: option.splits)
  next
    case False
    then have "makedirs w name = mkdir w name"
      by (subst makedirs.simps) auto
    then show ?thesis
      by (simp add: cwd_mkdir)
  qed
qed

lemma walk_resolved: "walk w cur cs = Inr q \<Longrightarrow> q = resolved cur cs"
  by (induction cs arbitrary: cur) (auto split: if_splits)

lemma open_write_success:
  assumes "open_write w p b = (None, w')"
  shows "w' = write_file w
                (child_of (resolved ''/'' (butlast (components (cwd w) p)))
                   (last (components (cwd w) p))) b"
proof -
  obtain par c where c: "create_at w p = Inr (par, c)"
    using assms by (auto simp: open_write_def split: sum.splits)
  have ne: "components (cwd w) p \<noteq> []"
    using assms c by (auto simp: open_write_def create_at_def Let_def split: if_splits)
  have "par = resolved ''/'' (butlast (components (cwd w) p)) \<and> c = last (components (cwd w) p)"
    using c ne walk_resolved [of w "''/''" "butlast (components (cwd w) p)"]
    by (auto simp: create_at_def Let_def split: if_splits sum.splits)
  then show ?thesis
    using assms c by (auto simp: open_write_def split: if_splits)
qed

lemma extract_member_success:
  assumes "extract_member w p m = (None, w')"
  shows "files w' = (member_target (cwd w) p m, t_data m)
                      # filter (\<lambda>(q, _). q \<noteq> member_target (cwd w) p m) (files w)
         \<and> cwd w' = cwd w"
proof -
  let ?t = "rstrip_slash (join p (t_name m))"
  have "\<exists>w1. files w1 = files w \<and> cwd w1 = cwd w \<and> open_write w1 ?t (t_data m) = (None, w')"
  proof (cases "dirname ?t \<noteq> [] \<and> \<not> path_exists w (dirname ?t)")
    case True
    obtain r w1 where m: "makedirs w (dirname ?t) = (r, w1)"
      by (cases "makedirs w (dirname ?t)")
    have f: "files w1 = files w" "cwd w1 = cwd w"
      using files_makedirs [of w "dirname ?t"] cwd_makedirs [of w "dirname ?t"] m by simp_all
    have "open_write w1 ?t (t_data m) = (None, w')"
      using assms True m by (auto simp: extract_member_def Let_def split: option.splits)
    with f show ?thesis
      by blast
  next
    case False
    then have "open_write w ?t (t_data m) = (None, w')"
      using assms by (auto simp: extract_member_def Let_def)
    then show ?thesis
      by blast
  qed
  then obtain w1 where w1: "files w1 = files w" "cwd w1 = cwd w"
      "open_write w1 ?t (t_data m) = (None, w')"
    by blast
  from open_write_success [OF w1(3)] w1(1,2) show ?thesis
    by (simp add: member_target_def Let_def files_write_file write_file_def)
qed

lemma extractall_success:
  "extractall w p ms = (None, w') \<Longrightarrow>
     files w' =
       foldl (\<lambda>fs m. (member_target (cwd w) p m, t_data m)
                       # filter (\<lambda>(q, _). q \<noteq> member_target (cwd w) p m) fs) (files w) ms
     \<and> cwd w' = cwd w"
proof (induction ms arbitrary: w)
  case Nil
  then show ?case by simp
next
  case (Cons m ms)
  obtain r w1 where e: "extract_member w p m = (r, w1)"
    by (cases "extract_member w p m")
  with Cons.prems have r: "r = None" and rest: "extractall w1 p ms = (None, w')"
    by (auto split: option.splits)
  from extract_member_success [of w p m w1] e r
  have f: "files w1 = (member_target (cwd w) p m, t_data m)
                      # filter (\<lambda>(q, _). q \<noteq> member_target (cwd w) p m) (files w)"
    and c: "cwd w1 = cwd w"
    by simp_all
  from Cons.IH [OF rest] show ?case
    by (simp add: f c)
qed

lemma find_append_case:
  "find P (xs @ ys) = (case find P xs of Some x \<Rightarrow> Some x | None \<Rightarrow> find P ys)"
  by (induction xs) auto

lemma map_of_foldl_written:
  "map_of (foldl (\<lambda>fs m. (tg m, dt m) # filter (\<lambda>(q, _). q \<noteq> tg m) fs) fs0 ms) q =
     (case find (\<lambda>m. tg m = q) (rev ms) of
        Some m \<Rightarrow> Some (dt m)
      | None \<Rightarrow> map_of fs0 q)"
  by (induction ms arbitrary: fs0) (auto simp: find_append_case map_of_filter_neq split: option.splits)

lemma find_distinct:
  "distinct (map f xs) \<Longrightarrow> m \<in> set xs \<Longrightarrow> find (\<lambda>x. f x = f m) xs = Some m"
  by (induction xs) auto

lemma TestEnv_init_flat:
  assumes "gunzip L (s_bytes smp) = Inr data"
    and "stem (s_path smp) \<noteq> ''.''" and "stem (s_path smp) \<noteq> ''..''"
  shows "TestEnv_init L smp False w =
           (Inr (tmpname L (tmp_counter w)),
            write_file (snd (mkdtemp L w))
              (join (tmpname L (tmp_counter w)) (stem (s_path smp))) data)"
  using assms by (simp add: TestEnv_init_def mkdtemp_def Let_def)

lemma TestEnv_init_tar:
  assumes "gunzip L (s_bytes smp) = Inr data"
    and "stem (s_path smp) \<noteq> ''.''" and "stem (s_path smp) \<noteq> ''..''"
  shows "TestEnv_init L smp True w =
           (case tar_members L data of
              None \<Rightarrow>
                (Inl ReadError,
                 write_file (snd (mkdtemp L w))
                   (join (tmpname L (tmp_counter w)) (stem (s_path smp))) data)
            | Some members \<Rightarrow>
                (case safe_extract
                        (write_file (snd (mkdtemp L w))
                           (join (tmpname L (tmp_counter w)) (stem (s_path smp))) data)
                        (tmpname L (tmp_counter w)) members of
                   (Some e, w3) \<Rightarrow> (Inl e, w3)
                 | (None, w3) \<Rightarrow>
                     (Inr (tmpname L (tmp_counter w)),
                      unlink w3 (join (tmpname L (tmp_counter w)) (stem (s_path smp))))))"
  using assms
  by (simp add: TestEnv_init_def mkdtemp_def Let_def split: option.splits prod.splits)

text \<open>
  When the constructor succeeds in archive mode, every member passed the check and was
  extracted, and the data file was removed from the world the extraction left.
\<close>

lemma TestEnv_init_tar_success:
  assumes g: "gunzip L (s_bytes smp) = Inr data" and tm: "tar_members L data = Some members"
    and ok: "fst (TestEnv_init L smp True w) = Inr d"
    and st: "stem (s_path smp) \<noteq> ''.''" "stem (s_path smp) \<noteq> ''..''"
  shows "d = tmpname L (tmp_counter w)
         \<and> check_members (cwd w) (tmpname L (tmp_counter w)) members = None
         \<and> (\<exists>w3. extractall
                    (write_file (snd (mkdtemp L w))
                       (join (tmpname L (tmp_counter w)) (stem (s_path smp))) data)
                    (tmpname L (tmp_counter w)) members = (None, w3)
                \<and> snd (TestEnv_init L smp True w) =
                    unlink w3 (join (tmpname L (tmp_counter w)) (stem (s_path smp))))"
proof -
  let ?tmp = "tmpname L (tmp_counter w)"
  let ?w2 = "write_file (snd (mkdtemp L w)) (join ?tmp (stem (s_path smp))) data"
  obtain r w3 where s: "safe_extract ?w2 ?tmp members = (r, w3)"
    by (cases "safe_extract ?w2 ?tmp members")
  have i: "TestEnv_init L smp True w =
             (case r of Some e \<Rightarrow> (Inl e, w3)
              | None \<Rightarrow> (Inr ?tmp, unlink w3 (join ?tmp (stem (s_path smp)))))"
    unfolding TestEnv_init_tar [OF g st] tm using s by (simp split: option.splits)
  with ok have r: "r = None" and d: "d = ?tmp"
    by (auto split: option.splits)
  have c: "cwd ?w2 = cwd w"
    by (simp add: write_file_def mkdtemp_def Let_def)
  from s r have "check_members (cwd w) ?tmp members = None
                 \<and> extractall ?w2 ?tmp members = (None, w3)"
    unfolding safe_extract_def c by (auto split: option.splits)
  with i r d show ?thesis
    by simp
qed

text \<open>
  The listing of a fresh workspace after the constructor in flat mode: one regular file,
  named by the stem, with the decompressed bytes.
\<close>

lemma filter_none: "\<forall>x \<in> set xs. \<not> P x \<Longrightarrow> filter P xs = []"
  by (induction xs) auto

lemma iterdir_flat:
  assumes fresh: "\<forall>q \<in> set (dirs w @ map fst (files w)). \<not> is_below tmp q"
    and n: "name \<noteq> []" "CHR ''/'' \<notin> set name" and t: "tmp \<noteq> []" "last tmp \<noteq> CHR ''/''"
  shows "iterdir (write_file (w\<lparr>dirs := tmp # dirs w, tmp_counter := k\<rparr>) (join tmp name) data) tmp
           = [\<lparr>d_path = join tmp name, is_file = True, d_data = data\<rparr>]"
proof -
  let ?p = "tmp @ CHR ''/'' # name"
  let ?w = "write_file (w\<lparr>dirs := tmp # dirs w, tmp_counter := k\<rparr>) ?p data"
  have hd: "hd name \<noteq> CHR ''/''"
    using n by (cases name) auto
  have j: "join tmp name = ?p"
    using n t hd by (simp add: join_def)
  have b: "is_below tmp ?p"
    using n by (simp add: is_below_def)
  have nb: "\<not> is_below tmp tmp"
    by (simp add: is_below_def)
  have f1: "filter (is_below tmp) (map fst (filter (\<lambda>(q, _). q \<noteq> ?p) (files w))) = []"
    using fresh by (intro filter_none) auto
  have f2: "filter (is_below tmp) (dirs w) = []"
    using fresh by (intro filter_none) auto
  have fw: "files ?w = (?p, data) # filter (\<lambda>(q, _). q \<noteq> ?p) (files w)"
    by (simp add: write_file_def)
  have dw: "dirs ?w = tmp # dirs w"
    by (simp add: write_file_def)
  have below: "filter (is_below tmp) (map fst (files ?w) @ dirs ?w) = [?p]"
    unfolding fw dw using b nb f1 f2 by simp
  have tw: "takeWhile (\<lambda>c. c \<noteq> CHR ''/'') name = name"
    using n by (auto simp: takeWhile_eq_all_conv)
  have nm: "map (\<lambda>q. takeWhile (\<lambda>c. c \<noteq> CHR ''/'') (drop (Suc (length tmp)) q)) [?p] = [name]"
    by (simp add: tw)
  have m: "map_of (files ?w) (tmp @ ''/'' @ name) = Some data"
    unfolding fw by simp
  show ?thesis
    unfolding j iterdir_def Let_def below nm using m by simp
qed

text \<open>Nothing after the constructor reads the tar archive.\<close>

lemma capture_loop_tar_members:
  "capture_loop (L\<lparr>tar_members := f\<rparr>) excluded as_set d st = capture_loop L excluded as_set d st"
  by (induction L excluded as_set d st rule: capture_loop.induct)
     (simp_all add: digest16_def target_ci_def)

lemma capture_files_tar_members:
  "capture_files (L\<lparr>tar_members := f\<rparr>) d excluded as_set st = capture_files L d excluded as_set st"
  by (simp add: capture_files_def capture_loop_tar_members)

lemma compile_in_tar_members:
  "compile_in (L\<lparr>tar_members := f\<rparr>) smp maindoc tectonic d w = compile_in L smp maindoc tectonic d w"
  unfolding compile_in_def capture_files_tar_members by simp

lemma TestEnv_init_flat_tar_members:
  "TestEnv_init (L\<lparr>tar_members := f\<rparr>) smp False w = TestEnv_init L smp False w"
  by (simp add: TestEnv_init_def mkdtemp_def Let_def split: sum.splits)

text \<open>
  The body of the \<open>with\<close> block, with the baseline capture evaluated: the compiler is run
  once, on \<open>d / maindoc\<close> in the workspace, on the world the constructor left.
\<close>

lemma compile_in_run:
  "compile_in L smp maindoc tectonic d w1 =
     (case run_proc L ([tectonic] @ ARGUMENTS @ [join d maindoc]) d 600 w1 of
        (test, w2) \<Rightarrow>
          (case statuscode_of test of
             Inl e \<Rightarrow> (Inl e, w2)
           | Inr statuscode \<Rightarrow>
               (case capture_files L (iterdir w2 d)
                       (Some (digest16 L ` {f \<in> set (iterdir w1 d). is_file f})) False (objects w2) of
                  (results, store2) \<Rightarrow>
                    (Inr \<lparr>r_sample = stem (s_path smp), r_statuscode = statuscode,
                          r_results = the_captured results\<rparr>,
                     w2\<lparr>objects := store2\<rparr>))))"
proof -
  have same: "w1\<lparr>objects := objects w1\<rparr> = w1"
    by simp
  show ?thesis
    unfolding compile_in_def capture_files_as_set
    by (simp add: same split: prod.splits sum.splits)
qed

lemma do_work_flat_tar_members:
  assumes "maindoc = stem (s_path smp)"
  shows "do_work (L\<lparr>tar_members := f\<rparr>) smp maindoc tectonic w = do_work L smp maindoc tectonic w"
proof -
  have "compile_in (L\<lparr>tar_members := f\<rparr>) smp maindoc tectonic = compile_in L smp maindoc tectonic"
    by (intro ext) (rule compile_in_tar_members)
  then show ?thesis
    using assms by (simp add: do_work_def TestEnv_init_flat_tar_members)
qed

lemma do_work_entered:
  assumes "fst (TestEnv_init L smp (maindoc \<noteq> stem (s_path smp)) w) = Inr d"
  shows "do_work L smp maindoc tectonic w =
           (case run_proc L ([tectonic] @ ARGUMENTS @ [join d maindoc]) d 600
                   (snd (TestEnv_init L smp (maindoc \<noteq> stem (s_path smp)) w)) of
              (test, w2) \<Rightarrow>
                (case statuscode_of test of
                   Inl e \<Rightarrow> (Inl e, rmtree w2 d)
                 | Inr statuscode \<Rightarrow>
                     (case capture_files L (iterdir w2 d)
                             (Some (digest16 L `
                                {f \<in> set (iterdir
                                     (snd (TestEnv_init L smp (maindoc \<noteq> stem (s_path smp)) w)) d).
                                 is_file f}))
                             False (objects w2) of
                        (results, store2) \<Rightarrow>
                          (Inr \<lparr>r_sample = stem (s_path smp), r_statuscode = statuscode,
                                r_results = the_captured results\<rparr>,
                           rmtree (w2\<lparr>objects := store2\<rparr>) d))))"
proof -
  let ?w1 = "snd (TestEnv_init L smp (maindoc \<noteq> stem (s_path smp)) w)"
  have "do_work L smp maindoc tectonic w =
          (case compile_in L smp maindoc tectonic d ?w1 of (r, w') \<Rightarrow> (r, rmtree w' d))"
    using assms
    by (cases "TestEnv_init L smp (maindoc \<noteq> stem (s_path smp)) w")
       (simp add: do_work_def with_TestEnv_def)
  then show ?thesis
    unfolding compile_in_run
    by (simp split: prod.splits sum.splits)
qed

lemma do_work_not_entered:
  assumes "TestEnv_init L smp (maindoc \<noteq> stem (s_path smp)) w = (Inl e, w')"
  shows "do_work L smp maindoc tectonic w = (Inl e, w')"
  using assms by (simp add: do_work_def with_TestEnv_def)

lemma files_data_file:
  "map_of (files (write_file (snd (mkdtemp L w)) p data)) q =
     (if q = p then Some data else map_of (files w) q)"
  by (simp add: write_file_def mkdtemp_def Let_def map_of_filter_neq)

lemma TestEnv_init_tar_files:
  assumes g: "gunzip L (s_bytes smp) = Inr data" and tm: "tar_members L data = Some members"
    and ok: "fst (TestEnv_init L smp True w) = Inr d"
    and st: "stem (s_path smp) \<noteq> ''.''" "stem (s_path smp) \<noteq> ''..''"
  shows "map_of (files (snd (TestEnv_init L smp True w))) q =
           (if q = join (tmpname L (tmp_counter w)) (stem (s_path smp)) then None
            else (case find (\<lambda>m. member_target (cwd w) (tmpname L (tmp_counter w)) m = q)
                         (rev members) of
                    Some m \<Rightarrow> Some (t_data m)
                  | None \<Rightarrow> map_of (files w) q))"
proof -
  let ?tmp = "tmpname L (tmp_counter w)"
  let ?sdp = "join ?tmp (stem (s_path smp))"
  let ?w2 = "write_file (snd (mkdtemp L w)) ?sdp data"
  from TestEnv_init_tar_success [OF g tm ok st]
  obtain w3 where x: "extractall ?w2 ?tmp members = (None, w3)"
    and s: "snd (TestEnv_init L smp True w) = unlink w3 ?sdp"
    by blast
  have c: "cwd ?w2 = cwd w"
    by (simp add: write_file_def mkdtemp_def Let_def)
  from extractall_success [OF x]
  have f: "files w3 =
             foldl (\<lambda>fs m. (member_target (cwd w) ?tmp m, t_data m)
                       # filter (\<lambda>(q, _). q \<noteq> member_target (cwd w) ?tmp m) fs) (files ?w2) members"
    unfolding c by simp
  have u: "map_of (files (unlink w3 ?sdp)) q = (if q = ?sdp then None else map_of (files w3) q)"
    by (simp add: unlink_def map_of_filter_neq)
  have m: "map_of (files w3) q =
             (case find (\<lambda>m. member_target (cwd w) ?tmp m = q) (rev members) of
                Some m \<Rightarrow> Some (t_data m)
              | None \<Rightarrow> map_of (files ?w2) q)"
    unfolding f by (rule map_of_foldl_written)
  show ?thesis
    unfolding s u m files_data_file by (simp split: option.splits)
qed

lemma TestEnv_init_tar_member:
  assumes g: "gunzip L (s_bytes smp) = Inr data" and tm: "tar_members L data = Some members"
    and ok: "fst (TestEnv_init L smp True w) = Inr d"
    and st: "stem (s_path smp) \<noteq> ''.''" "stem (s_path smp) \<noteq> ''..''"
    and m: "m \<in> set members"
    and dist: "distinct (map (member_target (cwd w) (tmpname L (tmp_counter w))) members)"
    and ne: "member_target (cwd w) (tmpname L (tmp_counter w)) m
               \<noteq> join (tmpname L (tmp_counter w)) (stem (s_path smp))"
  shows "map_of (files (snd (TestEnv_init L smp True w)))
           (member_target (cwd w) (tmpname L (tmp_counter w)) m) = Some (t_data m)"
proof -
  have "distinct (map (member_target (cwd w) (tmpname L (tmp_counter w))) (rev members))"
    using dist by (simp add: rev_map [symmetric])
  moreover have "m \<in> set (rev members)"
    using m by simp
  ultimately have "find (\<lambda>x. member_target (cwd w) (tmpname L (tmp_counter w)) x
                              = member_target (cwd w) (tmpname L (tmp_counter w)) m) (rev members)
                     = Some m"
    by (rule find_distinct)
  then show ?thesis
    unfolding TestEnv_init_tar_files [OF g tm ok st] using ne by simp
qed

text \<open>
  Claim C10. The sample decompresses, and its stem is a file name. In \<open>do_work\<close> the
  decompressed submission is read as a tar archive and extracted exactly when the mapped
  entry filename differs from the stem of the sample.

  When they are equal, the constructor succeeds whatever the tar reader would say, and the
  world it leaves differs from the one before by the new workspace and one file in it,
  named by the stem and holding the decompressed bytes; that file is the entry document
  \<open>d / maindoc\<close>, and in a fresh workspace it is the only entry.

  When they differ, bytes that are no tar archive raise \<open>ReadError\<close> and a failed check or
  extraction raises its error, with the world as the failure left it; when the constructor
  succeeds, every member has passed the check, each path holds the bytes of the last member
  extracted to it, the data file is gone and every other file is as before.

  In both modes the body then runs the compiler once, on \<open>d / maindoc\<close> in the workspace, on
  the world the constructor left, and the workspace is removed afterwards.
\<close>

theorem do_work_archive_mode:
  assumes "gunzip L (s_bytes smp) = Inr data"
    and "stem (s_path smp) \<noteq> ''.''" and "stem (s_path smp) \<noteq> ''..''"
  shows
    "(let tmp = tmpname L (tmp_counter w);
          sdp = join tmp (stem (s_path smp));
          w2 = write_file (snd (mkdtemp L w)) sdp data;
          init = TestEnv_init L smp (maindoc \<noteq> stem (s_path smp)) w;
          body = (\<lambda>w1. case run_proc L ([tectonic] @ ARGUMENTS @ [join tmp maindoc]) tmp 600 w1 of
                    (test, w2) \<Rightarrow>
                      (case statuscode_of test of
                         Inl e \<Rightarrow> (Inl e, rmtree w2 tmp)
                       | Inr statuscode \<Rightarrow>
                           (case capture_files L (iterdir w2 tmp)
                                   (Some (digest16 L ` {f \<in> set (iterdir w1 tmp). is_file f}))
                                   False (objects w2) of
                              (results, store2) \<Rightarrow>
                                (Inr \<lparr>r_sample = stem (s_path smp), r_statuscode = statuscode,
                                      r_results = the_captured results\<rparr>,
                                 rmtree (w2\<lparr>objects := store2\<rparr>) tmp))))
      in (maindoc = stem (s_path smp) \<longrightarrow>
            init = (Inr tmp, w2)
            \<and> join tmp maindoc = sdp
            \<and> map_of (files w2) (join tmp maindoc) = Some data
            \<and> (\<forall>q. q \<noteq> sdp \<longrightarrow> map_of (files w2) q = map_of (files w) q)
            \<and> dirs w2 = tmp # dirs w
            \<and> ((\<forall>q \<in> set (dirs w @ map fst (files w)). \<not> is_below tmp q)
                 \<and> maindoc \<noteq> [] \<and> CHR ''/'' \<notin> set maindoc \<and> tmp \<noteq> [] \<and> last tmp \<noteq> CHR ''/''
               \<longrightarrow> iterdir w2 tmp = [\<lparr>d_path = join tmp maindoc, is_file = True, d_data = data\<rparr>])
            \<and> (\<forall>f. do_work (L\<lparr>tar_members := f\<rparr>) smp maindoc tectonic w
                      = do_work L smp maindoc tectonic w)
            \<and> do_work L smp maindoc tectonic w = body w2)
       \<and> (maindoc \<noteq> stem (s_path smp) \<longrightarrow>
            (tar_members L data = None \<longrightarrow>
               init = (Inl ReadError, w2)
               \<and> do_work L smp maindoc tectonic w = (Inl ReadError, w2))
            \<and> (\<forall>members e w3.
                  tar_members L data = Some members \<and> safe_extract w2 tmp members = (Some e, w3)
                  \<longrightarrow> init = (Inl e, w3) \<and> do_work L smp maindoc tectonic w = (Inl e, w3))
            \<and> (\<forall>members d.
                  tar_members L data = Some members \<and> fst init = Inr d \<longrightarrow>
                    d = tmp
                    \<and> check_members (cwd w) tmp members = None
                    \<and> (\<forall>q. map_of (files (snd init)) q =
                              (if q = sdp then None
                               else (case find (\<lambda>m. member_target (cwd w) tmp m = q) (rev members) of
                                       Some m \<Rightarrow> Some (t_data m)
                                     | None \<Rightarrow> map_of (files w) q)))
                    \<and> (\<forall>m \<in> set members.
                          distinct (map (member_target (cwd w) tmp) members)
                          \<and> member_target (cwd w) tmp m \<noteq> sdp
                          \<longrightarrow> map_of (files (snd init)) (member_target (cwd w) tmp m)
                                = Some (t_data m))
                    \<and> do_work L smp maindoc tectonic w = body (snd init))))"
proof -
  let ?tmp = "tmpname L (tmp_counter w)"
  let ?sdp = "join ?tmp (stem (s_path smp))"
  let ?w2 = "write_file (snd (mkdtemp L w)) ?sdp data"
  let ?init = "TestEnv_init L smp (maindoc \<noteq> stem (s_path smp)) w"
  let ?body = "(\<lambda>w1. case run_proc L ([tectonic] @ ARGUMENTS @ [join ?tmp maindoc]) ?tmp 600 w1 of
                    (test, w2) \<Rightarrow>
                      (case statuscode_of test of
                         Inl e \<Rightarrow> (Inl e, rmtree w2 ?tmp)
                       | Inr statuscode \<Rightarrow>
                           (case capture_files L (iterdir w2 ?tmp)
                                   (Some (digest16 L ` {f \<in> set (iterdir w1 ?tmp). is_file f}))
                                   False (objects w2) of
                              (results, store2) \<Rightarrow>
                                (Inr \<lparr>r_sample = stem (s_path smp), r_statuscode = statuscode,
                                      r_results = the_captured results\<rparr>,
                                 rmtree (w2\<lparr>objects := store2\<rparr>) ?tmp))))"
  note g = assms(1) and st = assms(2,3)
  have run: "do_work L smp maindoc tectonic w = ?body (snd ?init)" if "fst ?init = Inr ?tmp"
    using do_work_entered [OF that, of tectonic] by simp
  have flat: "?init = (Inr ?tmp, ?w2)
            \<and> join ?tmp maindoc = ?sdp
            \<and> map_of (files ?w2) (join ?tmp maindoc) = Some data
            \<and> (\<forall>q. q \<noteq> ?sdp \<longrightarrow> map_of (files ?w2) q = map_of (files w) q)
            \<and> dirs ?w2 = ?tmp # dirs w
            \<and> ((\<forall>q \<in> set (dirs w @ map fst (files w)). \<not> is_below ?tmp q)
                 \<and> maindoc \<noteq> [] \<and> CHR ''/'' \<notin> set maindoc \<and> ?tmp \<noteq> [] \<and> last ?tmp \<noteq> CHR ''/''
               \<longrightarrow> iterdir ?w2 ?tmp = [\<lparr>d_path = join ?tmp maindoc, is_file = True, d_data = data\<rparr>])
            \<and> (\<forall>f. do_work (L\<lparr>tar_members := f\<rparr>) smp maindoc tectonic w
                      = do_work L smp maindoc tectonic w)
            \<and> do_work L smp maindoc tectonic w = ?body ?w2"
    if eq: "maindoc = stem (s_path smp)"
  proof (intro conjI allI impI)
    show i: "?init = (Inr ?tmp, ?w2)"
      using eq TestEnv_init_flat [OF g st, of w] by simp
    show "join ?tmp maindoc = ?sdp"
      using eq by simp
    show "map_of (files ?w2) (join ?tmp maindoc) = Some data"
      using eq by (simp add: files_data_file)
    show "map_of (files ?w2) q = map_of (files w) q" if "q \<noteq> ?sdp" for q
      using that by (simp add: files_data_file)
    show "dirs ?w2 = ?tmp # dirs w"
      by (simp add: write_file_def mkdtemp_def Let_def)
    show "iterdir ?w2 ?tmp = [\<lparr>d_path = join ?tmp maindoc, is_file = True, d_data = data\<rparr>]"
      if "(\<forall>q \<in> set (dirs w @ map fst (files w)). \<not> is_below ?tmp q)
            \<and> maindoc \<noteq> [] \<and> CHR ''/'' \<notin> set maindoc \<and> ?tmp \<noteq> [] \<and> last ?tmp \<noteq> CHR ''/''"
    proof -
      have "iterdir (write_file (w\<lparr>dirs := ?tmp # dirs w, tmp_counter := Suc (tmp_counter w)\<rparr>)
                       (join ?tmp maindoc) data) ?tmp
              = [\<lparr>d_path = join ?tmp maindoc, is_file = True, d_data = data\<rparr>]"
        using that by (intro iterdir_flat) simp_all
      then show ?thesis
        using eq by (simp add: mkdtemp_def Let_def)
    qed
    show "do_work (L\<lparr>tar_members := f\<rparr>) smp maindoc tectonic w = do_work L smp maindoc tectonic w"
      for f
      using eq by (rule do_work_flat_tar_members)
    have "fst ?init = Inr ?tmp"
      using i by simp
    from run [OF this] show "do_work L smp maindoc tectonic w = ?body ?w2"
      unfolding i snd_conv .
  qed
  have tar: "(tar_members L data = None \<longrightarrow>
               ?init = (Inl ReadError, ?w2)
               \<and> do_work L smp maindoc tectonic w = (Inl ReadError, ?w2))
            \<and> (\<forall>members e w3.
                  tar_members L data = Some members \<and> safe_extract ?w2 ?tmp members = (Some e, w3)
                  \<longrightarrow> ?init = (Inl e, w3) \<and> do_work L smp maindoc tectonic w = (Inl e, w3))
            \<and> (\<forall>members d.
                  tar_members L data = Some members \<and> fst ?init = Inr d \<longrightarrow>
                    d = ?tmp
                    \<and> check_members (cwd w) ?tmp members = None
                    \<and> (\<forall>q. map_of (files (snd ?init)) q =
                              (if q = ?sdp then None
                               else (case find (\<lambda>m. member_target (cwd w) ?tmp m = q) (rev members) of
                                       Some m \<Rightarrow> Some (t_data m)
                                     | None \<Rightarrow> map_of (files w) q)))
                    \<and> (\<forall>m \<in> set members.
                          distinct (map (member_target (cwd w) ?tmp) members)
                          \<and> member_target (cwd w) ?tmp m \<noteq> ?sdp
                          \<longrightarrow> map_of (files (snd ?init)) (member_target (cwd w) ?tmp m)
                                = Some (t_data m))
                    \<and> do_work L smp maindoc tectonic w = ?body (snd ?init))"
    if ne: "maindoc \<noteq> stem (s_path smp)"
  proof -
    have it: "?init = TestEnv_init L smp True w"
      using ne by simp
    have a: "?init = (Inl ReadError, ?w2) \<and> do_work L smp maindoc tectonic w = (Inl ReadError, ?w2)"
      if "tar_members L data = None"
    proof -
      have "?init = (Inl ReadError, ?w2)"
        unfolding it TestEnv_init_tar [OF g st] using that by simp
      then show ?thesis
        using do_work_not_entered by blast
    qed
    have b: "?init = (Inl e, w3) \<and> do_work L smp maindoc tectonic w = (Inl e, w3)"
      if "tar_members L data = Some members \<and> safe_extract ?w2 ?tmp members = (Some e, w3)"
      for members e w3
    proof -
      have "?init = (Inl e, w3)"
        unfolding it TestEnv_init_tar [OF g st] using that by simp
      then show ?thesis
        using do_work_not_entered by blast
    qed
    have c: "d = ?tmp
                    \<and> check_members (cwd w) ?tmp members = None
                    \<and> (\<forall>q. map_of (files (snd ?init)) q =
                              (if q = ?sdp then None
                               else (case find (\<lambda>m. member_target (cwd w) ?tmp m = q) (rev members) of
                                       Some m \<Rightarrow> Some (t_data m)
                                     | None \<Rightarrow> map_of (files w) q)))
                    \<and> (\<forall>m \<in> set members.
                          distinct (map (member_target (cwd w) ?tmp) members)
                          \<and> member_target (cwd w) ?tmp m \<noteq> ?sdp
                          \<longrightarrow> map_of (files (snd ?init)) (member_target (cwd w) ?tmp m)
                                = Some (t_data m))
                    \<and> do_work L smp maindoc tectonic w = ?body (snd ?init)"
      if h: "tar_members L data = Some members \<and> fst ?init = Inr d" for members d
    proof -
      from h have tm: "tar_members L data = Some members" and ok: "fst ?init = Inr d"
        by simp_all
      from ok have ok': "fst (TestEnv_init L smp True w) = Inr d"
        unfolding it .
      from TestEnv_init_tar_success [OF g tm ok' st]
      have d: "d = ?tmp" and ch: "check_members (cwd w) ?tmp members = None"
        by simp_all
      have fl: "\<forall>q. map_of (files (snd ?init)) q =
                       (if q = ?sdp then None
                        else (case find (\<lambda>m. member_target (cwd w) ?tmp m = q) (rev members) of
                                Some m \<Rightarrow> Some (t_data m)
                              | None \<Rightarrow> map_of (files w) q))"
        unfolding it using TestEnv_init_tar_files [OF g tm ok' st] by blast
      have mb: "\<forall>m \<in> set members.
                   distinct (map (member_target (cwd w) ?tmp) members)
                   \<and> member_target (cwd w) ?tmp m \<noteq> ?sdp
                   \<longrightarrow> map_of (files (snd ?init)) (member_target (cwd w) ?tmp m)
                         = Some (t_data m)"
        unfolding it using TestEnv_init_tar_member [OF g tm ok' st] by blast
      have dw: "do_work L smp maindoc tectonic w = ?body (snd ?init)"
        using run ok d by simp
      from d ch fl mb dw show ?thesis
        by (intro conjI)
    qed
    from a have a': "tar_members L data = None \<longrightarrow>
               ?init = (Inl ReadError, ?w2)
               \<and> do_work L smp maindoc tectonic w = (Inl ReadError, ?w2)"
      by (rule impI)
    from b have b': "\<forall>members e w3.
                  tar_members L data = Some members \<and> safe_extract ?w2 ?tmp members = (Some e, w3)
                  \<longrightarrow> ?init = (Inl e, w3) \<and> do_work L smp maindoc tectonic w = (Inl e, w3)"
      by (intro allI impI)
    from c have c': "\<forall>members d.
                  tar_members L data = Some members \<and> fst ?init = Inr d \<longrightarrow>
                    d = ?tmp
                    \<and> check_members (cwd w) ?tmp members = None
                    \<and> (\<forall>q. map_of (files (snd ?init)) q =
                              (if q = ?sdp then None
                               else (case find (\<lambda>m. member_target (cwd w) ?tmp m = q) (rev members) of
                                       Some m \<Rightarrow> Some (t_data m)
                                     | None \<Rightarrow> map_of (files w) q)))
                    \<and> (\<forall>m \<in> set members.
                          distinct (map (member_target (cwd w) ?tmp) members)
                          \<and> member_target (cwd w) ?tmp m \<noteq> ?sdp
                          \<longrightarrow> map_of (files (snd ?init)) (member_target (cwd w) ?tmp m)
                                = Some (t_data m))
                    \<and> do_work L smp maindoc tectonic w = ?body (snd ?init)"
      by (intro allI impI)
    from a' b' c' show ?thesis
      by (intro conjI)
  qed
  show ?thesis
    unfolding Let_def
  proof (rule conjI)
    show "maindoc = stem (s_path smp) \<longrightarrow>
            ?init = (Inr ?tmp, ?w2)
            \<and> join ?tmp maindoc = ?sdp
            \<and> map_of (files ?w2) (join ?tmp maindoc) = Some data
            \<and> (\<forall>q. q \<noteq> ?sdp \<longrightarrow> map_of (files ?w2) q = map_of (files w) q)
            \<and> dirs ?w2 = ?tmp # dirs w
            \<and> ((\<forall>q \<in> set (dirs w @ map fst (files w)). \<not> is_below ?tmp q)
                 \<and> maindoc \<noteq> [] \<and> CHR ''/'' \<notin> set maindoc \<and> ?tmp \<noteq> [] \<and> last ?tmp \<noteq> CHR ''/''
               \<longrightarrow> iterdir ?w2 ?tmp = [\<lparr>d_path = join ?tmp maindoc, is_file = True, d_data = data\<rparr>])
            \<and> (\<forall>f. do_work (L\<lparr>tar_members := f\<rparr>) smp maindoc tectonic w
                      = do_work L smp maindoc tectonic w)
            \<and> do_work L smp maindoc tectonic w = ?body ?w2"
      using flat by (rule impI)
    show "maindoc \<noteq> stem (s_path smp) \<longrightarrow>
            (tar_members L data = None \<longrightarrow>
               ?init = (Inl ReadError, ?w2)
               \<and> do_work L smp maindoc tectonic w = (Inl ReadError, ?w2))
            \<and> (\<forall>members e w3.
                  tar_members L data = Some members \<and> safe_extract ?w2 ?tmp members = (Some e, w3)
                  \<longrightarrow> ?init = (Inl e, w3) \<and> do_work L smp maindoc tectonic w = (Inl e, w3))
            \<and> (\<forall>members d.
                  tar_members L data = Some members \<and> fst ?init = Inr d \<longrightarrow>
                    d = ?tmp
                    \<and> check_members (cwd w) ?tmp members = None
                    \<and> (\<forall>q. map_of (files (snd ?init)) q =
                              (if q = ?sdp then None
                               else (case find (\<lambda>m. member_target (cwd w) ?tmp m = q) (rev members) of
                                       Some m \<Rightarrow> Some (t_data m)
                                     | None \<Rightarrow> map_of (files w) q)))
                    \<and> (\<forall>m \<in> set members.
                          distinct (map (member_target (cwd w) ?tmp) members)
                          \<and> member_target (cwd w) ?tmp m \<noteq> ?sdp
                          \<longrightarrow> map_of (files (snd ?init)) (member_target (cwd w) ?tmp m)
                                = Some (t_data m))
                    \<and> do_work L smp maindoc tectonic w = ?body (snd ?init))"
      using tar by (rule impI)
  qed
qed

lemma flat_sample_facts:
  "gunzip toy (s_bytes flat_sample) = Inr ''Hello, world''"
  "''0704.0003'' = stem (s_path flat_sample)"
  "stem (s_path flat_sample) \<noteq> ''.''"
  "stem (s_path flat_sample) \<noteq> ''..''"
  by code_simp+

lemma paper_sample_facts:
  "gunzip toy (s_bytes paper_sample) = Inr ''TAR-paper''"
  "''main.tex'' \<noteq> stem (s_path paper_sample)"
  "tar_members toy ''TAR-paper'' =
     Some [\<lparr>t_name = ''main.tex'', t_data = backslash # ''documentclass{article}''\<rparr>,
           \<lparr>t_name = ''fig/plot.eps'', t_data = ''%!PS''\<rparr>]"
  "fst (TestEnv_init toy paper_sample True empty_world) = Inr ''/tmp/tmpttrac''"
  "stem (s_path paper_sample) \<noteq> ''.''"
  "stem (s_path paper_sample) \<noteq> ''..''"
  by code_simp+

lemma toy_workspace: "tmpname toy (tmp_counter empty_world) = ''/tmp/tmpttrac''"
  by code_simp

theorem do_work_archive_mode_witness:
  "gunzip toy (s_bytes flat_sample) = Inr ''Hello, world''
   \<and> ''0704.0003'' = stem (s_path flat_sample)
   \<and> fst (TestEnv_init toy flat_sample False empty_world) = Inr ''/tmp/tmpttrac''
   \<and> iterdir (snd (TestEnv_init toy flat_sample False empty_world)) ''/tmp/tmpttrac''
        = [\<lparr>d_path = ''/tmp/tmpttrac/0704.0003'', is_file = True, d_data = ''Hello, world''\<rparr>]
   \<and> gunzip toy (s_bytes paper_sample) = Inr ''TAR-paper''
   \<and> ''main.tex'' \<noteq> stem (s_path paper_sample)
   \<and> tar_members toy ''TAR-paper'' =
        Some [\<lparr>t_name = ''main.tex'', t_data = backslash # ''documentclass{article}''\<rparr>,
              \<lparr>t_name = ''fig/plot.eps'', t_data = ''%!PS''\<rparr>]
   \<and> fst (TestEnv_init toy paper_sample True empty_world) = Inr ''/tmp/tmpttrac''
   \<and> map_of (files (snd (TestEnv_init toy paper_sample True empty_world)))
        ''/tmp/tmpttrac/main.tex'' = Some (backslash # ''documentclass{article}'')
   \<and> map_of (files (snd (TestEnv_init toy paper_sample True empty_world)))
        ''/tmp/tmpttrac/fig/plot.eps'' = Some ''%!PS''
   \<and> map_of (files (snd (TestEnv_init toy paper_sample True empty_world)))
        ''/tmp/tmpttrac/0704.0005'' = None"
proof -
  let ?ms = "[\<lparr>t_name = ''main.tex'', t_data = backslash # ''documentclass{article}''\<rparr>,
              \<lparr>t_name = ''fig/plot.eps'', t_data = ''%!PS''\<rparr>]"
  have bf: "(''0704.0003'' \<noteq> stem (s_path flat_sample)) = False"
    using flat_sample_facts(2) by simp
  have bt: "(''main.tex'' \<noteq> stem (s_path paper_sample)) = True"
    using paper_sample_facts(2) by simp
  note tf = do_work_archive_mode
              [OF flat_sample_facts(1,3,4),
               where maindoc = "''0704.0003''" and tectonic = "''/bin/tectonic''"
                 and w = empty_world,
               unfolded Let_def, THEN conjunct1, rule_format, OF flat_sample_facts(2),
               unfolded bf toy_workspace]
  from tf have i: "TestEnv_init toy flat_sample False empty_world =
                     (Inr ''/tmp/tmpttrac'',
                      write_file (snd (mkdtemp toy empty_world))
                        (join ''/tmp/tmpttrac'' (stem (s_path flat_sample))) ''Hello, world'')"
    by (elim conjE)
  from tf have l: "(\<forall>q \<in> set (dirs empty_world @ map fst (files empty_world)).
                       \<not> is_below ''/tmp/tmpttrac'' q)
                    \<and> ''0704.0003'' \<noteq> [] \<and> CHR ''/'' \<notin> set ''0704.0003''
                    \<and> ''/tmp/tmpttrac'' \<noteq> [] \<and> last ''/tmp/tmpttrac'' \<noteq> CHR ''/''
                   \<longrightarrow> iterdir (write_file (snd (mkdtemp toy empty_world))
                                  (join ''/tmp/tmpttrac'' (stem (s_path flat_sample))) ''Hello, world'')
                         ''/tmp/tmpttrac''
                        = [\<lparr>d_path = join ''/tmp/tmpttrac'' ''0704.0003'', is_file = True,
                            d_data = ''Hello, world''\<rparr>]"
    by (elim conjE)
  have h: "(\<forall>q \<in> set (dirs empty_world @ map fst (files empty_world)).
                       \<not> is_below ''/tmp/tmpttrac'' q)
                    \<and> ''0704.0003'' \<noteq> [] \<and> CHR ''/'' \<notin> set ''0704.0003''
                    \<and> ''/tmp/tmpttrac'' \<noteq> [] \<and> last ''/tmp/tmpttrac'' \<noteq> CHR ''/''"
    by (simp add: empty_world_def)
  have j: "join ''/tmp/tmpttrac'' ''0704.0003'' = ''/tmp/tmpttrac/0704.0003''"
    by code_simp
  have a: "fst (TestEnv_init toy flat_sample False empty_world) = Inr ''/tmp/tmpttrac''"
    unfolding i by simp
  have b: "iterdir (snd (TestEnv_init toy flat_sample False empty_world)) ''/tmp/tmpttrac''
        = [\<lparr>d_path = ''/tmp/tmpttrac/0704.0003'', is_file = True, d_data = ''Hello, world''\<rparr>]"
    unfolding i snd_conv using l [rule_format, OF h] unfolding j .
  note tt = do_work_archive_mode
              [OF paper_sample_facts(1,5,6),
               where maindoc = "''main.tex''" and tectonic = "''/bin/tectonic''"
                 and w = empty_world,
               unfolded Let_def, THEN conjunct2, rule_format, OF paper_sample_facts(2),
               unfolded bt toy_workspace, THEN conjunct2, THEN conjunct2, rule_format,
               of ?ms "''/tmp/tmpttrac''", OF conjI [OF paper_sample_facts(3) paper_sample_facts(4)]]
  from tt have fl: "\<forall>q. map_of (files (snd (TestEnv_init toy paper_sample True empty_world))) q =
                       (if q = join ''/tmp/tmpttrac'' (stem (s_path paper_sample)) then None
                        else (case find (\<lambda>m. member_target (cwd empty_world) ''/tmp/tmpttrac'' m = q)
                                     (rev ?ms) of
                                Some m \<Rightarrow> Some (t_data m)
                              | None \<Rightarrow> map_of (files empty_world) q))"
    by (elim conjE)
  have c: "map_of (files (snd (TestEnv_init toy paper_sample True empty_world)))
        ''/tmp/tmpttrac/main.tex'' = Some (backslash # ''documentclass{article}'')"
    unfolding fl [rule_format] by code_simp
  have d: "map_of (files (snd (TestEnv_init toy paper_sample True empty_world)))
        ''/tmp/tmpttrac/fig/plot.eps'' = Some ''%!PS''"
    unfolding fl [rule_format] by code_simp
  have e: "map_of (files (snd (TestEnv_init toy paper_sample True empty_world)))
        ''/tmp/tmpttrac/0704.0005'' = None"
    unfolding fl [rule_format] by code_simp
  show ?thesis
    using flat_sample_facts(1,2) a b paper_sample_facts(1,2,3,4) c d e by (intro conjI)
qed

text \<open>
  The two modes on the same kind of input: in archive mode the compiler finds the extracted
  \<open>main.tex\<close> and its output is captured; a sample whose stem is \<open>.\<close> cannot be set up.
\<close>

lemma do_work_examples:
  "map_option r_statuscode
     (case fst (do_work toy paper_sample ''main.tex'' ''/bin/tectonic'' empty_world) of
        Inl e \<Rightarrow> None | Inr r \<Rightarrow> Some r) = Some 0"
  "map_option (\<lambda>r. r_results r ''main.pdf'')
     (case fst (do_work toy paper_sample ''main.tex'' ''/bin/tectonic'' empty_world) of
        Inl e \<Rightarrow> None | Inr r \<Rightarrow> Some r) = Some (Some (digest16 toy
          \<lparr>d_path = ''/tmp/tmpttrac/main.pdf'', is_file = True,
            d_data = ''%PDF'' @ backslash # ''documentclass{article}''\<rparr> @ ''.pdf''))"
  "map_option r_statuscode
     (case fst (do_work toy flat_sample ''0704.0003'' ''/bin/tectonic'' empty_world) of
        Inl e \<Rightarrow> None | Inr r \<Rightarrow> Some r) = Some 0"
  "dirs (snd (do_work toy paper_sample ''main.tex'' ''/bin/tectonic'' empty_world)) = []"
  "files (snd (do_work toy paper_sample ''main.tex'' ''/bin/tectonic'' empty_world)) = []"
  "raised (fst (do_work toy dot_sample ''main.tex'' ''/bin/tectonic'' empty_world)) IsADirectoryError"
  by code_simp+

text \<open>
  Extraction can fail after the check has passed: a member that goes through a directory
  the archive has not made yet and back out of it raises \<open>FileExistsError\<close> in
  \<open>os.makedirs\<close>; the members before it stay, and so does the data file.
\<close>

lemma extraction_fails_midway:
  "check_members ''/home/ci'' ''/tmp/tmpttrac'' (the (toy_tar ''TAR-updir'')) = None"
  "fst (TestEnv_init toy updir_archive True empty_world) = Inl FileExistsError"
  "map fst (files (snd (TestEnv_init toy updir_archive True empty_world)))
     = [''/tmp/tmpttrac/main.tex'', ''/tmp/tmpttrac/0704.0008'']"
  "dirs (snd (do_work toy updir_archive ''main.tex'' ''/bin/tectonic'' empty_world))
     = [''/tmp/tmpttrac/a'', ''/tmp/tmpttrac'']"
  by code_simp+

text \<open>A gzip stream that is cut short leaves the bytes decompressed so far in the data file.\<close>

lemma truncated_stream:
  "fst (TestEnv_init toy truncated_sample False empty_world) = Inl EOFError"
  "files (snd (TestEnv_init toy truncated_sample False empty_world))
     = [(''/tmp/tmpttrac/0704.0009'', ''Hello, wo'')]"
  by code_simp+
section \<open>Compiler timeouts in the pipeline\<close>

lemma statuscode_of_TimedOut: "statuscode_of TimedOut = Inr (- 99999)"
  by simp

lemma compile_in_timeout:
  assumes "fst (run_proc L ([tectonic] @ ARGUMENTS @ [join d maindoc]) d 600 w1) = TimedOut"
  shows "\<exists>r w2. compile_in L smp maindoc tectonic d w1 = (Inr r, w2)
                 \<and> r_statuscode r = - 99999 \<and> r_sample r = stem (s_path smp)"
proof -
  obtain w2 where run: "run_proc L ([tectonic] @ ARGUMENTS @ [join d maindoc]) d 600 w1 = (TimedOut, w2)"
    using assms by (metis prod.collapse)
  then have run': "run_proc L (tectonic # ARGUMENTS @ [join d maindoc]) d 600 w1 = (TimedOut, w2)"
    by simp
  have same: "w1\<lparr>objects := objects w1\<rparr> = w1" by simp
  show ?thesis
    unfolding compile_in_def capture_files_as_set
    by (simp add: same run' case_prod_beta)
qed

lemma do_work_timeout:
  assumes "TestEnv_init L smp (maindoc \<noteq> stem (s_path smp)) w = (Inr d, w1)"
    and "fst (run_proc L ([tectonic] @ ARGUMENTS @ [join d maindoc]) d 600 w1) = TimedOut"
  shows "\<exists>r w'. do_work L smp maindoc tectonic w = (Inr r, w')
                 \<and> r_statuscode r = - 99999 \<and> r_sample r = stem (s_path smp)"
proof -
  from compile_in_timeout[OF assms(2), of smp]
  obtain r w2 where c: "compile_in L smp maindoc tectonic d w1 = (Inr r, w2)"
    and r: "r_statuscode r = - 99999" "r_sample r = stem (s_path smp)"
    by blast
  have "do_work L smp maindoc tectonic w = (Inr r, rmtree w2 d)"
    unfolding do_work_def assms(1) by (simp add: with_TestEnv_def c)
  with r show ?thesis by blast
qed

text \<open>
  Claim C4. A worker holds an item whose workspace can be set up and whose compiler run
  exceeds the timeout of 600 seconds. Its next step finishes \<open>do_work\<close> with a report that
  carries the status code \<open>-99999\<close>; the step after that appends this report to the log and
  the worker returns to waiting for work. The worker does not die from the timeout.
\<close>

theorem timeout_is_recorded:
  assumes "i < length (workers st)"
    and "workers st ! i = Working item"
    and "sample_maindoc (stem (s_path item)) = Some maindoc"
    and "TestEnv_init L item (maindoc \<noteq> stem (s_path item)) (pworld st) = (Inr d, w1)"
    and "fst (run_proc L ([tectonic] @ ARGUMENTS @ [join d maindoc]) d 600 w1) = TimedOut"
  shows "\<exists>st1 st2 r.
           worker_step L sample_maindoc tectonic i st = Some st1
           \<and> workers st1 ! i = Writing r
           \<and> r_statuscode r = - 99999 \<and> r_sample r = stem (s_path item)
           \<and> worker_step L sample_maindoc tectonic i st1 = Some st2
           \<and> reportlog st2 = reportlog st @ [RecordLine r]
           \<and> workers st2 ! i = Idle"
proof -
  from do_work_timeout[OF assms(4,5)]
  obtain r w' where dw: "do_work L item maindoc tectonic (pworld st) = (Inr r, w')"
    and r: "r_statuscode r = - 99999" "r_sample r = stem (s_path item)"
    by blast
  define st1 where "st1 = st\<lparr>workers := (workers st)[i := Writing r],
                              unfinished := unfinished st - 1, pworld := w'\<rparr>"
  define st2 where "st2 = st1\<lparr>reportlog := reportlog st1 @ [RecordLine r],
                               workers := (workers st1)[i := Idle]\<rparr>"
  have s1: "worker_step L sample_maindoc tectonic i st = Some st1"
    using assms(1,2,3) dw by (simp add: worker_step_def st1_def)
  have w1: "workers st1 ! i = Writing r" and l1: "i < length (workers st1)"
    using assms(1) by (simp_all add: st1_def)
  have s2: "worker_step L sample_maindoc tectonic i st1 = Some st2"
    using w1 l1 by (simp add: worker_step_def st2_def)
  have lg: "reportlog st2 = reportlog st @ [RecordLine r]"
    by (simp add: st2_def st1_def)
  have w2: "workers st2 ! i = Idle"
    using l1 by (simp add: st2_def)
  from s1 w1 r s2 lg w2 show ?thesis by blast
qed

lemma slow_sample_facts:
  "gunzip toy (s_bytes slow_sample) = Inr ''loop forever''"
  "stem (s_path slow_sample) = ''0704.0004''"
  "demo_maindoc (stem (s_path slow_sample)) = Some ''0704.0004''"
  by code_simp+

lemma slow_sample_init:
  "TestEnv_init toy slow_sample (''0704.0004'' \<noteq> stem (s_path slow_sample)) (pworld busy_state) =
     (Inr (tmpname toy (tmp_counter (pworld busy_state))),
      write_file (snd (mkdtemp toy (pworld busy_state)))
        (join (tmpname toy (tmp_counter (pworld busy_state))) (stem (s_path slow_sample)))
        ''loop forever'')"
  using TestEnv_init_flat[OF slow_sample_facts(1), of "pworld busy_state"]
  by (simp add: slow_sample_facts(2))

lemma slow_sample_times_out:
  "fst (run_proc toy
          ([''/bin/tectonic''] @ ARGUMENTS
             @ [join (tmpname toy (tmp_counter (pworld busy_state))) ''0704.0004''])
          (tmpname toy (tmp_counter (pworld busy_state))) 600
          (write_file (snd (mkdtemp toy (pworld busy_state)))
             (join (tmpname toy (tmp_counter (pworld busy_state))) (stem (s_path slow_sample)))
             ''loop forever'')) = TimedOut"
  by code_simp

theorem timeout_is_recorded_witness:
  "0 < length (workers busy_state)
   \<and> workers busy_state ! 0 = Working slow_sample
   \<and> demo_maindoc (stem (s_path slow_sample)) = Some ''0704.0004''
   \<and> (\<exists>st1 st2 r.
         worker_step toy demo_maindoc ''/bin/tectonic'' 0 busy_state = Some st1
         \<and> workers st1 ! 0 = Writing r
         \<and> r_statuscode r = - 99999 \<and> r_sample r = stem (s_path slow_sample)
         \<and> worker_step toy demo_maindoc ''/bin/tectonic'' 0 st1 = Some st2
         \<and> reportlog st2 = reportlog busy_state @ [RecordLine r]
         \<and> workers st2 ! 0 = Idle)"
proof -
  have h1: "0 < length (workers busy_state)" by (simp add: busy_state_def)
  have h2: "workers busy_state ! 0 = Working slow_sample" by (simp add: busy_state_def)
  note t = timeout_is_recorded[of 0 busy_state slow_sample demo_maindoc "''0704.0004''" toy
             "tmpname toy (tmp_counter (pworld busy_state))"
             "write_file (snd (mkdtemp toy (pworld busy_state)))
                (join (tmpname toy (tmp_counter (pworld busy_state))) (stem (s_path slow_sample)))
                ''loop forever''"
             "''/bin/tectonic''",
             OF h1 h2 slow_sample_facts(3) slow_sample_init slow_sample_times_out]
  from h1 h2 slow_sample_facts(3) t show ?thesis by (intro conjI)
qed

text \<open>
  The sequential script report.py has no such handler: a timeout of one of its compiler
  runs is raised to the loop over the corpus.
\<close>

lemma run_checked_timeout:
  "fst (run_proc L argv d timeout w) = TimedOut \<Longrightarrow>
     raised (fst (run_checked L argv d timeout w)) TimeoutExpired"
  by (cases "run_proc L argv d timeout w") (simp add: run_checked_def raised_def)

section \<open>Order of the report log\<close>

lemma main_step_reportlog:
  "main_step sample_maindoc st = Some st' \<Longrightarrow> reportlog st' = reportlog st"
  by (auto simp: main_step_def split: list.splits if_splits)

lemma worker_step_reportlog:
  "worker_step L sample_maindoc tectonic i st = Some st' \<Longrightarrow>
     reportlog st' = reportlog st \<or> (\<exists>r. reportlog st' = reportlog st @ [RecordLine r])"
  by (auto simp: worker_step_def
           split: if_splits wstate.splits list.splits option.splits prod.splits sum.splits)

lemma ci_step_reportlog:
  "ci_step L sample_maindoc tectonic a st = Some st' \<Longrightarrow>
     reportlog st' = reportlog st \<or> (\<exists>r. reportlog st' = reportlog st @ [RecordLine r])"
  by (cases a) (auto simp: ci_step_def dest: main_step_reportlog worker_step_reportlog)

lemma ci_run_reportlog:
  "ci_run L sample_maindoc tectonic schedule st = Some st' \<Longrightarrow>
     \<exists>rs. reportlog st' = reportlog st @ map RecordLine rs"
proof (induction schedule arbitrary: st)
  case Nil
  then have "reportlog st' = reportlog st @ map RecordLine []" by simp
  then show ?case by blast
next
  case (Cons a schedule)
  then obtain st1 where s1: "ci_step L sample_maindoc tectonic a st = Some st1"
    and rest: "ci_run L sample_maindoc tectonic schedule st1 = Some st'"
    by (auto split: option.splits)
  from Cons.IH[OF rest] obtain rs where rs: "reportlog st' = reportlog st1 @ map RecordLine rs"
    by blast
  from ci_step_reportlog[OF s1] show ?case
  proof
    assume "reportlog st1 = reportlog st"
    with rs show ?thesis by auto
  next
    assume "\<exists>r. reportlog st1 = reportlog st @ [RecordLine r]"
    then obtain r where "reportlog st1 = reportlog st @ [RecordLine r]" by blast
    with rs have "reportlog st' = reportlog st @ map RecordLine (r # rs)" by simp
    then show ?thesis by blast
  qed
qed

lemma rp_loop_reportlog:
  "rp_loop L repo corpus rlog w = (e, rlog', w') \<Longrightarrow> \<exists>rs. rlog' = rlog @ map RecordLine rs"
proof (induction corpus arbitrary: rlog w)
  case Nil
  then have "rlog' = rlog @ map RecordLine []" by simp
  then show ?case by blast
next
  case (Cons smp rest)
  show ?case
  proof (cases "st_size smp < 100")
    case True
    with Cons.prems have "rp_loop L repo rest rlog w = (e, rlog', w')" by simp
    then show ?thesis by (rule Cons.IH)
  next
    case False
    show ?thesis
    proof (cases "rp_evaluate L repo smp w")
      case (Pair res w1)
      show ?thesis
      proof (cases res)
        case (Inl err)
        with Pair False Cons.prems have "rlog' = rlog @ map RecordLine []" by simp
        then show ?thesis by blast
      next
        case (Inr report)
        with Pair False Cons.prems
        have "rp_loop L repo rest (rlog @ [RecordLine report]) w1 = (e, rlog', w')" by simp
        from Cons.IH[OF this] obtain rs where "rlog' = (rlog @ [RecordLine report]) @ map RecordLine rs"
          by blast
        then have "rlog' = rlog @ map RecordLine (report # rs)" by simp
        then show ?thesis by blast
      qed
    qed
  qed
qed

text \<open>
  Claim C7. In the pipeline, under every schedule of the main thread and the workers, the
  log is the metadata line followed by records only. In report.py, a run that writes the log
  at all (there was no log before, or the user agreed to overwrite it) leaves the metadata
  line followed by records only, whether the loop ends normally or on an exception. So the
  metadata line is written once and no record comes before it.
\<close>

theorem metadata_is_first_line:
  "(ci_run L sample_maindoc tectonic schedule (ci_init meta corpus w) = Some st \<longrightarrow>
      (\<exists>rs. reportlog st = MetaLine meta # map RecordLine rs))
   \<and> (rp_report L corpus repo meta old_log overwrite w = (e, lg, w')
        \<and> (old_log = None \<or> overwrite) \<longrightarrow>
      (\<exists>rs. lg = Some (MetaLine meta # map RecordLine rs)))"
proof (intro conjI impI)
  assume "ci_run L sample_maindoc tectonic schedule (ci_init meta corpus w) = Some st"
  from ci_run_reportlog[OF this]
  show "\<exists>rs. reportlog st = MetaLine meta # map RecordLine rs"
    by (simp add: ci_init_def)
next
  assume a: "rp_report L corpus repo meta old_log overwrite w = (e, lg, w')
        \<and> (old_log = None \<or> overwrite)"
  then have run: "\<not> (old_log \<noteq> None \<and> \<not> overwrite)" by blast
  obtain e1 l1 w1 where lp: "rp_loop L repo corpus [MetaLine meta] w = (e1, l1, w1)"
    by (metis prod_cases3)
  from a run have "(case rp_loop L repo corpus [MetaLine meta] w of
                      (e, rlog, w') \<Rightarrow> (e, Some rlog, w')) = (e, lg, w')"
    by (auto simp: rp_report_def)
  then have "lg = Some l1" unfolding lp by simp
  moreover from rp_loop_reportlog[OF lp] obtain rs where "l1 = [MetaLine meta] @ map RecordLine rs"
    by blast
  ultimately have "lg = Some (MetaLine meta # map RecordLine rs)" by simp
  then show "\<exists>rs. lg = Some (MetaLine meta # map RecordLine rs)" by blast
qed

lemma demo_run:
  "(case ci_run toy demo_maindoc ''/bin/tectonic''
           [MainThread, Worker 0, MainThread, Worker 1, Worker 0, Worker 1, Worker 0, Worker 1]
           (ci_init demo_meta [flat_sample, slow_sample] empty_world) of
      None \<Rightarrow> False
    | Some st \<Rightarrow> length (reportlog st) = 3)"
  by code_simp

theorem metadata_is_first_line_witness:
  "(\<exists>st. ci_run toy demo_maindoc ''/bin/tectonic''
           [MainThread, Worker 0, MainThread, Worker 1, Worker 0, Worker 1, Worker 0, Worker 1]
           (ci_init demo_meta [flat_sample, slow_sample] empty_world) = Some st
        \<and> length (reportlog st) = 3
        \<and> (\<exists>rs. reportlog st = MetaLine demo_meta # map RecordLine rs))
   \<and> (\<exists>e lg w'. rp_report toy_rp [paper_sample] ''/repo'' demo_meta None False empty_world
                     = (e, lg, w')
        \<and> (\<exists>rs. lg = Some (MetaLine demo_meta # map RecordLine rs)))"
proof (rule conjI)
  from demo_run obtain st where
    run: "ci_run toy demo_maindoc ''/bin/tectonic''
           [MainThread, Worker 0, MainThread, Worker 1, Worker 0, Worker 1, Worker 0, Worker 1]
           (ci_init demo_meta [flat_sample, slow_sample] empty_world) = Some st"
    and len: "length (reportlog st) = 3"
    by (auto split: option.splits)
  have "ci_run toy demo_maindoc ''/bin/tectonic''
           [MainThread, Worker 0, MainThread, Worker 1, Worker 0, Worker 1, Worker 0, Worker 1]
           (ci_init demo_meta [flat_sample, slow_sample] empty_world) = Some st \<longrightarrow>
      (\<exists>rs. reportlog st = MetaLine demo_meta # map RecordLine rs)"
    using metadata_is_first_line
            [of toy demo_maindoc "''/bin/tectonic''"
                "[MainThread, Worker 0, MainThread, Worker 1, Worker 0, Worker 1, Worker 0, Worker 1]"
                demo_meta "[flat_sample, slow_sample]" empty_world st]
    by (rule conjunct1)
  with run len
  show "\<exists>st. ci_run toy demo_maindoc ''/bin/tectonic''
           [MainThread, Worker 0, MainThread, Worker 1, Worker 0, Worker 1, Worker 0, Worker 1]
           (ci_init demo_meta [flat_sample, slow_sample] empty_world) = Some st
        \<and> length (reportlog st) = 3
        \<and> (\<exists>rs. reportlog st = MetaLine demo_meta # map RecordLine rs)"
    by blast
next
  obtain e lg w' where
    eq: "rp_report toy_rp [paper_sample] ''/repo'' demo_meta None False empty_world = (e, lg, w')"
    by (metis prod_cases3)
  have "rp_report toy_rp [paper_sample] ''/repo'' demo_meta None False empty_world = (e, lg, w')
          \<and> ((None :: rp_record line list option) = None \<or> False) \<longrightarrow>
        (\<exists>rs. lg = Some (MetaLine demo_meta # map RecordLine rs))"
    using metadata_is_first_line
            [of toy_rp demo_maindoc "''/bin/tectonic''" "[]" demo_meta "[paper_sample]" empty_world
                "ci_init demo_meta [paper_sample] empty_world" "''/repo''" None False e lg w']
    by (rule conjunct2)
  with eq
  show "\<exists>e lg w'. rp_report toy_rp [paper_sample] ''/repo'' demo_meta None False empty_world
                     = (e, lg, w')
        \<and> (\<exists>rs. lg = Some (MetaLine demo_meta # map RecordLine rs))"
    by blast
qed

section \<open>The withdrawal threshold and the work queue\<close>

lemma record_samples_append [simp]:
  "record_samples (xs @ ys) = record_samples xs @ record_samples ys"
  by (induction xs rule: record_samples.induct) auto

lemma rp_samples_append [simp]:
  "rp_samples (xs @ ys) = rp_samples xs @ rp_samples ys"
  by (induction xs rule: rp_samples.induct) auto

lemma compile_in_sample:
  "compile_in L smp maindoc tectonic d w1 = (Inr r, w2) \<Longrightarrow> r_sample r = stem (s_path smp)"
  by (auto simp: compile_in_def split: prod.splits sum.splits)

lemma do_work_sample:
  "do_work L smp maindoc tectonic w = (Inr r, w') \<Longrightarrow> r_sample r = stem (s_path smp)"
  by (auto simp: do_work_def with_TestEnv_def split: prod.splits sum.splits dest: compile_in_sample)

lemma ci_inv_init: "ci_inv sample_maindoc corpus (ci_init meta corpus w)"
  by (simp add: ci_inv_def ci_init_def)

lemma main_step_inv:
  assumes "ci_inv sample_maindoc corpus st" and "main_step sample_maindoc st = Some st'"
  shows "ci_inv sample_maindoc corpus st'"
proof (cases "pending st")
  case Nil
  with assms show ?thesis
    by (auto simp: main_step_def ci_inv_def split: if_splits)
next
  case (Cons smp rest)
  with assms(1) have mem: "smp \<in> set corpus" and rest: "set rest \<subseteq> set corpus"
    by (auto simp: ci_inv_def)
  show ?thesis
  proof (cases "sample_maindoc (stem (s_path smp))")
    case None
    with Cons assms rest show ?thesis by (auto simp: main_step_def ci_inv_def)
  next
    case (Some maindoc)
    then have "smp \<in> set (mapped sample_maindoc corpus)" using mem by (simp add: mapped_def)
    with Some Cons assms rest show ?thesis by (auto simp: main_step_def ci_inv_def)
  qed
qed

lemma set_update_ok:
  "\<forall>x \<in> set xs. P x \<Longrightarrow> P v \<Longrightarrow> \<forall>x \<in> set (xs[i := v]). P x"
  using set_update_subset_insert[of xs i v] by auto

lemma worker_step_inv:
  assumes inv: "ci_inv sample_maindoc corpus st"
    and step: "worker_step L sample_maindoc tectonic i st = Some st'"
  shows "ci_inv sample_maindoc corpus st'"
proof -
  let ?G = "set (mapped sample_maindoc corpus)"
  from step have len: "i < length (workers st)"
    by (auto simp: worker_step_def split: if_splits)
  from inv have ws: "\<forall>x \<in> set (workers st). wstate_ok ?G x"
    and wk: "\<forall>s. Some s \<in> set (work st) \<longrightarrow> s \<in> ?G"
    and pd: "set (pending st) \<subseteq> set corpus"
    and lg: "set (record_samples (reportlog st)) \<subseteq> (\<lambda>s. stem (s_path s)) ` ?G"
    by (auto simp: ci_inv_def)
  from ws len have cur: "wstate_ok ?G (workers st ! i)" by simp
  show ?thesis
  proof (cases "workers st ! i")
    case Idle
    show ?thesis
    proof (cases "work st")
      case Nil
      with Idle step len show ?thesis by (simp add: worker_step_def)
    next
      case (Cons item q)
      show ?thesis
      proof (cases item)
        case None
        with Cons Idle step len
        have st': "st' = st\<lparr>work := q, workers := (workers st)[i := Stopped]\<rparr>"
          by (simp add: worker_step_def)
        have "\<forall>x \<in> set ((workers st)[i := Stopped]). wstate_ok ?G x"
          using ws by (rule set_update_ok) simp
        with wk pd lg Cons show ?thesis unfolding st' by (auto simp: ci_inv_def)
      next
        case (Some s)
        with Cons Idle step len
        have st': "st' = st\<lparr>work := q, workers := (workers st)[i := Working s]\<rparr>"
          by (simp add: worker_step_def)
        from wk Cons Some have "s \<in> ?G" by simp
        then have "\<forall>x \<in> set ((workers st)[i := Working s]). wstate_ok ?G x"
          using ws by (intro set_update_ok) simp_all
        with wk pd lg Cons show ?thesis unfolding st' by (auto simp: ci_inv_def)
      qed
    qed
  next
    case (Working item)
    with cur have item: "item \<in> ?G" by simp
    show ?thesis
    proof (cases "sample_maindoc (stem (s_path item))")
      case None
      with Working step len
      have st': "st' = st\<lparr>workers := (workers st)[i := Crashed KeyError]\<rparr>"
        by (simp add: worker_step_def)
      have "\<forall>x \<in> set ((workers st)[i := Crashed KeyError]). wstate_ok ?G x"
        using ws by (rule set_update_ok) simp
      with wk pd lg show ?thesis unfolding st' by (auto simp: ci_inv_def)
    next
      case (Some maindoc)
      obtain res w' where dw: "do_work L item maindoc tectonic (pworld st) = (res, w')"
        by (cases "do_work L item maindoc tectonic (pworld st)")
      show ?thesis
      proof (cases res)
        case (Inl e)
        with dw Some Working step len
        have st': "st' = st\<lparr>workers := (workers st)[i := Crashed e], pworld := w'\<rparr>"
          by (simp add: worker_step_def)
        have "\<forall>x \<in> set ((workers st)[i := Crashed e]). wstate_ok ?G x"
          using ws by (rule set_update_ok) simp
        with wk pd lg show ?thesis unfolding st' by (auto simp: ci_inv_def)
      next
        case (Inr report)
        with dw Some Working step len
        have st': "st' = st\<lparr>workers := (workers st)[i := Writing report],
                              unfinished := unfinished st - 1, pworld := w'\<rparr>"
          by (simp add: worker_step_def)
        from dw Inr have "r_sample report = stem (s_path item)" by (simp add: do_work_sample)
        with item have "wstate_ok ?G (Writing report)" by simp
        then have "\<forall>x \<in> set ((workers st)[i := Writing report]). wstate_ok ?G x"
          using ws by (intro set_update_ok) simp_all
        with wk pd lg show ?thesis unfolding st' by (auto simp: ci_inv_def)
      qed
    qed
  next
    case (Writing report)
    with step len
    have st': "st' = st\<lparr>reportlog := reportlog st @ [RecordLine report],
                          workers := (workers st)[i := Idle]\<rparr>"
      by (simp add: worker_step_def)
    from cur Writing have "r_sample report \<in> (\<lambda>s. stem (s_path s)) ` ?G" by simp
    moreover have "\<forall>x \<in> set ((workers st)[i := Idle]). wstate_ok ?G x"
      using ws by (rule set_update_ok) simp
    ultimately show ?thesis using wk pd lg unfolding st' by (auto simp: ci_inv_def)
  next
    case Stopped
    with step len show ?thesis by (simp add: worker_step_def)
  next
    case (Crashed e)
    with step len show ?thesis by (simp add: worker_step_def)
  qed
qed

lemma ci_run_inv:
  "ci_inv sample_maindoc corpus st \<Longrightarrow>
   ci_run L sample_maindoc tectonic schedule st = Some st' \<Longrightarrow>
   ci_inv sample_maindoc corpus st'"
proof (induction schedule arbitrary: st)
  case Nil
  then show ?case by simp
next
  case (Cons a schedule)
  then obtain st1 where s1: "ci_step L sample_maindoc tectonic a st = Some st1"
    and rest: "ci_run L sample_maindoc tectonic schedule st1 = Some st'"
    by (auto split: option.splits)
  have "ci_inv sample_maindoc corpus st1"
  proof (cases a)
    case MainThread
    with s1 have "main_step sample_maindoc st = Some st1" by (simp add: ci_step_def)
    with Cons.prems(1) show ?thesis by (rule main_step_inv)
  next
    case (Worker i)
    with s1 have "worker_step L sample_maindoc tectonic i st = Some st1" by (simp add: ci_step_def)
    with Cons.prems(1) show ?thesis by (rule worker_step_inv)
  qed
  then show ?case using rest by (rule Cons.IH)
qed

lemma prepare_small:
  "st_size smp < 100 \<Longrightarrow> prepare L excluded heur smp w = (Inr None, w)"
  by (simp add: prepare_def)

lemma prepare_Some:
  "prepare L excluded heur smp w = (Inr (Some r), w') \<Longrightarrow>
     100 \<le> st_size smp \<and> stem (s_path smp) \<notin> excluded"
  by (auto simp: prepare_def split: if_splits)

lemma pd_loop_dom:
  "pd_loop L excluded heur corpus outp w = (Inr out', w') \<Longrightarrow>
     \<forall>k \<in> dom out'. k \<in> dom outp
        \<or> (\<exists>s \<in> set corpus. stem (s_path s) = k \<and> 100 \<le> st_size s)"
proof (induction corpus arbitrary: outp w)
  case Nil
  then show ?case by simp
next
  case (Cons smp rest)
  obtain res w1 where p: "prepare L excluded heur smp w = (res, w1)"
    by (cases "prepare L excluded heur smp w")
  show ?case
  proof (cases res)
    case (Inl e)
    with p Cons.prems show ?thesis by simp
  next
    case (Inr v)
    show ?thesis
    proof (cases v)
      case None
      with Inr p Cons.prems have "pd_loop L excluded heur rest outp w1 = (Inr out', w')" by simp
      from Cons.IH[OF this] show ?thesis by auto
    next
      case (Some r)
      show ?thesis
      proof (cases "r = []")
        case True
        with Some Inr p Cons.prems
        have "pd_loop L excluded heur rest outp w1 = (Inr out', w')" by simp
        from Cons.IH[OF this] show ?thesis by auto
      next
        case False
        with Some Inr p Cons.prems
        have "pd_loop L excluded heur rest (outp(stem (s_path smp) \<mapsto> r)) w1 = (Inr out', w')"
          by simp
        from Cons.IH[OF this]
        have ih: "\<forall>k \<in> dom out'. k \<in> dom (outp(stem (s_path smp) \<mapsto> r))
                    \<or> (\<exists>s \<in> set rest. stem (s_path s) = k \<and> 100 \<le> st_size s)" .
        from p Inr Some have big: "100 \<le> st_size smp" using prepare_Some by blast
        show ?thesis
        proof
          fix k assume "k \<in> dom out'"
          with ih have "k \<in> dom (outp(stem (s_path smp) \<mapsto> r))
                    \<or> (\<exists>s \<in> set rest. stem (s_path s) = k \<and> 100 \<le> st_size s)" by blast
          then show "k \<in> dom outp
                \<or> (\<exists>s \<in> set (smp # rest). stem (s_path s) = k \<and> 100 \<le> st_size s)"
            using big by auto
        qed
      qed
    qed
  qed
qed

lemma prepare_dataset_dom:
  "prepare_dataset L excluded heur corpus w = (Inr outp, w') \<Longrightarrow>
     \<forall>k \<in> dom outp. \<exists>s \<in> set corpus. stem (s_path s) = k \<and> 100 \<le> st_size s"
  unfolding prepare_dataset_def using pd_loop_dom[of L excluded heur corpus Map.empty w outp w']
  by simp

lemma rp_evaluate_sample:
  "rp_evaluate L repo smp w = (Inr r, w') \<Longrightarrow> rp_sample r = stem (s_path smp)"
  by (auto simp: rp_evaluate_def bindE_def returnE_def split: prod.splits sum.splits)

lemma rp_loop_samples:
  "rp_loop L repo corpus rlog w = (e, rlog', w') \<Longrightarrow>
     \<exists>n. rp_samples rlog' =
           rp_samples rlog
           @ map (\<lambda>s. stem (s_path s)) (take n (filter (\<lambda>s. 100 \<le> st_size s) corpus))"
proof (induction corpus arbitrary: rlog w)
  case Nil
  then show ?case by simp
next
  case (Cons smp rest)
  show ?case
  proof (cases "st_size smp < 100")
    case True
    with Cons.prems have "rp_loop L repo rest rlog w = (e, rlog', w')" by simp
    from Cons.IH[OF this] True show ?thesis by simp
  next
    case False
    obtain res w1 where ev: "rp_evaluate L repo smp w = (res, w1)"
      by (cases "rp_evaluate L repo smp w")
    show ?thesis
    proof (cases res)
      case (Inl err)
      with ev False Cons.prems have "rlog' = rlog" by simp
      then have "rp_samples rlog' =
           rp_samples rlog
           @ map (\<lambda>s. stem (s_path s)) (take 0 (filter (\<lambda>s. 100 \<le> st_size s) (smp # rest)))"
        by simp
      then show ?thesis by blast
    next
      case (Inr report)
      with ev False Cons.prems
      have "rp_loop L repo rest (rlog @ [RecordLine report]) w1 = (e, rlog', w')" by simp
      from Cons.IH[OF this] obtain n where
        n: "rp_samples rlog' = rp_samples (rlog @ [RecordLine report])
              @ map (\<lambda>s. stem (s_path s)) (take n (filter (\<lambda>s. 100 \<le> st_size s) rest))"
        by blast
      from ev Inr have "rp_sample report = stem (s_path smp)" by (simp add: rp_evaluate_sample)
      with n False have "rp_samples rlog' =
           rp_samples rlog
           @ map (\<lambda>s. stem (s_path s)) (take (Suc n) (filter (\<lambda>s. 100 \<le> st_size s) (smp # rest)))"
        by simp
      then show ?thesis by blast
    qed
  qed
qed

lemma main_thread_preload:
  "pending st = ps \<Longrightarrow>
     \<exists>st'. ci_run L sample_maindoc tectonic (replicate (length ps) MainThread) st = Some st'
           \<and> pending st' = [] \<and> work st' = work st @ map Some (mapped sample_maindoc ps)
           \<and> reportlog st' = reportlog st"
proof (induction ps arbitrary: st)
  case Nil
  then show ?case by (simp add: mapped_def)
next
  case (Cons smp rest)
  show ?case
  proof (cases "sample_maindoc (stem (s_path smp))")
    case None
    let ?st1 = "st\<lparr>pending := rest\<rparr>"
    from Cons.prems None have s1: "main_step sample_maindoc st = Some ?st1"
      by (simp add: main_step_def)
    have "pending ?st1 = rest" by simp
    from Cons.IH[OF this] obtain st' where
      "ci_run L sample_maindoc tectonic (replicate (length rest) MainThread) ?st1 = Some st'"
      "pending st' = []" "work st' = work ?st1 @ map Some (mapped sample_maindoc rest)"
      "reportlog st' = reportlog ?st1"
      by blast
    with s1 None show ?thesis by (simp add: ci_step_def mapped_def)
  next
    case (Some maindoc)
    let ?st1 = "st\<lparr>pending := rest, work := work st @ [Some smp],
                     unfinished := Suc (unfinished st)\<rparr>"
    from Cons.prems Some have s1: "main_step sample_maindoc st = Some ?st1"
      by (simp add: main_step_def)
    have "pending ?st1 = rest" by simp
    from Cons.IH[OF this] obtain st' where
      "ci_run L sample_maindoc tectonic (replicate (length rest) MainThread) ?st1 = Some st'"
      "pending st' = []" "work st' = work ?st1 @ map Some (mapped sample_maindoc rest)"
      "reportlog st' = reportlog ?st1"
      by blast
    with s1 Some show ?thesis by (simp add: ci_step_def mapped_def)
  qed
qed

text \<open>
  Claim C8, as amended. The preparation pass returns nothing for a sample below 100 bytes,
  so every key of the entry-document map it writes is the stem of a sample of at least 100
  bytes. report.py emits records exactly for an initial run of the samples of at least 100
  bytes. The pipeline loads its queue with exactly the samples whose stem is a key of the
  entry-document map, without looking at their size, and at every moment the queued items
  and the records in the log come from those samples. When the map is the output of the
  preparation pass over the same corpus and no two samples share a stem, every queued
  sample has at least 100 bytes and every record belongs to such a sample.
\<close>

theorem threshold_and_queue:
  "(st_size smp < 100 \<longrightarrow> prepare L excluded heur smp w = (Inr None, w))
   \<and> (prepare_dataset L excluded heur corpus w = (Inr prepared, wa) \<longrightarrow>
        (\<forall>k \<in> dom prepared. \<exists>s \<in> set corpus. stem (s_path s) = k \<and> 100 \<le> st_size s))
   \<and> (rp_report L corpus repo meta old_log overwrite w = (e, Some lg, wb)
        \<and> (old_log = None \<or> overwrite) \<longrightarrow>
        (\<exists>n. rp_samples lg =
               map (\<lambda>s. stem (s_path s)) (take n (filter (\<lambda>s. 100 \<le> st_size s) corpus))))
   \<and> (\<exists>st'. ci_run L sample_maindoc tectonic (replicate (length corpus) MainThread)
               (ci_init meta corpus w) = Some st'
            \<and> pending st' = [] \<and> work st' = map Some (mapped sample_maindoc corpus))
   \<and> (ci_run L sample_maindoc tectonic schedule (ci_init meta corpus w) = Some st \<longrightarrow>
        (\<forall>s. Some s \<in> set (work st) \<longrightarrow> s \<in> set (mapped sample_maindoc corpus))
        \<and> set (record_samples (reportlog st))
             \<subseteq> (\<lambda>s. stem (s_path s)) ` set (mapped sample_maindoc corpus))
   \<and> (ci_run L sample_maindoc tectonic schedule (ci_init meta corpus w) = Some st
        \<and> prepare_dataset L excluded heur corpus wp = (Inr sample_maindoc, wc)
        \<and> inj_on (\<lambda>s. stem (s_path s)) (set corpus) \<longrightarrow>
        (\<forall>s. Some s \<in> set (work st) \<longrightarrow> 100 \<le> st_size s)
        \<and> (\<forall>k \<in> set (record_samples (reportlog st)).
              \<exists>s \<in> set corpus. stem (s_path s) = k \<and> 100 \<le> st_size s))"
proof (intro conjI)
  show "st_size smp < 100 \<longrightarrow> prepare L excluded heur smp w = (Inr None, w)"
    by (simp add: prepare_small)
next
  show "prepare_dataset L excluded heur corpus w = (Inr prepared, wa) \<longrightarrow>
        (\<forall>k \<in> dom prepared. \<exists>s \<in> set corpus. stem (s_path s) = k \<and> 100 \<le> st_size s)"
    using prepare_dataset_dom by blast
next
  show "rp_report L corpus repo meta old_log overwrite w = (e, Some lg, wb)
        \<and> (old_log = None \<or> overwrite) \<longrightarrow>
        (\<exists>n. rp_samples lg =
               map (\<lambda>s. stem (s_path s)) (take n (filter (\<lambda>s. 100 \<le> st_size s) corpus)))"
  proof
    assume a: "rp_report L corpus repo meta old_log overwrite w = (e, Some lg, wb)
        \<and> (old_log = None \<or> overwrite)"
    obtain e1 l1 wa' where lp: "rp_loop L repo corpus [MetaLine meta] w = (e1, l1, wa')"
      by (metis prod_cases3)
    from a have "(case rp_loop L repo corpus [MetaLine meta] w of
                      (e, rlog, w') \<Rightarrow> (e, Some rlog, w')) = (e, Some lg, wb)"
      by (auto simp: rp_report_def)
    then have "lg = l1" unfolding lp by simp
    with rp_loop_samples[OF lp] show "\<exists>n. rp_samples lg =
               map (\<lambda>s. stem (s_path s)) (take n (filter (\<lambda>s. 100 \<le> st_size s) corpus))"
      by simp
  qed
next
  have "pending (ci_init meta corpus w) = corpus" by (simp add: ci_init_def)
  from main_thread_preload[OF this, of L sample_maindoc tectonic]
  obtain st' where "ci_run L sample_maindoc tectonic (replicate (length corpus) MainThread)
               (ci_init meta corpus w) = Some st'" "pending st' = []"
      "work st' = work (ci_init meta corpus w) @ map Some (mapped sample_maindoc corpus)"
    by blast
  moreover have "work (ci_init meta corpus w) = []" by (simp add: ci_init_def)
  ultimately
  show "\<exists>st'. ci_run L sample_maindoc tectonic (replicate (length corpus) MainThread)
               (ci_init meta corpus w) = Some st'
            \<and> pending st' = [] \<and> work st' = map Some (mapped sample_maindoc corpus)"
    by simp
next
  show "ci_run L sample_maindoc tectonic schedule (ci_init meta corpus w) = Some st \<longrightarrow>
        (\<forall>s. Some s \<in> set (work st) \<longrightarrow> s \<in> set (mapped sample_maindoc corpus))
        \<and> set (record_samples (reportlog st))
             \<subseteq> (\<lambda>s. stem (s_path s)) ` set (mapped sample_maindoc corpus)"
  proof
    assume "ci_run L sample_maindoc tectonic schedule (ci_init meta corpus w) = Some st"
    with ci_inv_init have "ci_inv sample_maindoc corpus st" by (rule ci_run_inv)
    then show "(\<forall>s. Some s \<in> set (work st) \<longrightarrow> s \<in> set (mapped sample_maindoc corpus))
        \<and> set (record_samples (reportlog st))
             \<subseteq> (\<lambda>s. stem (s_path s)) ` set (mapped sample_maindoc corpus)"
      by (simp add: ci_inv_def)
  qed
next
  show "ci_run L sample_maindoc tectonic schedule (ci_init meta corpus w) = Some st
        \<and> prepare_dataset L excluded heur corpus wp = (Inr sample_maindoc, wc)
        \<and> inj_on (\<lambda>s. stem (s_path s)) (set corpus) \<longrightarrow>
        (\<forall>s. Some s \<in> set (work st) \<longrightarrow> 100 \<le> st_size s)
        \<and> (\<forall>k \<in> set (record_samples (reportlog st)).
              \<exists>s \<in> set corpus. stem (s_path s) = k \<and> 100 \<le> st_size s)"
  proof
    assume a: "ci_run L sample_maindoc tectonic schedule (ci_init meta corpus w) = Some st
        \<and> prepare_dataset L excluded heur corpus wp = (Inr sample_maindoc, wc)
        \<and> inj_on (\<lambda>s. stem (s_path s)) (set corpus)"
    then have run: "ci_run L sample_maindoc tectonic schedule (ci_init meta corpus w) = Some st"
      and inj: "inj_on (\<lambda>s. stem (s_path s)) (set corpus)"
      by simp_all
    from a have keys: "\<forall>k \<in> dom sample_maindoc.
                         \<exists>s \<in> set corpus. stem (s_path s) = k \<and> 100 \<le> st_size s"
      using prepare_dataset_dom by blast
    from ci_inv_init run have inv: "ci_inv sample_maindoc corpus st" by (rule ci_run_inv)
    have big: "100 \<le> st_size s" if "s \<in> set (mapped sample_maindoc corpus)" for s
    proof -
      from that have s: "s \<in> set corpus" and "stem (s_path s) \<in> dom sample_maindoc"
        by (auto simp: mapped_def)
      with keys obtain s' where s': "s' \<in> set corpus" "stem (s_path s') = stem (s_path s)"
        "100 \<le> st_size s'" by blast
      from inj s s' have "s' = s" by (auto dest: inj_onD)
      with s' show ?thesis by simp
    qed
    have q: "\<forall>s. Some s \<in> set (work st) \<longrightarrow> 100 \<le> st_size s"
      using inv big by (simp add: ci_inv_def)
    have r: "\<forall>k \<in> set (record_samples (reportlog st)).
              \<exists>s \<in> set corpus. stem (s_path s) = k \<and> 100 \<le> st_size s"
    proof
      fix k assume "k \<in> set (record_samples (reportlog st))"
      with inv obtain s where "s \<in> set (mapped sample_maindoc corpus)" "k = stem (s_path s)"
        by (auto simp: ci_inv_def)
      then show "\<exists>s \<in> set corpus. stem (s_path s) = k \<and> 100 \<le> st_size s"
        using big by (auto simp: mapped_def)
    qed
    from q r show "(\<forall>s. Some s \<in> set (work st) \<longrightarrow> 100 \<le> st_size s)
        \<and> (\<forall>k \<in> set (record_samples (reportlog st)).
              \<exists>s \<in> set corpus. stem (s_path s) = k \<and> 100 \<le> st_size s)"
      by (rule conjI)
  qed
qed

lemma demo_prepared:
  "(case fst (prepare_dataset toy {} toy_heur demo_corpus empty_world) of
      Inl e \<Rightarrow> False
    | Inr M \<Rightarrow> M ''0704.0007'' = Some ''0704.0007'' \<and> M ''0704.0003'' = None)"
  by code_simp

lemma demo_corpus_stems:
  "stem (s_path big_sample) = ''0704.0007''" "stem (s_path flat_sample) = ''0704.0003''"
  by code_simp+

lemma demo_corpus_inj: "inj_on (\<lambda>s. stem (s_path s)) (set demo_corpus)"
  by (auto simp: demo_corpus_def inj_on_def demo_corpus_stems)

lemma flat_sample_small: "st_size flat_sample < 100"
  by (simp add: st_size_def flat_sample_def)

theorem threshold_and_queue_witness:
  "st_size flat_sample < 100
   \<and> prepare toy {} toy_heur flat_sample empty_world = (Inr None, empty_world)
   \<and> (\<exists>M wa st.
         prepare_dataset toy {} toy_heur demo_corpus empty_world = (Inr M, wa)
         \<and> inj_on (\<lambda>s. stem (s_path s)) (set demo_corpus)
         \<and> ci_run toy M ''/bin/tectonic'' (replicate (length demo_corpus) MainThread)
              (ci_init demo_meta demo_corpus empty_world) = Some st
         \<and> work st = [Some big_sample]
         \<and> 100 \<le> st_size big_sample)"
proof (intro conjI)
  show "st_size flat_sample < 100" by (rule flat_sample_small)
  from threshold_and_queue[where smp = flat_sample and L = toy and excluded = "{}"
         and heur = toy_heur and w = empty_world and corpus = "[]" and schedule = "[]"
         and meta = demo_meta]
  have "st_size flat_sample < 100 \<longrightarrow>
          prepare toy {} toy_heur flat_sample empty_world = (Inr None, empty_world)"
    by (rule conjunct1)
  with flat_sample_small
  show "prepare toy {} toy_heur flat_sample empty_world = (Inr None, empty_world)" by (rule rev_mp)
  from demo_prepared obtain M wa where
    pd: "prepare_dataset toy {} toy_heur demo_corpus empty_world = (Inr M, wa)"
    and keys: "M ''0704.0007'' = Some ''0704.0007''" "M ''0704.0003'' = None"
    by (cases "prepare_dataset toy {} toy_heur demo_corpus empty_world")
       (auto split: sum.splits)
  have mpd: "mapped M demo_corpus = [big_sample]"
    by (simp add: mapped_def demo_corpus_def demo_corpus_stems keys)
  note t = threshold_and_queue[where L = toy and excluded = "{}" and heur = toy_heur
         and w = empty_world and wp = empty_world and wc = wa and corpus = demo_corpus
         and sample_maindoc = M and tectonic = "''/bin/tectonic''" and meta = demo_meta
         and schedule = "replicate (length demo_corpus) MainThread"]
  from t[THEN conjunct2, THEN conjunct2, THEN conjunct2, THEN conjunct1] obtain st where
    run: "ci_run toy M ''/bin/tectonic'' (replicate (length demo_corpus) MainThread)
            (ci_init demo_meta demo_corpus empty_world) = Some st"
    and wk: "work st = map Some (mapped M demo_corpus)"
    by blast
  from wk mpd have wk': "work st = [Some big_sample]" by simp
  note c6 = t[where st = st, THEN conjunct2, THEN conjunct2, THEN conjunct2, THEN conjunct2,
                THEN conjunct2]
  have "ci_run toy M ''/bin/tectonic'' (replicate (length demo_corpus) MainThread)
            (ci_init demo_meta demo_corpus empty_world) = Some st
        \<and> prepare_dataset toy {} toy_heur demo_corpus empty_world = (Inr M, wa)
        \<and> inj_on (\<lambda>s. stem (s_path s)) (set demo_corpus)"
    using run pd demo_corpus_inj by (intro conjI)
  with c6 have "(\<forall>s. Some s \<in> set (work st) \<longrightarrow> 100 \<le> st_size s)
        \<and> (\<forall>k \<in> set (record_samples (reportlog st)).
              \<exists>s \<in> set demo_corpus. stem (s_path s) = k \<and> 100 \<le> st_size s)"
    by (rule mp)
  then have "\<forall>s. Some s \<in> set (work st) \<longrightarrow> 100 \<le> st_size s" by (rule conjunct1)
  with wk' have big: "100 \<le> st_size big_sample" by simp
  from pd demo_corpus_inj run wk' big
  have "prepare_dataset toy {} toy_heur demo_corpus empty_world = (Inr M, wa)
         \<and> inj_on (\<lambda>s. stem (s_path s)) (set demo_corpus)
         \<and> ci_run toy M ''/bin/tectonic'' (replicate (length demo_corpus) MainThread)
              (ci_init demo_meta demo_corpus empty_world) = Some st
         \<and> work st = [Some big_sample]
         \<and> 100 \<le> st_size big_sample"
    by (intro conjI)
  then show "\<exists>M wa st.
         prepare_dataset toy {} toy_heur demo_corpus empty_world = (Inr M, wa)
         \<and> inj_on (\<lambda>s. stem (s_path s)) (set demo_corpus)
         \<and> ci_run toy M ''/bin/tectonic'' (replicate (length demo_corpus) MainThread)
              (ci_init demo_meta demo_corpus empty_world) = Some st
         \<and> work st = [Some big_sample]
         \<and> 100 \<le> st_size big_sample"
    by (intro exI)
qed

text \<open>
  The claim as first stated fails: the pipeline does not look at the size of a sample. A
  sample of 16 bytes whose stem is a key of the entry-document map is put into the queue,
  and a record for it is written to the log.
\<close>

theorem small_sample_queued_counterexample:
  "st_size flat_sample < 100
   \<and> demo_maindoc (stem (s_path flat_sample)) = Some ''0704.0003''
   \<and> map_option work
         (ci_run toy demo_maindoc ''/bin/tectonic'' [MainThread]
            (ci_init demo_meta [flat_sample] empty_world))
       = Some [Some flat_sample]
   \<and> map_option (record_samples \<circ> reportlog)
         (ci_run toy demo_maindoc ''/bin/tectonic'' [MainThread, Worker 0, Worker 0, Worker 0]
            (ci_init demo_meta [flat_sample] empty_world))
       = Some [''0704.0003'']"
proof (intro conjI)
  show "st_size flat_sample < 100" by (rule flat_sample_small)
  show "demo_maindoc (stem (s_path flat_sample)) = Some ''0704.0003''" by code_simp
  show "map_option work
         (ci_run toy demo_maindoc ''/bin/tectonic'' [MainThread]
            (ci_init demo_meta [flat_sample] empty_world))
       = Some [Some flat_sample]"
    by code_simp
  show "map_option (record_samples \<circ> reportlog)
         (ci_run toy demo_maindoc ''/bin/tectonic'' [MainThread, Worker 0, Worker 0, Worker 0]
            (ci_init demo_meta [flat_sample] empty_world))
       = Some [''0704.0003'']"
    by code_simp
qed

end
